theory Spec2Isabelle
  imports Main "HOL-Library.Word"
begin

section \<open>The kintone client of app.go\<close>

text \<open>
  A shallow embedding of \<^verbatim>\<open>app.go\<close>. Methods of \<^verbatim>\<open>*App\<close> take the \<open>App\<close> value and return
  the updated one; everything the network does is a \<open>world\<close> value that records the
  requests handed to the HTTP client. The Go standard library and the record codec of the
  package (\<^verbatim>\<open>DecodeRecord\<close>, \<^verbatim>\<open>DecodeRecords\<close>) are not part of \<^verbatim>\<open>app.go\<close>: what the
  client cannot compute from its arguments is a field of the environment record \<open>env\<close>,
  and the theorems hold for every environment. Two library functions are modelled
  concretely, since claims depend on what they compute: \<^verbatim>\<open>base64.StdEncoding\<close> and
  \<^verbatim>\<open>json.Unmarshal\<close> into the structs of \<^verbatim>\<open>app.go\<close> that have string fields.
\<close>

subsection \<open>Errors\<close>

text \<open>An error produced outside the package (transport, I/O, request construction).\<close>

type_synonym lib_error = string

record AppError =
  HttpStatus :: string
  HttpStatusCode :: int
  Message :: string
  AppError_Id :: string
  AppError_Code :: string

text \<open>The zero value of \<^verbatim>\<open>var ae AppError\<close>.\<close>

definition AppError_zero :: AppError where
  "AppError_zero =
     \<lparr>HttpStatus = [], HttpStatusCode = 0, Message = [], AppError_Id = [], AppError_Code = []\<rparr>"

datatype error =
    ErrTimeout
  | ErrInvalidResponse
  | ErrTooMany
  | AppErr AppError
  | Other lib_error

subsection \<open>Requests, responses and the client configuration\<close>

text \<open>
  An \<^verbatim>\<open>io.Reader\<close> is the bytes it delivers and the error that ends the stream, if any
  (\<open>None\<close> for a clean end of file). \<^verbatim>\<open>ioutil.ReadAll\<close> returns both.
\<close>

record reader =
  content :: string
  failure :: "lib_error option"

definition bytes_NewReader :: "string \<Rightarrow> reader" where
  "bytes_NewReader d = \<lparr>content = d, failure = None\<rparr>"

definition ioutil_ReadAll :: "reader \<Rightarrow> string \<times> lib_error option" where
  "ioutil_ReadAll r = (content r, failure r)"

text \<open>
  \<^verbatim>\<open>http.Header\<close>: keys with their value lists. The keys that \<^verbatim>\<open>app.go\<close> uses are in
  canonical form already.
\<close>

type_synonym header = "(string \<times> string list) list"

fun Header_Set :: "header \<Rightarrow> string \<Rightarrow> string \<Rightarrow> header" where
  "Header_Set [] k v = [(k, [v])]"
| "Header_Set ((k', vs) # h) k v = (if k' = k then (k, [v]) # h else (k', vs) # Header_Set h k v)"

definition Header_Get :: "header \<Rightarrow> string \<Rightarrow> string" where
  "Header_Get h k = (case map_of h k of None \<Rightarrow> [] | Some [] \<Rightarrow> [] | Some (v # _) \<Rightarrow> v)"

record url =
  Scheme :: string
  Host :: string
  Path :: string

record request =
  Method :: string
  URL :: string
  req_Header :: header
  req_Body :: reader

record response =
  Status :: string
  StatusCode :: int
  Header :: header
  Body :: reader

datatype jar = Jar nat

text \<open>
  \<open>has_CancelRequest\<close>: whether the transport's dynamic type has the method
  \<^verbatim>\<open>CancelRequest(*http.Request)\<close>. A nil \<^verbatim>\<open>Transport\<close> is \<open>None\<close>.
\<close>

datatype transport = RoundTripper (has_CancelRequest: bool)

record client =
  Client_Jar :: "jar option"
  Transport :: "transport option"

record App =
  App_Domain :: string
  User :: string
  Password :: string
  AppId :: "64 word"
  Client :: "client option"
  Timeout :: int
  token :: string
  basicAuth :: bool
  basicAuthUser :: string
  basicAuthPassword :: string

text \<open>\<^verbatim>\<open>time.Second * 600\<close>, in nanoseconds.\<close>

definition DEFAULT_TIMEOUT :: int where
  "DEFAULT_TIMEOUT = 1000000000 * 600"

text \<open>
  What the race in \<^verbatim>\<open>do\<close> sees: the result of \<^verbatim>\<open>Client.Do\<close> arrives on the channel first,
  or the timer fires first.
\<close>

datatype outcome = Done "lib_error + response" | TimerFired

record world =
  sent :: "request list"
  cancelled :: "request list"
  drained :: "request list"

subsection \<open>The request bodies that are marshalled\<close>

text \<open>
  Each method declares a local \<^verbatim>\<open>request_body\<close> struct and sends \<^verbatim>\<open>json.Marshal\<close> of it.
  The constructors are those structs; a nil \<^verbatim>\<open>fields\<close> slice is \<open>None\<close>.
\<close>

datatype 'rec request_body =
    Body_GetRecord "64 word" "64 word"
  | Body_GetRecords "64 word" "string list option" string
  | Body_Download string
  | Body_AddRecord "64 word" 'rec
  | Body_AddRecords "64 word" "'rec list"
  | Body_UpdateRecord "64 word" "64 word" 'rec
  | Body_UpdateRecords "64 word" "(64 word \<times> 'rec) list"
  | Body_DeleteRecords "64 word" "64 word list"
  | Body_Fields "64 word"

subsection \<open>FieldInfo\<close>

text \<open>
  \<open>'i\<close> is the type of the non-nil values of an \<^verbatim>\<open>interface{}\<close> field; nil is \<open>None\<close>, as
  it is for the slice \<^verbatim>\<open>Options\<close>.
\<close>

record 'i FieldInfo =
  Label :: string
  Code :: string
  Type :: string
  NoLabel :: bool
  Required :: bool
  Unique :: bool
  MaxValue :: "'i option"
  MinValue :: "'i option"
  MaxLength :: "'i option"
  MinLength :: "'i option"
  Default :: "'i option"
  DefaultTime :: "'i option"
  Options :: "string list option"
  Expression :: string
  Separator :: bool
  Medium :: string
  Format :: string

text \<open>The zero value of a \<^verbatim>\<open>FieldInfo\<close>.\<close>

definition FieldInfo_zero :: "'i FieldInfo" where
  "FieldInfo_zero =
     \<lparr>Label = [], Code = [], Type = [], NoLabel = False, Required = False, Unique = False,
      MaxValue = None, MinValue = None, MaxLength = None, MinLength = None, Default = None,
      DefaultTime = None, Options = None, Expression = [], Separator = False, Medium = [],
      Format = []\<rparr>"

text \<open>The local struct \<^verbatim>\<open>t\<close> of \<^verbatim>\<open>UnmarshalJSON\<close>, with string-typed flags.\<close>

record 'i staging =
  t_Label :: string
  t_Code :: string
  t_Type :: string
  t_NoLabel :: string
  t_Required :: string
  t_Unique :: string
  t_MaxValue :: "'i option"
  t_MinValue :: "'i option"
  t_MaxLength :: "'i option"
  t_MinLength :: "'i option"
  t_Default :: "'i option"
  t_DefaultTime :: "'i option"
  t_Options :: "string list option"
  t_Expression :: string
  t_Separator :: string
  t_Medium :: string
  t_Format :: string

subsection \<open>JSON values\<close>

text \<open>
  A JSON value as \<^verbatim>\<open>encoding/json\<close> reads it: the members of an object in the order of the
  text, with the keys and strings unquoted and the numbers as they are written.
\<close>

datatype json =
    JNull
  | JBool bool
  | JNumber string
  | JString string
  | JArray "json list"
  | JObject "(string \<times> json) list"

subsection \<open>The environment\<close>

text \<open>
  The library calls whose results \<^verbatim>\<open>app.go\<close> only passes on:
  \<^item> \<open>URL_String\<close>: \<^verbatim>\<open>url.URL.String\<close>;
  \<^item> \<open>http_NewRequest method urlStr\<close>: the error of \<^verbatim>\<open>http.NewRequest\<close>, if any;
  \<^item> \<open>cookiejar_New\<close>: the result of \<^verbatim>\<open>cookiejar.New(nil)\<close>;
  \<^item> \<open>Client_Do n req\<close>: how the race of \<^verbatim>\<open>do\<close> ends for the request \<open>req\<close>, sent after
    \<open>n\<close> earlier ones;
  \<^item> \<open>mime_ParseMediaType\<close>: the media type of \<^verbatim>\<open>mime.ParseMediaType\<close>, or its error;
  \<^item> \<open>json_Marshal\<close>: the bytes of \<^verbatim>\<open>json.Marshal\<close> (empty when it fails: the error is
    dropped by every caller);
  \<^item> \<open>DecodeRecord\<close>, \<open>DecodeRecords\<close>: the record codec of the package;
  \<^item> \<open>json_interface v\<close>: storing the JSON value \<open>v\<close> into a field of type \<^verbatim>\<open>interface{}\<close>:
    whether that is an error (a number out of range), and the Go value built for \<open>v\<close>,
    nil for \<^verbatim>\<open>null\<close>;
  \<^item> \<open>json_strings v old\<close>: storing \<open>v\<close> into a field of type \<^verbatim>\<open>[]string\<close> that holds \<open>old\<close>:
    whether that is an error, and the slice afterwards;
  \<^item> \<open>Unmarshal_Properties u body\<close>: \<^verbatim>\<open>json.Unmarshal\<close> into \<^verbatim>\<open>struct{Properties []FieldInfo}\<close>,
    where the library calls the method \<open>u\<close> on each element;
  \<^item> \<open>Unmarshal_Ids\<close>: \<^verbatim>\<open>json.Unmarshal\<close> into \<^verbatim>\<open>struct{Ids []string}\<close>;
  \<^item> \<open>ioutil_TempFile\<close>: the error of \<^verbatim>\<open>ioutil.TempFile\<close>, if any;
  \<^item> \<open>multipart_Write h data\<close>: writing one part with MIME header \<open>h\<close> and contents \<open>data\<close>
    to the temporary file, closing the writer and seeking to the start: the first error,
    or the file's contents and \<^verbatim>\<open>FormDataContentType()\<close>.
\<close>

record ('rec, 'i) env =
  URL_String :: "url \<Rightarrow> string"
  http_NewRequest :: "string \<Rightarrow> string \<Rightarrow> lib_error option"
  cookiejar_New :: "lib_error + jar"
  Client_Do :: "nat \<Rightarrow> request \<Rightarrow> outcome"
  mime_ParseMediaType :: "string \<Rightarrow> lib_error + string"
  json_Marshal :: "'rec request_body \<Rightarrow> string"
  DecodeRecord :: "string \<Rightarrow> lib_error + 'rec"
  DecodeRecords :: "string \<Rightarrow> lib_error + 'rec list"
  json_interface :: "json \<Rightarrow> bool \<times> 'i option"
  json_strings :: "json \<Rightarrow> string list option \<Rightarrow> bool \<times> string list option"
  Unmarshal_Properties ::
    "(string \<Rightarrow> 'i FieldInfo \<Rightarrow> lib_error option \<times> 'i FieldInfo) \<Rightarrow> string
      \<Rightarrow> lib_error + 'i FieldInfo list"
  Unmarshal_Ids :: "string \<Rightarrow> lib_error + string list"
  ioutil_TempFile :: "lib_error option"
  multipart_Write :: "header \<Rightarrow> reader \<Rightarrow> lib_error + string \<times> string"

subsection \<open>base64.StdEncoding.EncodeToString\<close>

definition b64_alphabet :: string where
  "b64_alphabet = ''ABCDEFGHIJKLMNOPQRSTUVWXYZabcdefghijklmnopqrstuvwxyz0123456789+/''"

definition b64 :: "nat \<Rightarrow> char" where
  "b64 n = b64_alphabet ! (n mod 64)"

fun EncodeToString :: "string \<Rightarrow> string" where
  "EncodeToString [] = []"
| "EncodeToString [a] =
     (let x = (of_char a :: nat)
      in [b64 (x div 4), b64 (x mod 4 * 16), CHR ''='', CHR ''=''])"
| "EncodeToString [a, b] =
     (let x = (of_char a :: nat); y = (of_char b :: nat)
      in [b64 (x div 4), b64 (x mod 4 * 16 + y div 16), b64 (y mod 16 * 4), CHR ''=''])"
| "EncodeToString (a # b # c # rest) =
     (let x = (of_char a :: nat); y = (of_char b :: nat); z = (of_char c :: nat)
      in b64 (x div 4) # b64 (x mod 4 * 16 + y div 16) # b64 (y mod 16 * 4 + z div 64)
           # b64 (z mod 64) # EncodeToString rest)"

subsection \<open>SetBasicAuth and newRequest\<close>


text \<open>\<^verbatim>\<open>(*http.Request).SetBasicAuth\<close> sets the \<^verbatim>\<open>Authorization\<close> header.\<close>

definition Request_SetBasicAuth :: "string \<Rightarrow> string \<Rightarrow> request \<Rightarrow> request" where
  "Request_SetBasicAuth username password req =
     req\<lparr>req_Header := Header_Set (req_Header req) ''Authorization''
            (''Basic '' @ EncodeToString (username @ '':'' @ password))\<rparr>"

definition newRequest ::
  "('rec, 'i) env \<Rightarrow> string \<Rightarrow> string \<Rightarrow> reader \<Rightarrow> App \<Rightarrow> (error + request) \<times> App"
where
  "newRequest env method api body app =
     (let app1 = (if length (token app) = 0
                  then app\<lparr>token := EncodeToString (User app @ '':'' @ Password app)\<rparr>
                  else app);
          u = \<lparr>Scheme = ''https'', Host = App_Domain app1, Path = ''/k/v1/'' @ api @ ''.json''\<rparr>
      in case http_NewRequest env method (URL_String env u) of
           Some err \<Rightarrow> (Inl (Other err), app1)
         | None \<Rightarrow>
             (let req = \<lparr>Method = method, URL = URL_String env u, req_Header = [],
                         req_Body = body\<rparr>;
                  req1 = (if basicAuth app1
                          then Request_SetBasicAuth (basicAuthUser app1) (basicAuthPassword app1) req
                          else req);
                  req2 = req1\<lparr>req_Header :=
                           Header_Set (req_Header req1) ''X-Cybozu-Authorization'' (token app1)\<rparr>;
                  req3 = req2\<lparr>req_Header :=
                           Header_Set (req_Header req2) ''Content-Type'' ''application/json''\<rparr>
              in (Inr req3, app1)))"

subsection \<open>do\<close>

text \<open>
  The goroutine that runs \<^verbatim>\<open>Client.Do\<close> is started before the \<^verbatim>\<open>select\<close>, so the request
  counts as sent in both branches. When the timer fires first, the request is cancelled
  if the transport has \<^verbatim>\<open>CancelRequest\<close>, and otherwise a goroutine is left to receive the
  result (\<open>drained\<close>).
\<close>

definition do ::
  "('rec, 'i) env \<Rightarrow> request \<Rightarrow> App \<times> world \<Rightarrow> (error + response) \<times> App \<times> world"
where
  "do env req s =
     (case s of (app, w) \<Rightarrow>
       (case (case Client app of
                Some c \<Rightarrow> Inr app
              | None \<Rightarrow>
                  (case cookiejar_New env of
                     Inl err \<Rightarrow> Inl err
                   | Inr j \<Rightarrow> Inr (app\<lparr>Client := Some \<lparr>Client_Jar = Some j, Transport = None\<rparr>\<rparr>)))
        of
          Inl err \<Rightarrow> (Inl (Other err), app, w)
        | Inr app1 \<Rightarrow>
            (let app2 = (if Timeout app1 = 0 then app1\<lparr>Timeout := DEFAULT_TIMEOUT\<rparr> else app1);
                 w1 = w\<lparr>sent := sent w @ [req]\<rparr>
             in case Client_Do env (length (sent w)) req of
                  Done (Inr resp) \<Rightarrow> (Inr resp, app2, w1)
                | Done (Inl err) \<Rightarrow> (Inl (Other err), app2, w1)
                | TimerFired \<Rightarrow>
                    (if (case Client app2 of
                           Some c \<Rightarrow> (case Transport c of
                                        Some tr \<Rightarrow> has_CancelRequest tr
                                      | None \<Rightarrow> False)
                         | None \<Rightarrow> False)
                     then (Inl ErrTimeout, app2, w1\<lparr>cancelled := cancelled w1 @ [req]\<rparr>)
                     else (Inl ErrTimeout, app2, w1\<lparr>drained := drained w1 @ [req]\<rparr>)))))"

subsection \<open>encoding/json: reading a JSON text\<close>

text \<open>
  \<^verbatim>\<open>json.Unmarshal\<close> first checks that its input is one JSON value (RFC 8259) between
  optional white space, and stores nothing if it is not. \<open>json_parse\<close> is that check
  together with the decoding of the literals: string literals are unquoted as the
  library does it (escapes, surrogate pairs, and U+FFFD for a surrogate half or for bytes
  that are not UTF-8), numbers are kept as written. The parser is given fuel twice the
  length of the input, which is more than it uses (\<open>json_parse_fuel\<close> below). A bound on
  the nesting depth, which later versions of the library have, is not modelled.
\<close>

definition byte :: "char \<Rightarrow> nat" where
  "byte c = of_char c"

definition isSpace :: "char \<Rightarrow> bool" where
  "isSpace c = (c = CHR '' '' \<or> c = CHR 0x09 \<or> c = CHR 0x0D \<or> c = CHR 0x0A)"

definition skip_ws :: "string \<Rightarrow> string" where
  "skip_ws s = dropWhile isSpace s"

definition is_digit :: "char \<Rightarrow> bool" where
  "is_digit c = (48 \<le> byte c \<and> byte c \<le> 57)"

definition hex_val :: "char \<Rightarrow> nat option" where
  "hex_val c =
     (if 48 \<le> byte c \<and> byte c \<le> 57 then Some (byte c - 48)
      else if 97 \<le> byte c \<and> byte c \<le> 102 then Some (byte c - 87)
      else if 65 \<le> byte c \<and> byte c \<le> 70 then Some (byte c - 55)
      else None)"

text \<open>\<^verbatim>\<open>getu4\<close> without the leading \<^verbatim>\<open>\u\<close>: the value of four hexadecimal digits.\<close>

definition hex4 :: "string \<Rightarrow> nat option" where
  "hex4 s =
     (case s of
        a # b # c # d # _ \<Rightarrow>
          (case (hex_val a, hex_val b, hex_val c, hex_val d) of
             (Some x, Some y, Some z, Some w) \<Rightarrow> Some (((x * 16 + y) * 16 + z) * 16 + w)
           | _ \<Rightarrow> None)
      | _ \<Rightarrow> None)"

definition replacement :: string where
  "replacement = [char_of (239 :: nat), char_of (191 :: nat), char_of (189 :: nat)]"

text \<open>\<^verbatim>\<open>utf8.EncodeRune\<close>.\<close>

definition EncodeRune :: "nat \<Rightarrow> string" where
  "EncodeRune r =
     (if r < 128 then [char_of r]
      else if r < 2048 then [char_of (192 + r div 64), char_of (128 + r mod 64)]
      else if (55296 \<le> r \<and> r < 57344) \<or> 1114111 < r then replacement
      else if r < 65536
        then [char_of (224 + r div 4096), char_of (128 + r div 64 mod 64), char_of (128 + r mod 64)]
      else [char_of (240 + r div 262144), char_of (128 + r div 4096 mod 64),
            char_of (128 + r div 64 mod 64), char_of (128 + r mod 64)])"

definition between :: "nat \<Rightarrow> nat \<Rightarrow> char \<Rightarrow> bool" where
  "between lo hi c = (lo \<le> byte c \<and> byte c \<le> hi)"

text \<open>
  The width of the UTF-8 encoding at the head of the input, as \<^verbatim>\<open>utf8.DecodeRune\<close> accepts
  it, for a first byte of 128 or more; 0 when the bytes are no encoding.
\<close>

definition utf8_width :: "string \<Rightarrow> nat" where
  "utf8_width s =
     (case s of
        [] \<Rightarrow> 0
      | b0 # bs \<Rightarrow>
          (if between 194 223 b0 then
             (case bs of b1 # _ \<Rightarrow> if between 128 191 b1 then 2 else 0 | _ \<Rightarrow> 0)
           else if between 224 239 b0 then
             (case bs of
                b1 # b2 # _ \<Rightarrow>
                  if between (if byte b0 = 224 then 160 else 128)
                       (if byte b0 = 237 then 159 else 191) b1
                     \<and> between 128 191 b2
                  then 3 else 0
              | _ \<Rightarrow> 0)
           else if between 240 244 b0 then
             (case bs of
                b1 # b2 # b3 # _ \<Rightarrow>
                  if between (if byte b0 = 240 then 144 else 128)
                       (if byte b0 = 244 then 143 else 191) b1
                     \<and> between 128 191 b2 \<and> between 128 191 b3
                  then 4 else 0
              | _ \<Rightarrow> 0)
           else 0))"

text \<open>
  The second half of a surrogate pair: \<open>\<^verbatim>\<open>\u\<close>\<close> and four digits at the head of the input
  that combine with the first half \<open>r\<close> (\<^verbatim>\<open>utf16.DecodeRune\<close>).
\<close>

definition surrogate_pair :: "nat \<Rightarrow> string \<Rightarrow> nat option" where
  "surrogate_pair r s =
     (case s of
        b # u # hs \<Rightarrow>
          (if b = CHR 0x5C \<and> u = CHR ''u'' then
             (case hex4 hs of
                Some r2 \<Rightarrow>
                  if 55296 \<le> r \<and> r < 56320 \<and> 56320 \<le> r2 \<and> r2 < 57344
                  then Some ((r - 55296) * 1024 + (r2 - 56320) + 65536)
                  else None
              | None \<Rightarrow> None)
           else None)
      | _ \<Rightarrow> None)"

definition simple_escape :: "char \<Rightarrow> char option" where
  "simple_escape e =
     (if e = CHR 0x22 \<or> e = CHR 0x5C \<or> e = CHR ''/'' then Some e
      else if e = CHR ''b'' then Some (CHR 0x08)
      else if e = CHR ''f'' then Some (CHR 0x0C)
      else if e = CHR ''n'' then Some (CHR 0x0A)
      else if e = CHR ''r'' then Some (CHR 0x0D)
      else if e = CHR ''t'' then Some (CHR 0x09)
      else None)"

definition prepend :: "string \<Rightarrow> (string \<times> string) option \<Rightarrow> (string \<times> string) option" where
  "prepend p r = (case r of None \<Rightarrow> None | Some (t, rest) \<Rightarrow> Some (p @ t, rest))"

text \<open>
  One unit of a string literal that starts with the byte \<open>c\<close> and goes on with \<open>cs\<close>: the
  bytes it stands for, and how many bytes of \<open>cs\<close> belong to it. \<open>None\<close> where the literal
  is malformed (an unknown escape, a control character).
\<close>

definition string_unit :: "char \<Rightarrow> string \<Rightarrow> (string \<times> nat) option" where
  "string_unit c cs =
     (if c = CHR 0x5C then
        (case cs of
           [] \<Rightarrow> None
         | e # cs' \<Rightarrow>
             (if e = CHR ''u'' then
                (case hex4 cs' of
                   None \<Rightarrow> None
                 | Some r \<Rightarrow>
                     (if 55296 \<le> r \<and> r < 57344 then
                        (case surrogate_pair r (drop 4 cs') of
                           Some dec \<Rightarrow> Some (EncodeRune dec, 11)
                         | None \<Rightarrow> Some (replacement, 5))
                      else Some (EncodeRune r, 5)))
              else
                (case simple_escape e of
                   None \<Rightarrow> None
                 | Some x \<Rightarrow> Some ([x], 1))))
      else if byte c < 32 then None
      else if byte c < 128 then Some ([c], 0)
      else if utf8_width (c # cs) = 0 then Some (replacement, 0)
      else Some (take (utf8_width (c # cs)) (c # cs), utf8_width (c # cs) - 1))"

text \<open>
  A string literal after its opening quote: the unquoted contents and the input after the
  closing quote.
\<close>

fun scan_string :: "string \<Rightarrow> (string \<times> string) option" where
  "scan_string [] = None"
| "scan_string (c # cs) =
     (if c = CHR 0x22 then Some ([], cs)
      else (case string_unit c cs of
              None \<Rightarrow> None
            | Some (out, k) \<Rightarrow> prepend out (scan_string (drop k cs))))"

definition scan_digits :: "string \<Rightarrow> (string \<times> string) option" where
  "scan_digits s =
     (if takeWhile is_digit s = [] then None
      else Some (takeWhile is_digit s, dropWhile is_digit s))"

text \<open>A number literal: \<^verbatim>\<open>-? (0 | [1-9][0-9]*) (. [0-9]+)? ([eE] [+-]? [0-9]+)?\<close>.\<close>

definition scan_int :: "string \<Rightarrow> (string \<times> string) option" where
  "scan_int s =
     (case s of
        [] \<Rightarrow> None
      | d # r \<Rightarrow>
          (if d = CHR ''0'' then Some ([d], r)
           else if is_digit d then Some (d # takeWhile is_digit r, dropWhile is_digit r)
           else None))"

definition scan_frac :: "string \<Rightarrow> (string \<times> string) option" where
  "scan_frac s =
     (case s of
        [] \<Rightarrow> Some ([], s)
      | d # r \<Rightarrow> if d = CHR ''.'' then prepend [d] (scan_digits r) else Some ([], s))"

definition scan_exp :: "string \<Rightarrow> (string \<times> string) option" where
  "scan_exp s =
     (case s of
        [] \<Rightarrow> Some ([], s)
      | e # r \<Rightarrow>
          (if e = CHR ''e'' \<or> e = CHR ''E'' then
             (case r of
                [] \<Rightarrow> None
              | g # r' \<Rightarrow>
                  if g = CHR ''+'' \<or> g = CHR ''-'' then prepend [e, g] (scan_digits r')
                  else prepend [e] (scan_digits r))
           else Some ([], s)))"

definition scan_number :: "string \<Rightarrow> (string \<times> string) option" where
  "scan_number s =
     (case (case s of
              [] \<Rightarrow> None
            | m # r \<Rightarrow> if m = CHR ''-'' then prepend [m] (scan_int r) else scan_int s)
      of
        None \<Rightarrow> None
      | Some (i, s1) \<Rightarrow>
          (case scan_frac s1 of
             None \<Rightarrow> None
           | Some (f, s2) \<Rightarrow> prepend (i @ f) (scan_exp s2)))"

definition tag :: "('a \<Rightarrow> 'b) \<Rightarrow> ('a \<times> string) option \<Rightarrow> ('b \<times> string) option" where
  "tag f r = (case r of None \<Rightarrow> None | Some (x, rest) \<Rightarrow> Some (f x, rest))"

text \<open>
  One value, the elements of an array after \<^verbatim>\<open>[\<close> and the members of an object after \<^verbatim>\<open>{\<close>.
  Each is written once, over the parsers it calls; \<open>parse_value\<close>, \<open>parse_elements\<close> and
  \<open>parse_members\<close> tie them together, by recursion on the fuel.
\<close>

definition value_step ::
  "(string \<Rightarrow> (json list \<times> string) option) \<Rightarrow> (string \<Rightarrow> ((string \<times> json) list \<times> string) option)
    \<Rightarrow> string \<Rightarrow> (json \<times> string) option"
where
  "value_step elements members s =
     (case skip_ws s of
        [] \<Rightarrow> None
      | c # cs \<Rightarrow>
          (if c = CHR ''{'' then
             (case skip_ws cs of
                [] \<Rightarrow> None
              | d # ds \<Rightarrow> if d = CHR ''}'' then Some (JObject [], ds)
                          else tag JObject (members cs))
           else if c = CHR ''['' then
             (case skip_ws cs of
                [] \<Rightarrow> None
              | d # ds \<Rightarrow> if d = CHR '']'' then Some (JArray [], ds)
                          else tag JArray (elements cs))
           else if c = CHR 0x22 then tag JString (scan_string cs)
           else if c = CHR ''-'' \<or> is_digit c then tag JNumber (scan_number (c # cs))
           else if take 4 (c # cs) = ''true'' then Some (JBool True, drop 4 (c # cs))
           else if take 5 (c # cs) = ''false'' then Some (JBool False, drop 5 (c # cs))
           else if take 4 (c # cs) = ''null'' then Some (JNull, drop 4 (c # cs))
           else None))"

definition elements_step ::
  "(string \<Rightarrow> (json \<times> string) option) \<Rightarrow> (string \<Rightarrow> (json list \<times> string) option)
    \<Rightarrow> string \<Rightarrow> (json list \<times> string) option"
where
  "elements_step val elements s =
     (case val s of
        None \<Rightarrow> None
      | Some (v, r) \<Rightarrow>
          (case skip_ws r of
             [] \<Rightarrow> None
           | d # ds \<Rightarrow>
               (if d = CHR '','' then tag (Cons v) (elements ds)
                else if d = CHR '']'' then Some ([v], ds)
                else None)))"

definition members_step ::
  "(string \<Rightarrow> (json \<times> string) option) \<Rightarrow> (string \<Rightarrow> ((string \<times> json) list \<times> string) option)
    \<Rightarrow> string \<Rightarrow> ((string \<times> json) list \<times> string) option"
where
  "members_step val members s =
     (case skip_ws s of
        [] \<Rightarrow> None
      | q # cs \<Rightarrow>
          (if q = CHR 0x22 then
             (case scan_string cs of
                None \<Rightarrow> None
              | Some (k, r) \<Rightarrow>
                  (case skip_ws r of
                     [] \<Rightarrow> None
                   | colon # r1 \<Rightarrow>
                       (if colon = CHR '':'' then
                          (case val r1 of
                             None \<Rightarrow> None
                           | Some (v, r2) \<Rightarrow>
                               (case skip_ws r2 of
                                  [] \<Rightarrow> None
                                | d # ds \<Rightarrow>
                                    (if d = CHR '','' then tag (Cons (k, v)) (members ds)
                                     else if d = CHR ''}'' then Some ([(k, v)], ds)
                                     else None)))
                        else None)))
           else None))"

fun parse_value :: "nat \<Rightarrow> string \<Rightarrow> (json \<times> string) option"
  and parse_elements :: "nat \<Rightarrow> string \<Rightarrow> (json list \<times> string) option"
  and parse_members :: "nat \<Rightarrow> string \<Rightarrow> ((string \<times> json) list \<times> string) option"
where
  "parse_value 0 s = None"
| "parse_value (Suc n) s = value_step (parse_elements n) (parse_members n) s"
| "parse_elements 0 s = None"
| "parse_elements (Suc n) s = elements_step (parse_value n) (parse_elements n) s"
| "parse_members 0 s = None"
| "parse_members (Suc n) s = members_step (parse_value n) (parse_members n) s"

definition json_parse :: "string \<Rightarrow> json option" where
  "json_parse s =
     (case parse_value (2 * length s + 2) s of
        None \<Rightarrow> None
      | Some (v, rest) \<Rightarrow> if skip_ws rest = [] then Some v else None)"

subsection \<open>encoding/json: storing an object into a struct of strings\<close>

text \<open>
  A key selects the field whose name it equals, or equals under Unicode simple case
  folding; no two field names of one struct in \<^verbatim>\<open>app.go\<close> fold to the same string, so the
  two coincide. For the ASCII letters of a field name, folding identifies upper and lower
  case, the Kelvin sign (U+212A) with \<open>k\<close> and the long s (U+017F) with \<open>s\<close>.
\<close>

definition lower :: "char \<Rightarrow> char" where
  "lower c = (if 65 \<le> byte c \<and> byte c \<le> 90 then char_of (byte c + 32) else c)"

fun equalFold :: "string \<Rightarrow> string \<Rightarrow> bool" where
  "equalFold [] k = (k = [])"
| "equalFold (f # fs) k =
     (case k of
        [] \<Rightarrow> False
      | c # cs \<Rightarrow>
          (if lower c = lower f then equalFold fs cs
           else if lower f = CHR ''s'' \<and> take 2 k = [char_of (197 :: nat), char_of (191 :: nat)]
             then equalFold fs (drop 2 k)
           else if lower f = CHR ''k''
                 \<and> take 3 k = [char_of (226 :: nat), char_of (132 :: nat), char_of (170 :: nat)]
             then equalFold fs (drop 3 k)
           else False))"

text \<open>
  Storing a JSON value into a string field: a string is stored, \<^verbatim>\<open>null\<close> leaves the field
  as it is, and any other value leaves it as it is and is a type error. The result is the
  error flag and the field.
\<close>

fun store_string :: "json \<Rightarrow> string \<Rightarrow> bool \<times> string" where
  "store_string (JString x) old = (False, x)"
| "store_string JNull old = (False, old)"
| "store_string (JBool b) old = (True, old)"
| "store_string (JNumber n) old = (True, old)"
| "store_string (JArray xs) old = (True, old)"
| "store_string (JObject kvs) old = (True, old)"

text \<open>
  The members of an object are stored in the order of the text, so the last of several
  members for one field wins; a type error does not stop the decoding of the members
  that follow.
\<close>

fun decode_object ::
  "(string \<Rightarrow> json \<Rightarrow> 's \<Rightarrow> bool \<times> 's) \<Rightarrow> (string \<times> json) list \<Rightarrow> 's \<Rightarrow> bool \<times> 's"
where
  "decode_object f [] st = (False, st)"
| "decode_object f ((k, v) # kvs) st =
     (case f k v st of
        (bad, st1) \<Rightarrow> (case decode_object f kvs st1 of (bad', st2) \<Rightarrow> (bad \<or> bad', st2)))"

text \<open>
  \<^verbatim>\<open>json.Unmarshal(data, &st)\<close> for a struct \<open>st\<close> whose fields are stored by \<open>f\<close>: the error
  it returns, and the struct afterwards. A text that is not JSON stores nothing; so does
  a value that is no object, which is a type error unless it is \<^verbatim>\<open>null\<close>.
\<close>

definition json_Unmarshal ::
  "(string \<Rightarrow> json \<Rightarrow> 's \<Rightarrow> bool \<times> 's) \<Rightarrow> string \<Rightarrow> 's \<Rightarrow> lib_error option \<times> 's"
where
  "json_Unmarshal f data st =
     (case json_parse data of
        None \<Rightarrow> (Some ''json: syntax error'', st)
      | Some JNull \<Rightarrow> (None, st)
      | Some (JObject kvs) \<Rightarrow>
          (case decode_object f kvs st of
             (bad, st') \<Rightarrow> (if bad then Some ''json: cannot unmarshal value into field'' else None, st'))
      | Some (JBool b) \<Rightarrow> (Some ''json: cannot unmarshal value into struct'', st)
      | Some (JNumber n) \<Rightarrow> (Some ''json: cannot unmarshal value into struct'', st)
      | Some (JString x) \<Rightarrow> (Some ''json: cannot unmarshal value into struct'', st)
      | Some (JArray xs) \<Rightarrow> (Some ''json: cannot unmarshal value into struct'', st))"

text \<open>
  The fields of \<^verbatim>\<open>AppError\<close> by their tags: \<^verbatim>\<open>message\<close>, \<^verbatim>\<open>id\<close> and \<^verbatim>\<open>code\<close>. The tag \<^verbatim>\<open>"-"\<close>
  keeps \<^verbatim>\<open>HttpStatus\<close> and \<^verbatim>\<open>HttpStatusCode\<close> out of the decoding.
\<close>

definition AppError_field :: "string \<Rightarrow> json \<Rightarrow> AppError \<Rightarrow> bool \<times> AppError" where
  "AppError_field k v ae =
     (if equalFold ''message'' k then
        (case store_string v (Message ae) of (bad, x) \<Rightarrow> (bad, ae\<lparr>Message := x\<rparr>))
      else if equalFold ''id'' k then
        (case store_string v (AppError_Id ae) of (bad, x) \<Rightarrow> (bad, ae\<lparr>AppError_Id := x\<rparr>))
      else if equalFold ''code'' k then
        (case store_string v (AppError_Code ae) of (bad, x) \<Rightarrow> (bad, ae\<lparr>AppError_Code := x\<rparr>))
      else (False, ae))"

text \<open>A struct with the one string field tagged \<open>name\<close>, as a string.\<close>

definition single_field :: "string \<Rightarrow> string \<Rightarrow> json \<Rightarrow> string \<Rightarrow> bool \<times> string" where
  "single_field name k v st = (if equalFold name k then store_string v st else (False, st))"

text \<open>
  The fields of the staging struct of \<^verbatim>\<open>FieldInfo.UnmarshalJSON\<close> by their tags, in the
  order of the struct.
\<close>

definition staging_field ::
  "('rec, 'i) env \<Rightarrow> string \<Rightarrow> json \<Rightarrow> 'i staging \<Rightarrow> bool \<times> 'i staging"
where
  "staging_field env k v t =
     (if equalFold ''label'' k then
        (case store_string v (t_Label t) of (bad, x) \<Rightarrow> (bad, t\<lparr>t_Label := x\<rparr>))
      else if equalFold ''code'' k then
        (case store_string v (t_Code t) of (bad, x) \<Rightarrow> (bad, t\<lparr>t_Code := x\<rparr>))
      else if equalFold ''type'' k then
        (case store_string v (t_Type t) of (bad, x) \<Rightarrow> (bad, t\<lparr>t_Type := x\<rparr>))
      else if equalFold ''noLabel'' k then
        (case store_string v (t_NoLabel t) of (bad, x) \<Rightarrow> (bad, t\<lparr>t_NoLabel := x\<rparr>))
      else if equalFold ''required'' k then
        (case store_string v (t_Required t) of (bad, x) \<Rightarrow> (bad, t\<lparr>t_Required := x\<rparr>))
      else if equalFold ''unique'' k then
        (case store_string v (t_Unique t) of (bad, x) \<Rightarrow> (bad, t\<lparr>t_Unique := x\<rparr>))
      else if equalFold ''maxValue'' k then
        (case json_interface env v of (bad, x) \<Rightarrow> (bad, t\<lparr>t_MaxValue := x\<rparr>))
      else if equalFold ''minValue'' k then
        (case json_interface env v of (bad, x) \<Rightarrow> (bad, t\<lparr>t_MinValue := x\<rparr>))
      else if equalFold ''maxLength'' k then
        (case json_interface env v of (bad, x) \<Rightarrow> (bad, t\<lparr>t_MaxLength := x\<rparr>))
      else if equalFold ''minLength'' k then
        (case json_interface env v of (bad, x) \<Rightarrow> (bad, t\<lparr>t_MinLength := x\<rparr>))
      else if equalFold ''defaultValue'' k then
        (case json_interface env v of (bad, x) \<Rightarrow> (bad, t\<lparr>t_Default := x\<rparr>))
      else if equalFold ''defaultExpression'' k then
        (case json_interface env v of (bad, x) \<Rightarrow> (bad, t\<lparr>t_DefaultTime := x\<rparr>))
      else if equalFold ''options'' k then
        (case json_strings env v (t_Options t) of (bad, x) \<Rightarrow> (bad, t\<lparr>t_Options := x\<rparr>))
      else if equalFold ''expression'' k then
        (case store_string v (t_Expression t) of (bad, x) \<Rightarrow> (bad, t\<lparr>t_Expression := x\<rparr>))
      else if equalFold ''digit'' k then
        (case store_string v (t_Separator t) of (bad, x) \<Rightarrow> (bad, t\<lparr>t_Separator := x\<rparr>))
      else if equalFold ''protocol'' k then
        (case store_string v (t_Medium t) of (bad, x) \<Rightarrow> (bad, t\<lparr>t_Medium := x\<rparr>))
      else if equalFold ''format'' k then
        (case store_string v (t_Format t) of (bad, x) \<Rightarrow> (bad, t\<lparr>t_Format := x\<rparr>))
      else (False, t))"

subsection \<open>isJSON and parseResponse\<close>

definition isJSON :: "('rec, 'i) env \<Rightarrow> string \<Rightarrow> bool" where
  "isJSON env contentType =
     (case mime_ParseMediaType env contentType of
        Inl err \<Rightarrow> False
      | Inr mediatype \<Rightarrow> mediatype = ''application/json'')"

definition parseResponse :: "('rec, 'i) env \<Rightarrow> response \<Rightarrow> error + string" where
  "parseResponse env resp =
     (case ioutil_ReadAll (Body resp) of
        (body, Some err) \<Rightarrow> Inl (Other err)
      | (body, None) \<Rightarrow>
          (if StatusCode resp \<noteq> 200 then
             (if \<not> isJSON env (Header_Get (Header resp) ''Content-Type'') then
                Inl (AppErr (AppError_zero\<lparr>HttpStatus := Status resp,
                                            HttpStatusCode := StatusCode resp\<rparr>))
              else
                (let ae = snd (json_Unmarshal AppError_field body AppError_zero)
                 in Inl (AppErr (ae\<lparr>HttpStatus := Status resp,
                                      HttpStatusCode := StatusCode resp\<rparr>))))
           else Inr body))"

subsection \<open>GetRecord and GetRecords\<close>

definition GetRecord ::
  "('rec, 'i) env \<Rightarrow> 64 word \<Rightarrow> App \<times> world \<Rightarrow> (error + 'rec) \<times> App \<times> world"
where
  "GetRecord env rid s =
     (case s of (app, w) \<Rightarrow>
       (let data = json_Marshal env (Body_GetRecord (AppId app) rid)
        in case newRequest env ''GET'' ''record'' (bytes_NewReader data) app of
             (Inl err, app1) \<Rightarrow> (Inl err, app1, w)
           | (Inr req, app1) \<Rightarrow>
               (case do env req (app1, w) of
                  (Inl err, s2) \<Rightarrow> (Inl err, s2)
                | (Inr resp, s2) \<Rightarrow>
                    (case parseResponse env resp of
                       Inl err \<Rightarrow> (Inl err, s2)
                     | Inr body \<Rightarrow>
                         (case DecodeRecord env body of
                            Inl err \<Rightarrow> (Inl ErrInvalidResponse, s2)
                          | Inr r \<Rightarrow> (Inr r, s2))))))"

definition GetRecords ::
  "('rec, 'i) env \<Rightarrow> string list option \<Rightarrow> string \<Rightarrow> App \<times> world
    \<Rightarrow> (error + 'rec list) \<times> App \<times> world"
where
  "GetRecords env flds query s =
     (case s of (app, w) \<Rightarrow>
       (let data = json_Marshal env (Body_GetRecords (AppId app) flds query)
        in case newRequest env ''GET'' ''records'' (bytes_NewReader data) app of
             (Inl err, app1) \<Rightarrow> (Inl err, app1, w)
           | (Inr req, app1) \<Rightarrow>
               (case do env req (app1, w) of
                  (Inl err, s2) \<Rightarrow> (Inl err, s2)
                | (Inr resp, s2) \<Rightarrow>
                    (case parseResponse env resp of
                       Inl err \<Rightarrow> (Inl err, s2)
                     | Inr body \<Rightarrow>
                         (case DecodeRecords env body of
                            Inl err \<Rightarrow> (Inl ErrInvalidResponse, s2)
                          | Inr recs \<Rightarrow> (Inr recs, s2))))))"

subsection \<open>GetAllRecords\<close>

text \<open>\<^verbatim>\<open>%v\<close> of a non-negative \<^verbatim>\<open>int\<close>: its decimal digits.\<close>

fun decimal :: "nat \<Rightarrow> string" where
  "decimal n =
     (if n < 10 then [''0123456789'' ! n]
      else decimal (n div 10) @ [''0123456789'' ! (n mod 10)])"

declare decimal.simps [simp del]

text \<open>The query of the next request, when \<open>recs\<close> is the slice accumulated so far.\<close>

definition page_query :: "'rec list \<Rightarrow> string" where
  "page_query recs =
     (if length recs > 0 then ''limit 100 offset '' @ decimal (length recs) else ''limit 100'')"

text \<open>
  One pass through the body of the \<^verbatim>\<open>for\<close> loop, up to the decoding of the page: \<open>recs\<close> is
  the slice accumulated so far. The result is the error that makes the loop return, or
  the decoded page \<^verbatim>\<open>r\<close>.
\<close>

definition GetAllRecords_page ::
  "('rec, 'i) env \<Rightarrow> string list option \<Rightarrow> 'rec list \<Rightarrow> App \<times> world
    \<Rightarrow> (error + 'rec list) \<times> App \<times> world"
where
  "GetAllRecords_page env flds recs s =
     (case s of (app, w) \<Rightarrow>
       (let query = page_query recs;
            data = json_Marshal env (Body_GetRecords (AppId app) flds query)
        in case newRequest env ''GET'' ''records'' (bytes_NewReader data) app of
             (Inl err, app1) \<Rightarrow> (Inl err, app1, w)
           | (Inr req, app1) \<Rightarrow>
               (case do env req (app1, w) of
                  (Inl err, s2) \<Rightarrow> (Inl err, s2)
                | (Inr resp, s2) \<Rightarrow>
                    (case parseResponse env resp of
                       Inl err \<Rightarrow> (Inl err, s2)
                     | Inr body \<Rightarrow>
                         (case DecodeRecords env body of
                            Inl err \<Rightarrow> (Inl ErrInvalidResponse, s2)
                          | Inr r \<Rightarrow> (Inr r, s2))))))"

text \<open>
  The loop. It has no bound: against a service that answers every request with 100
  records or more it does not return, which is the value \<open>None\<close>.
\<close>

partial_function (option) GetAllRecords_loop ::
  "('rec, 'i) env \<Rightarrow> string list option \<Rightarrow> 'rec list \<Rightarrow> App \<times> world
    \<Rightarrow> ((error + 'rec list) \<times> App \<times> world) option"
where
  "GetAllRecords_loop env flds recs s =
     (case GetAllRecords_page env flds recs s of
        (Inl err, s') \<Rightarrow> Some (Inl err, s')
      | (Inr r, s') \<Rightarrow>
          (if length r < 100 then Some (Inr (recs @ r), s')
           else GetAllRecords_loop env flds (recs @ r) s'))"

definition GetAllRecords ::
  "('rec, 'i) env \<Rightarrow> string list option \<Rightarrow> App \<times> world
    \<Rightarrow> ((error + 'rec list) \<times> App \<times> world) option"
where
  "GetAllRecords env flds s = GetAllRecords_loop env flds [] s"

text \<open>
  The slice and the state after \<open>n\<close> passes through the loop that each fetched a page of
  100 records or more, starting from the slice \<open>recs\<close>; \<open>None\<close> if one of these passes
  fails or fetches a shorter page.
\<close>

fun full_pages ::
  "('rec, 'i) env \<Rightarrow> string list option \<Rightarrow> nat \<Rightarrow> 'rec list \<Rightarrow> App \<times> world
    \<Rightarrow> ('rec list \<times> App \<times> world) option"
where
  "full_pages env flds 0 recs s = Some (recs, s)"
| "full_pages env flds (Suc n) recs s =
     (case GetAllRecords_page env flds recs s of
        (Inl err, s') \<Rightarrow> None
      | (Inr r, s') \<Rightarrow>
          (if length r < 100 then None else full_pages env flds n (recs @ r) s'))"

subsection \<open>Download and Upload\<close>

record FileData =
  ContentType :: string
  Reader :: reader

text \<open>
  On success the body of the response is relayed through a pipe by a goroutine: the
  reader of the result delivers the bytes of the body, and its error if the copy fails.
\<close>

definition Download ::
  "('rec, 'i) env \<Rightarrow> string \<Rightarrow> App \<times> world \<Rightarrow> (error + FileData) \<times> App \<times> world"
where
  "Download env fileKey s =
     (case s of (app, w) \<Rightarrow>
       (let data = json_Marshal env (Body_Download fileKey)
        in case newRequest env ''GET'' ''file'' (bytes_NewReader data) app of
             (Inl err, app1) \<Rightarrow> (Inl err, app1, w)
           | (Inr req, app1) \<Rightarrow>
               (case do env req (app1, w) of
                  (Inl err, s2) \<Rightarrow> (Inl err, s2)
                | (Inr resp, s2) \<Rightarrow>
                    (if StatusCode resp \<noteq> 200 then
                       (if \<not> isJSON env (Header_Get (Header resp) ''Content-Type'') then
                          (Inl (AppErr (AppError_zero\<lparr>HttpStatus := Status resp,
                                                        HttpStatusCode := StatusCode resp\<rparr>)), s2)
                        else
                          (let body = fst (ioutil_ReadAll (Body resp));
                               ae = snd (json_Unmarshal AppError_field body AppError_zero)
                           in (Inl (AppErr (ae\<lparr>HttpStatus := Status resp,
                                                 HttpStatusCode := StatusCode resp\<rparr>)), s2)))
                     else
                       (Inr \<lparr>ContentType = Header_Get (Header resp) ''Content-Type'',
                             Reader = Body resp\<rparr>, s2)))))"

text \<open>\<^verbatim>\<open>quoteEscaper\<close>: a backslash and a double quote get a backslash in front.\<close>

definition escapeQuotes :: "string \<Rightarrow> string" where
  "escapeQuotes s =
     concat (map (\<lambda>c. if c = CHR 0x5C then [CHR 0x5C, CHR 0x5C]
                       else if c = CHR 0x22 then [CHR 0x5C, CHR 0x22]
                       else [c]) s)"

definition Upload ::
  "('rec, 'i) env \<Rightarrow> string \<Rightarrow> string \<Rightarrow> reader \<Rightarrow> App \<times> world
    \<Rightarrow> (error + string) \<times> App \<times> world"
where
  "Upload env fileName contentType data s =
     (case s of (app, w) \<Rightarrow>
       (case ioutil_TempFile env of
          Some err \<Rightarrow> (Inl (Other err), app, w)
        | None \<Rightarrow>
            (let h = Header_Set [] ''Content-Disposition''
                       (''form-data; name='' @ [CHR 0x22] @ ''file'' @ [CHR 0x22] @ ''; filename=''
                          @ [CHR 0x22] @ escapeQuotes fileName @ [CHR 0x22]);
                 h1 = Header_Set h ''Content-Type'' contentType
             in case multipart_Write env h1 data of
                  Inl err \<Rightarrow> (Inl (Other err), app, w)
                | Inr (f, formDataContentType) \<Rightarrow>
                    (case newRequest env ''POST'' ''file'' (bytes_NewReader f) app of
                       (Inl err, app1) \<Rightarrow> (Inl err, app1, w)
                     | (Inr req, app1) \<Rightarrow>
                         (let req1 = req\<lparr>req_Header :=
                                       Header_Set (req_Header req) ''Content-Type''
                                         formDataContentType\<rparr>
                          in case do env req1 (app1, w) of
                               (Inl err, s2) \<Rightarrow> (Inl err, s2)
                             | (Inr resp, s2) \<Rightarrow>
                                 (case parseResponse env resp of
                                    Inl err \<Rightarrow> (Inl err, s2)
                                  | Inr body \<Rightarrow>
                                      (case json_Unmarshal (single_field ''fileKey'') body [] of
                                         (Some err, t) \<Rightarrow> (Inl ErrInvalidResponse, s2)
                                       | (None, t) \<Rightarrow> (Inr t, s2))))))))"

subsection \<open>Adding, updating and deleting records\<close>

definition AddRecord ::
  "('rec, 'i) env \<Rightarrow> 'rec \<Rightarrow> App \<times> world \<Rightarrow> (error + string) \<times> App \<times> world"
where
  "AddRecord env r s =
     (case s of (app, w) \<Rightarrow>
       (let data = json_Marshal env (Body_AddRecord (AppId app) r)
        in case newRequest env ''POST'' ''record'' (bytes_NewReader data) app of
             (Inl err, app1) \<Rightarrow> (Inl err, app1, w)
           | (Inr req, app1) \<Rightarrow>
               (case do env req (app1, w) of
                  (Inl err, s2) \<Rightarrow> (Inl err, s2)
                | (Inr resp, s2) \<Rightarrow>
                    (case parseResponse env resp of
                       Inl err \<Rightarrow> (Inl err, s2)
                     | Inr body \<Rightarrow>
                         (case json_Unmarshal (single_field ''id'') body [] of
                            (Some err, t) \<Rightarrow> (Inl ErrInvalidResponse, s2)
                          | (None, t) \<Rightarrow> (Inr t, s2))))))"

definition AddRecords ::
  "('rec, 'i) env \<Rightarrow> 'rec list \<Rightarrow> App \<times> world \<Rightarrow> (error + string list) \<times> App \<times> world"
where
  "AddRecords env recs s =
     (case s of (app, w) \<Rightarrow>
       (if length recs > 100 then (Inl ErrTooMany, app, w)
        else
          (let data = json_Marshal env (Body_AddRecords (AppId app) recs)
           in case newRequest env ''POST'' ''records'' (bytes_NewReader data) app of
                (Inl err, app1) \<Rightarrow> (Inl err, app1, w)
              | (Inr req, app1) \<Rightarrow>
                  (case do env req (app1, w) of
                     (Inl err, s2) \<Rightarrow> (Inl err, s2)
                   | (Inr resp, s2) \<Rightarrow>
                       (case parseResponse env resp of
                          Inl err \<Rightarrow> (Inl err, s2)
                        | Inr body \<Rightarrow>
                            (case Unmarshal_Ids env body of
                               Inl err \<Rightarrow> (Inl ErrInvalidResponse, s2)
                             | Inr ids \<Rightarrow> (Inr ids, s2)))))))"

text \<open>The methods without a result return \<open>None\<close> for a nil error.\<close>

definition UpdateRecord ::
  "('rec, 'i) env \<Rightarrow> 64 word \<Rightarrow> 'rec \<Rightarrow> App \<times> world \<Rightarrow> error option \<times> App \<times> world"
where
  "UpdateRecord env rid r s =
     (case s of (app, w) \<Rightarrow>
       (let data = json_Marshal env (Body_UpdateRecord (AppId app) rid r)
        in case newRequest env ''PUT'' ''record'' (bytes_NewReader data) app of
             (Inl err, app1) \<Rightarrow> (Some err, app1, w)
           | (Inr req, app1) \<Rightarrow>
               (case do env req (app1, w) of
                  (Inl err, s2) \<Rightarrow> (Some err, s2)
                | (Inr resp, s2) \<Rightarrow>
                    (case parseResponse env resp of
                       Inl err \<Rightarrow> (Some err, s2)
                     | Inr body \<Rightarrow> (None, s2)))))"

text \<open>
  The argument of \<^verbatim>\<open>UpdateRecords\<close> is a Go map, given by its entries in the order in which
  \<^verbatim>\<open>range\<close> visits them; its keys are pairwise distinct, so \<^verbatim>\<open>len(recs)\<close> is the length of
  the list.
\<close>

definition UpdateRecords ::
  "('rec, 'i) env \<Rightarrow> (64 word \<times> 'rec) list \<Rightarrow> App \<times> world \<Rightarrow> error option \<times> App \<times> world"
where
  "UpdateRecords env recs s =
     (case s of (app, w) \<Rightarrow>
       (if length recs > 100 then (Some ErrTooMany, app, w)
        else
          (let t_recs = foldl (\<lambda>acc (rid, r). acc @ [(rid, r)]) [] recs;
               data = json_Marshal env (Body_UpdateRecords (AppId app) t_recs)
           in case newRequest env ''PUT'' ''records'' (bytes_NewReader data) app of
                (Inl err, app1) \<Rightarrow> (Some err, app1, w)
              | (Inr req, app1) \<Rightarrow>
                  (case do env req (app1, w) of
                     (Inl err, s2) \<Rightarrow> (Some err, s2)
                   | (Inr resp, s2) \<Rightarrow>
                       (case parseResponse env resp of
                          Inl err \<Rightarrow> (Some err, s2)
                        | Inr body \<Rightarrow> (None, s2))))))"

definition DeleteRecords ::
  "('rec, 'i) env \<Rightarrow> 64 word list \<Rightarrow> App \<times> world \<Rightarrow> error option \<times> App \<times> world"
where
  "DeleteRecords env ids s =
     (case s of (app, w) \<Rightarrow>
       (if length ids > 100 then (Some ErrTooMany, app, w)
        else
          (let data = json_Marshal env (Body_DeleteRecords (AppId app) ids)
           in case newRequest env ''DELETE'' ''records'' (bytes_NewReader data) app of
                (Inl err, app1) \<Rightarrow> (Some err, app1, w)
              | (Inr req, app1) \<Rightarrow>
                  (case do env req (app1, w) of
                     (Inl err, s2) \<Rightarrow> (Some err, s2)
                   | (Inr resp, s2) \<Rightarrow>
                       (case parseResponse env resp of
                          Inl err \<Rightarrow> (Some err, s2)
                        | Inr body \<Rightarrow> (None, s2))))))"

subsection \<open>FieldInfo.UnmarshalJSON and Fields\<close>

definition staging_zero :: "'i staging" where
  "staging_zero =
     \<lparr>t_Label = [], t_Code = [], t_Type = [], t_NoLabel = [], t_Required = [], t_Unique = [],
      t_MaxValue = None, t_MinValue = None, t_MaxLength = None, t_MinLength = None,
      t_Default = None, t_DefaultTime = None, t_Options = None, t_Expression = [],
      t_Separator = [], t_Medium = [], t_Format = []\<rparr>"

text \<open>
  The method on \<^verbatim>\<open>*FieldInfo\<close>: the error it returns and the value \<^verbatim>\<open>*fi\<close> afterwards, which
  is assigned only when the staging struct was decoded without error.
\<close>

definition FieldInfo_UnmarshalJSON ::
  "('rec, 'i) env \<Rightarrow> string \<Rightarrow> 'i FieldInfo \<Rightarrow> lib_error option \<times> 'i FieldInfo"
where
  "FieldInfo_UnmarshalJSON env data fi =
     (case json_Unmarshal (staging_field env) data staging_zero of
        (Some err, t) \<Rightarrow> (Some err, fi)
      | (None, t) \<Rightarrow>
          (None,
           \<lparr>Label = t_Label t, Code = t_Code t, Type = t_Type t,
            NoLabel = (t_NoLabel t = ''true''),
            Required = (t_Required t = ''true''),
            Unique = (t_Unique t = ''true''),
            MaxValue = t_MaxValue t, MinValue = t_MinValue t, MaxLength = t_MaxLength t,
            MinLength = t_MinLength t, Default = t_Default t, DefaultTime = t_DefaultTime t,
            Options = t_Options t, Expression = t_Expression t,
            Separator = (t_Separator t = ''true''),
            Medium = t_Medium t, Format = t_Format t\<rparr>))"

text \<open>
  The four attributes that arrive as strings, by their tags, with the flag that each sets
  and with its field in the staging struct.
\<close>

definition flag_fields ::
  "(string \<times> ('i FieldInfo \<Rightarrow> bool) \<times> ('i staging \<Rightarrow> string)) list"
where
  "flag_fields =
     [(''noLabel'', NoLabel, t_NoLabel), (''required'', Required, t_Required),
      (''unique'', Unique, t_Unique), (''digit'', Separator, t_Separator)]"

text \<open>
  The attributes of a payload, as they are read off the members of its object, for the
  comparison with what \<open>UnmarshalJSON\<close> assigns. \<open>values_named nm kvs\<close> are the values of the
  members whose key is \<open>nm\<close> (up to folding), in the order of the text. A string-typed
  attribute is the string of the last of them that is a string, and the empty string if
  none is; an attribute of type \<^verbatim>\<open>interface{}\<close> is what the library builds for the last of
  them, and nil if there is none; \<^verbatim>\<open>options\<close> is what the library makes of them in turn,
  starting from nil.
\<close>

definition values_named :: "string \<Rightarrow> (string \<times> json) list \<Rightarrow> json list" where
  "values_named nm kvs = map snd (filter (\<lambda>(k, v). equalFold nm k) kvs)"

definition string_attribute :: "string \<Rightarrow> (string \<times> json) list \<Rightarrow> string" where
  "string_attribute nm kvs =
     (let xs = [x. JString x \<leftarrow> values_named nm kvs] in if xs = [] then [] else last xs)"

definition interface_attribute ::
  "('rec, 'i) env \<Rightarrow> string \<Rightarrow> (string \<times> json) list \<Rightarrow> 'i option"
where
  "interface_attribute env nm kvs =
     (let vs = values_named nm kvs in if vs = [] then None else snd (json_interface env (last vs)))"

definition options_attribute ::
  "('rec, 'i) env \<Rightarrow> (string \<times> json) list \<Rightarrow> string list option"
where
  "options_attribute env kvs =
     foldl (\<lambda>old v. snd (json_strings env v old)) None (values_named ''options'' kvs)"

text \<open>The tags of the string-typed fields of the staging struct, and of those of type \<^verbatim>\<open>interface{}\<close>.\<close>

definition string_attributes :: "string list" where
  "string_attributes =
     [''label'', ''code'', ''type'', ''noLabel'', ''required'', ''unique'', ''expression'',
      ''digit'', ''protocol'', ''format'']"

definition interface_attributes :: "string list" where
  "interface_attributes =
     [''maxValue'', ''minValue'', ''maxLength'', ''minLength'', ''defaultValue'',
      ''defaultExpression'']"

definition Fields ::
  "('rec, 'i) env \<Rightarrow> App \<times> world
    \<Rightarrow> (error + (string \<rightharpoonup> 'i FieldInfo)) \<times> App \<times> world"
where
  "Fields env s =
     (case s of (app, w) \<Rightarrow>
       (let data = json_Marshal env (Body_Fields (AppId app))
        in case newRequest env ''GET'' ''form'' (bytes_NewReader data) app of
             (Inl err, app1) \<Rightarrow> (Inl err, app1, w)
           | (Inr req, app1) \<Rightarrow>
               (case do env req (app1, w) of
                  (Inl err, s2) \<Rightarrow> (Inl err, s2)
                | (Inr resp, s2) \<Rightarrow>
                    (case parseResponse env resp of
                       Inl err \<Rightarrow> (Inl err, s2)
                     | Inr body \<Rightarrow>
                         (case Unmarshal_Properties env (FieldInfo_UnmarshalJSON env) body of
                            Inl err \<Rightarrow> (Inl ErrInvalidResponse, s2)
                          | Inr properties \<Rightarrow>
                              (Inr (foldl (\<lambda>ret fi. ret(Code fi \<mapsto> fi)) Map.empty properties),
                               s2))))))"

subsection \<open>What a call may change in the App\<close>

text \<open>
  \<open>side_effects env app app'\<close>: from \<open>app\<close> to \<open>app'\<close> the domain, the credentials, the
  application id and the basic-auth settings are the same; the token is the same, or was
  empty and is the base64 encoding of \<^verbatim>\<open>User:Password\<close>; the client is the same, or was nil
  and is a new client with the cookie jar of \<^verbatim>\<open>cookiejar.New\<close> and no transport; the timeout
  is the same, or was zero and is \<open>DEFAULT_TIMEOUT\<close>.
\<close>

definition side_effects :: "('rec, 'i) env \<Rightarrow> App \<Rightarrow> App \<Rightarrow> bool" where
  "side_effects env app app' =
     (App_Domain app' = App_Domain app \<and> User app' = User app \<and> Password app' = Password app
      \<and> AppId app' = AppId app \<and> basicAuth app' = basicAuth app
      \<and> basicAuthUser app' = basicAuthUser app
      \<and> basicAuthPassword app' = basicAuthPassword app
      \<and> (token app' = token app
           \<or> token app = [] \<and> token app' = EncodeToString (User app @ '':'' @ Password app))
      \<and> (Client app' = Client app
           \<or> Client app = None
             \<and> (\<exists>j. cookiejar_New env = Inr j
                    \<and> Client app' = Some \<lparr>Client_Jar = Some j, Transport = None\<rparr>))
      \<and> (Timeout app' = Timeout app \<or> Timeout app = 0 \<and> Timeout app' = DEFAULT_TIMEOUT))"

subsection \<open>An example service\<close>

text \<open>
  A concrete environment, to run the client on: the service answers the \<open>n\<close>-th request
  with the \<open>n\<close>-th outcome of a script and lets every later request time out. A record is
  a number, and the codec reads one record from each byte of a body, unless the body has
  an exclamation mark. Marshalling a listing request gives its query string. The value
  of an \<^verbatim>\<open>interface{}\<close> field is a number too: the length of a string, and 0 for anything
  else. A field of type \<^verbatim>\<open>[]string\<close> takes the strings of an array.
\<close>

definition example_env :: "outcome list \<Rightarrow> (nat, nat) env" where
  "example_env script =
     \<lparr>URL_String = (\<lambda>u. Scheme u @ ''://'' @ Host u @ Path u),
      http_NewRequest = (\<lambda>m u. if m = [] then Some ''net/http: invalid method'' else None),
      cookiejar_New = Inr (Jar 0),
      Client_Do = (\<lambda>n req. if n < length script then script ! n else TimerFired),
      mime_ParseMediaType = (\<lambda>v. if v = [] then Inl ''mime: no media type'' else Inr v),
      json_Marshal = (\<lambda>b. case b of Body_GetRecords a f q \<Rightarrow> q | _ \<Rightarrow> []),
      DecodeRecord = (\<lambda>d. case d of [] \<Rightarrow> Inl ''no record'' | c # _ \<Rightarrow> Inr (byte c)),
      DecodeRecords = (\<lambda>d. if CHR ''!'' \<in> set d then Inl ''no records'' else Inr (map byte d)),
      json_interface =
        (\<lambda>v. case v of JNull \<Rightarrow> (False, None) | JString x \<Rightarrow> (False, Some (length x))
              | _ \<Rightarrow> (False, Some 0)),
      json_strings =
        (\<lambda>v old. case v of JNull \<Rightarrow> (False, None)
              | JArray xs \<Rightarrow> (False, Some [x. JString x \<leftarrow> xs])
              | _ \<Rightarrow> (True, old)),
      Unmarshal_Properties = (\<lambda>u d. Inr []),
      Unmarshal_Ids = (\<lambda>d. Inr []),
      ioutil_TempFile = None,
      multipart_Write = (\<lambda>h d. Inr (content d, ''multipart/form-data; boundary=b''))\<rparr>"

definition example_app :: App where
  "example_app =
     \<lparr>App_Domain = ''example.cybozu.com'', User = ''user'', Password = ''password'', AppId = 7,
      Client = None, Timeout = 0, token = [], basicAuth = False, basicAuthUser = [],
      basicAuthPassword = []\<rparr>"

definition example_world :: world where
  "example_world = \<lparr>sent = [], cancelled = [], drained = []\<rparr>"

definition example_response :: "string \<Rightarrow> int \<Rightarrow> string \<Rightarrow> reader \<Rightarrow> response" where
  "example_response status code ctype body =
     \<lparr>Status = status, StatusCode = code, Header = [(''Content-Type'', [ctype])], Body = body\<rparr>"

text \<open>A JSON string literal for a text without quotes, backslashes and control characters.\<close>

definition quoted :: "string \<Rightarrow> string" where
  "quoted x = CHR 0x22 # x @ [CHR 0x22]"

text \<open>\<^verbatim>\<open>{"message":"bad field","id":"abc123","code":"GAIA_IL01"}\<close>\<close>

definition example_error_body :: string where
  "example_error_body =
     ''{'' @ quoted ''message'' @ '':'' @ quoted ''bad field'' @ '','' @ quoted ''id'' @ '':''
       @ quoted ''abc123'' @ '','' @ quoted ''code'' @ '':'' @ quoted ''GAIA_IL01'' @ ''}''"

text \<open>\<^verbatim>\<open>{"message":"x","id":1}\<close>\<close>

definition mismatch_body :: string where
  "mismatch_body = ''{'' @ quoted ''message'' @ '':'' @ quoted ''x'' @ '','' @ quoted ''id'' @ '':1}''"

text \<open>
  A body whose bytes are the numbers from \<open>a\<close> up to \<open>b\<close>, from which the codec of the example
  reads the records \<open>a\<close>, ..., \<open>b - 1\<close>.
\<close>

definition example_body :: "nat \<Rightarrow> nat \<Rightarrow> string" where
  "example_body a b = map char_of [a..<b]"

text \<open>A member of an object: its key, a colon and the text of its value.\<close>

definition member :: "string \<Rightarrow> string \<Rightarrow> string" where
  "member k v = quoted k @ '':'' @ v"

text \<open>
  A payload with every attribute of a \<^verbatim>\<open>FieldInfo\<close>, an attribute that it does not have, a
  second \<^verbatim>\<open>required\<close> and a \<^verbatim>\<open>null\<close>:

  \<^verbatim>\<open>{"label":"Name","code":"c1","type":"NUMBER","noLabel":"false","required":"false",\<close>
  \<^verbatim>\<open> "unique":"TRUE","maxValue":"64","minValue":"0","maxLength":"255","minLength":"1234",\<close>
  \<^verbatim>\<open> "defaultValue":"12345","defaultExpression":"ABCDEF","options":["a","b"],\<close>
  \<^verbatim>\<open> "expression":"x+1","digit":"true","protocol":"WEB","format":"NUMBER_DIGIT",\<close>
  \<^verbatim>\<open> "size":"3","required":"true","label":null}\<close>
\<close>

definition example_field_payload :: string where
  "example_field_payload =
     ''{'' @ member ''label'' (quoted ''Name'') @ '','' @ member ''code'' (quoted ''c1'') @ '',''
       @ member ''type'' (quoted ''NUMBER'') @ '','' @ member ''noLabel'' (quoted ''false'') @ '',''
       @ member ''required'' (quoted ''false'') @ '','' @ member ''unique'' (quoted ''TRUE'') @ '',''
       @ member ''maxValue'' (quoted ''64'') @ '','' @ member ''minValue'' (quoted ''0'') @ '',''
       @ member ''maxLength'' (quoted ''255'') @ '','' @ member ''minLength'' (quoted ''1234'') @ '',''
       @ member ''defaultValue'' (quoted ''12345'') @ '',''
       @ member ''defaultExpression'' (quoted ''ABCDEF'') @ '',''
       @ member ''options'' (''['' @ quoted ''a'' @ '','' @ quoted ''b'' @ '']'') @ '',''
       @ member ''expression'' (quoted ''x+1'') @ '','' @ member ''digit'' (quoted ''true'') @ '',''
       @ member ''protocol'' (quoted ''WEB'') @ '','' @ member ''format'' (quoted ''NUMBER_DIGIT'') @ '',''
       @ member ''size'' (quoted ''3'') @ '','' @ member ''required'' (quoted ''true'') @ '',''
       @ member ''label'' ''null'' @ ''}''"

text \<open>The members of that payload.\<close>

definition example_field_members :: "(string \<times> json) list" where
  "example_field_members =
     [(''label'', JString ''Name''), (''code'', JString ''c1''),
      (''type'', JString ''NUMBER''), (''noLabel'', JString ''false''),
      (''required'', JString ''false''), (''unique'', JString ''TRUE''),
      (''maxValue'', JString ''64''), (''minValue'', JString ''0''),
      (''maxLength'', JString ''255''), (''minLength'', JString ''1234''),
      (''defaultValue'', JString ''12345''),
      (''defaultExpression'', JString ''ABCDEF''),
      (''options'', JArray [JString ''a'', JString ''b'']),
      (''expression'', JString ''x+1''), (''digit'', JString ''true''),
      (''protocol'', JString ''WEB''),
      (''format'', JString ''NUMBER_DIGIT''), (''size'', JString ''3''),
      (''required'', JString ''true''), (''label'', JNull)]"

text \<open>\<^verbatim>\<open>{"required":"true","label":5}\<close>\<close>

definition mistyped_field_payload :: string where
  "mistyped_field_payload =
     ''{'' @ member ''required'' (quoted ''true'') @ '','' @ member ''label'' ''5'' @ ''}''"

text \<open>\<^verbatim>\<open>{"required":true}\<close>\<close>

definition boolean_field_payload :: string where
  "boolean_field_payload = ''{'' @ member ''required'' ''true'' @ ''}''"

section \<open>Properties\<close>

subsection \<open>The fuel of the JSON parser\<close>

text \<open>
  Every parser consumes input, so a value, a list of elements or a list of members that is
  parsed from \<open>s\<close> and leaves \<open>r\<close> needs no more fuel than the bytes it consumed. More fuel
  never changes a result. Hence the fuel that \<open>json_parse\<close> passes is enough for every
  input: \<open>json_parse\<close> rejects a text only if the grammar does.
\<close>

lemma skip_ws_length: "length (skip_ws s) \<le> length s"
  by (simp add: skip_ws_def length_dropWhile_le)

lemma skip_ws_Cons: "skip_ws s = c # cs \<Longrightarrow> length cs < length s"
  using skip_ws_length [of s] by simp

lemma tag_Some: "tag f r = Some (y, rest) \<longleftrightarrow> (\<exists>x. r = Some (x, rest) \<and> y = f x)"
  by (auto simp: tag_def split: option.splits)

lemma prepend_Some: "prepend p r = Some (t, rest) \<longleftrightarrow> (\<exists>u. r = Some (u, rest) \<and> t = p @ u)"
  by (auto simp: prepend_def split: option.splits)

lemma scan_string_length: "scan_string s = Some (t, r) \<Longrightarrow> length r < length s"
proof (induction s arbitrary: t r rule: scan_string.induct)
  case 1
  then show ?case by simp
next
  case (2 c cs)
  show ?case
  proof (cases "c = CHR 0x22")
    case True
    then show ?thesis using 2(2) by simp
  next
    case False
    then obtain out k where u: "string_unit c cs = Some (out, k)"
      using 2(2) by (auto split: option.splits)
    then obtain t' where "scan_string (drop k cs) = Some (t', r)"
      using 2(2) False by (auto simp: prepend_Some)
    then have "length r < length (drop k cs)"
      using 2(1) [OF False u refl] by simp
    then show ?thesis by simp
  qed
qed

lemma scan_digits_length: "scan_digits s = Some (t, r) \<Longrightarrow> length r \<le> length s"
  by (auto simp: scan_digits_def length_dropWhile_le split: if_splits)

lemma scan_int_length: "scan_int s = Some (t, r) \<Longrightarrow> length r < length s"
  by (auto simp: scan_int_def length_dropWhile_le less_Suc_eq_le split: list.splits if_splits)

lemma scan_frac_length: "scan_frac s = Some (t, r) \<Longrightarrow> length r \<le> length s"
  by (auto simp: scan_frac_def prepend_Some le_Suc_eq dest: scan_digits_length
        split: list.splits if_splits)

lemma scan_exp_length: "scan_exp s = Some (t, r) \<Longrightarrow> length r \<le> length s"
  by (auto simp: scan_exp_def prepend_Some dest!: scan_digits_length
        split: list.splits if_splits)

lemma scan_number_length: "scan_number s = Some (t, r) \<Longrightarrow> length r < length s"
proof -
  assume a: "scan_number s = Some (t, r)"
  then obtain i s1 f s2 e where
      i: "(case s of [] \<Rightarrow> None
           | m # r \<Rightarrow> if m = CHR ''-'' then prepend [m] (scan_int r) else scan_int s) = Some (i, s1)"
      and f: "scan_frac s1 = Some (f, s2)" and e: "scan_exp s2 = Some (e, r)"
    by (auto simp: scan_number_def prepend_Some split: option.splits)
  have "length s1 < length s"
    using i by (auto simp: prepend_Some split: list.splits if_splits dest: scan_int_length)
  then show ?thesis
    using scan_frac_length [OF f] scan_exp_length [OF e] by simp
qed

lemma value_step_scalar:
  assumes "skip_ws s = c # cs" and "c \<noteq> CHR ''{''" and "c \<noteq> CHR ''[''"
  shows "value_step E M s =
     (if c = CHR 0x22 then tag JString (scan_string cs)
      else if c = CHR ''-'' \<or> is_digit c then tag JNumber (scan_number (c # cs))
      else if take 4 (c # cs) = ''true'' then Some (JBool True, drop 4 (c # cs))
      else if take 5 (c # cs) = ''false'' then Some (JBool False, drop 5 (c # cs))
      else if take 4 (c # cs) = ''null'' then Some (JNull, drop 4 (c # cs))
      else None)"
  unfolding value_step_def using assms by simp

lemma value_step_nested:
  assumes "value_step E M s = Some (v, r)" and "skip_ws s = c # cs"
    and "c = CHR ''{'' \<or> c = CHR ''[''"
  obtains d where "skip_ws cs = d # r" and "d = CHR ''}'' \<or> d = CHR '']''"
      and "\<And>E' M'. value_step E' M' s = Some (v, r)"
  | x where "c = CHR ''{''" and "M cs = Some (x, r)" and "v = JObject x"
      and "\<And>E' M'. M' cs = Some (x, r) \<Longrightarrow> value_step E' M' s = Some (v, r)"
  | x where "c = CHR ''[''" and "E cs = Some (x, r)" and "v = JArray x"
      and "\<And>E' M'. E' cs = Some (x, r) \<Longrightarrow> value_step E' M' s = Some (v, r)"
proof -
  obtain d ds where d: "skip_ws cs = d # ds"
    using assms by (cases "skip_ws cs") (auto simp: value_step_def)
  show ?thesis
  proof (cases "c = CHR ''{''")
    case True
    show ?thesis
    proof (cases "d = CHR ''}''")
      case closing: True
      then have "ds = r" and "\<And>E' M'. value_step E' M' s = Some (v, r)"
        using assms(1,2) True d by (simp_all add: value_step_def)
      then show ?thesis
        using that(1) [of d] d closing by simp
    next
      case False
      then obtain x where x: "M cs = Some (x, r)" "v = JObject x"
        using assms(1,2) True d by (auto simp: value_step_def tag_Some)
      have "\<And>(E' :: string \<Rightarrow> (json list \<times> string) option) M'.
              M' cs = Some (x, r) \<Longrightarrow> value_step E' M' s = Some (v, r)"
        using assms(2) True d False x(2) by (simp add: value_step_def tag_def)
      then show ?thesis
        using that(2) [OF True x] by blast
    qed
  next
    case False
    then have arr: "c = CHR ''[''"
      using assms(3) by simp
    show ?thesis
    proof (cases "d = CHR '']''")
      case closing: True
      then have "ds = r" and "\<And>E' M'. value_step E' M' s = Some (v, r)"
        using assms(1,2) arr d by (simp_all add: value_step_def)
      then show ?thesis
        using that(1) [of d] d closing by simp
    next
      case no: False
      then obtain x where x: "E cs = Some (x, r)" "v = JArray x"
        using assms(1,2) arr d by (auto simp: value_step_def tag_Some)
      have "\<And>E' (M' :: string \<Rightarrow> ((string \<times> json) list \<times> string) option).
              E' cs = Some (x, r) \<Longrightarrow> value_step E' M' s = Some (v, r)"
        using assms(2) arr d no x(2) by (simp add: value_step_def tag_def)
      then show ?thesis
        using that(3) [OF arr x] by blast
    qed
  qed
qed

lemma value_step_length:
  assumes "value_step E M s = Some (v, r)"
    and "\<And>t x r'. E t = Some (x, r') \<Longrightarrow> length r' < length t"
    and "\<And>t x r'. M t = Some (x, r') \<Longrightarrow> length r' < length t"
  shows "length r < length s"
proof -
  obtain c cs where s: "skip_ws s = c # cs"
    using assms(1) by (cases "skip_ws s") (simp_all add: value_step_def)
  have cs: "length cs < length s"
    using skip_ws_Cons [OF s] .
  have "length r \<le> length cs"
  proof (cases "c = CHR ''{'' \<or> c = CHR ''[''")
    case True
    from assms(1) s True show ?thesis
    proof (cases rule: value_step_nested)
      case (1 d)
      then show ?thesis using skip_ws_Cons [of cs d r] by simp
    next
      case (2 x)
      then show ?thesis using assms(3) [of cs x r] by simp
    next
      case (3 x)
      then show ?thesis using assms(2) [of cs x r] by simp
    qed
  next
    case False
    then have "(if c = CHR 0x22 then tag JString (scan_string cs)
      else if c = CHR ''-'' \<or> is_digit c then tag JNumber (scan_number (c # cs))
      else if take 4 (c # cs) = ''true'' then Some (JBool True, drop 4 (c # cs))
      else if take 5 (c # cs) = ''false'' then Some (JBool False, drop 5 (c # cs))
      else if take 4 (c # cs) = ''null'' then Some (JNull, drop 4 (c # cs))
      else None) = Some (v, r)"
      using value_step_scalar [OF s, of E M] assms(1) by simp
    then consider t where "scan_string cs = Some (t, r)"
      | t where "scan_number (c # cs) = Some (t, r)"
      | "r = drop 4 (c # cs)" | "r = drop 5 (c # cs)"
      by (auto simp: tag_Some split: if_splits)
    then show ?thesis
    proof cases
      case 1
      then show ?thesis using scan_string_length [of cs t r] by simp
    next
      case 2
      then show ?thesis using scan_number_length [of "c # cs" t r] by simp
    next
      case 3
      then show ?thesis by simp
    next
      case 4
      then show ?thesis by simp
    qed
  qed
  then show ?thesis
    using cs by simp
qed

lemma value_step_agree:
  assumes "value_step E M s = Some (v, r)"
    and "\<And>t x. length t < length s \<Longrightarrow> E t = Some (x, r) \<Longrightarrow> E' t = Some (x, r)"
    and "\<And>t x. length t < length s \<Longrightarrow> M t = Some (x, r) \<Longrightarrow> M' t = Some (x, r)"
  shows "value_step E' M' s = Some (v, r)"
proof -
  obtain c cs where s: "skip_ws s = c # cs"
    using assms(1) by (cases "skip_ws s") (simp_all add: value_step_def)
  have cs: "length cs < length s"
    using skip_ws_Cons [OF s] .
  show ?thesis
  proof (cases "c = CHR ''{'' \<or> c = CHR ''[''")
    case True
    from assms(1) s True show ?thesis
    proof (cases rule: value_step_nested)
      case (1 d)
      then show ?thesis by simp
    next
      case (2 x)
      then show ?thesis using assms(3) [OF cs, of x] by simp
    next
      case (3 x)
      then show ?thesis using assms(2) [OF cs, of x] by simp
    qed
  next
    case False
    then show ?thesis
      using value_step_scalar [OF s, of E M] value_step_scalar [OF s, of E' M'] assms(1)
      by simp
  qed
qed

lemma elements_step_length:
  assumes "elements_step V E s = Some (vs, r)"
    and "\<And>x r0. V s = Some (x, r0) \<Longrightarrow> length r0 < length s"
    and "\<And>t x r'. E t = Some (x, r') \<Longrightarrow> length r' < length t"
  shows "length r < length s"
proof -
  obtain v r0 where v: "V s = Some (v, r0)"
    using assms(1) by (auto simp: elements_step_def split: option.splits)
  obtain d ds where d: "skip_ws r0 = d # ds"
    using assms(1) v by (cases "skip_ws r0") (simp_all add: elements_step_def)
  have "length r \<le> length ds"
    using assms(1) v d assms(3) [of ds]
    by (auto simp: elements_step_def tag_Some split: if_splits dest!: less_imp_le)
  then show ?thesis
    using skip_ws_Cons [OF d] assms(2) [OF v] by simp
qed


lemma elements_step_agree:
  assumes "elements_step V E s = Some (vs, r)"
    and "\<And>t x r'. E t = Some (x, r') \<Longrightarrow> length r' < length t"
    and "\<And>x r0. V s = Some (x, r0) \<Longrightarrow> length r < length r0
            \<Longrightarrow> length r0 < length s \<and> V' s = Some (x, r0)"
    and "\<And>t x. length t < length s \<Longrightarrow> E t = Some (x, r) \<Longrightarrow> E' t = Some (x, r)"
  shows "elements_step V' E' s = Some (vs, r)"
proof -
  obtain v r0 where v: "V s = Some (v, r0)"
    using assms(1) by (auto simp: elements_step_def split: option.splits)
  obtain d ds where d: "skip_ws r0 = d # ds"
    using assms(1) v by (cases "skip_ws r0") (simp_all add: elements_step_def)
  have "length r \<le> length ds"
    using assms(1) v d assms(2) [of ds]
    by (auto simp: elements_step_def tag_Some split: if_splits dest!: less_imp_le)
  then have lr: "length r < length r0"
    using skip_ws_Cons [OF d] by simp
  have v': "length r0 < length s" "V' s = Some (v, r0)"
    using assms(3) [OF v lr] by simp_all
  have "length ds < length s"
    using skip_ws_Cons [OF d] v'(1) by simp
  then show ?thesis
    using assms(1) v d v'(2) assms(4) [of ds]
    by (auto simp: elements_step_def tag_Some split: if_splits)
qed

lemma members_step_parts:
  assumes "members_step V M s = Some (kvs, r)"
  shows "\<exists>cs k r0 r1 v r2 d ds.
    skip_ws s = CHR 0x22 # cs \<and> scan_string cs = Some (k, r0)
    \<and> skip_ws r0 = CHR '':'' # r1 \<and> V r1 = Some (v, r2) \<and> skip_ws r2 = d # ds
    \<and> ((d = CHR '','' \<and> (\<exists>rest. M ds = Some (rest, r) \<and> kvs = (k, v) # rest))
       \<or> (d = CHR ''}'' \<and> kvs = [(k, v)] \<and> r = ds))"
  using assms
  by (auto simp: members_step_def tag_Some split: list.splits if_splits option.splits)

lemma members_step_length:
  assumes "members_step V M s = Some (kvs, r)"
    and "\<And>t x r0. V t = Some (x, r0) \<Longrightarrow> length r0 < length t"
    and "\<And>t x r'. M t = Some (x, r') \<Longrightarrow> length r' < length t"
  shows "length r < length s"
proof -
  obtain cs k r0 r1 v r2 d ds where p:
    "skip_ws s = CHR 0x22 # cs" "scan_string cs = Some (k, r0)"
    "skip_ws r0 = CHR '':'' # r1" "V r1 = Some (v, r2)" "skip_ws r2 = d # ds"
    "(d = CHR '','' \<and> (\<exists>rest. M ds = Some (rest, r) \<and> kvs = (k, v) # rest))
       \<or> (d = CHR ''}'' \<and> kvs = [(k, v)] \<and> r = ds)"
    using members_step_parts [OF assms(1)] by (elim exE conjE)
  have "length r \<le> length ds"
    using p(6) assms(3) [of ds _ r] by (auto dest!: less_imp_le)
  then show ?thesis
    using skip_ws_Cons [OF p(1)] scan_string_length [OF p(2)] skip_ws_Cons [OF p(3)]
      assms(2) [OF p(4)] skip_ws_Cons [OF p(5)]
    by simp
qed

lemma members_step_agree:
  assumes "members_step V M s = Some (kvs, r)"
    and "\<And>t x r'. M t = Some (x, r') \<Longrightarrow> length r' < length t"
    and "\<And>t x r0. length t < length s \<Longrightarrow> V t = Some (x, r0) \<Longrightarrow> length r < length r0
            \<Longrightarrow> length r0 < length t \<and> V' t = Some (x, r0)"
    and "\<And>t x. length t < length s \<Longrightarrow> M t = Some (x, r) \<Longrightarrow> M' t = Some (x, r)"
  shows "members_step V' M' s = Some (kvs, r)"
proof -
  obtain cs k r0 r1 v r2 d ds where p:
    "skip_ws s = CHR 0x22 # cs" "scan_string cs = Some (k, r0)"
    "skip_ws r0 = CHR '':'' # r1" "V r1 = Some (v, r2)" "skip_ws r2 = d # ds"
    "(d = CHR '','' \<and> (\<exists>rest. M ds = Some (rest, r) \<and> kvs = (k, v) # rest))
       \<or> (d = CHR ''}'' \<and> kvs = [(k, v)] \<and> r = ds)"
    using members_step_parts [OF assms(1)] by (elim exE conjE)
  have "length r \<le> length ds"
    using p(6) assms(2) [of ds _ r] by (auto dest!: less_imp_le)
  then have lr: "length r < length r2"
    using skip_ws_Cons [OF p(5)] by simp
  have r1: "length r1 < length s"
    using skip_ws_Cons [OF p(1)] scan_string_length [OF p(2)] skip_ws_Cons [OF p(3)] by simp
  have v': "length r2 < length r1" "V' r1 = Some (v, r2)"
    using assms(3) [OF r1 p(4) lr] by simp_all
  have ds: "length ds < length s"
    using skip_ws_Cons [OF p(5)] v'(1) r1 by simp
  from p(6) show ?thesis
  proof
    assume a: "d = CHR '','' \<and> (\<exists>rest. M ds = Some (rest, r) \<and> kvs = (k, v) # rest)"
    then obtain rest where rest: "M ds = Some (rest, r)" "kvs = (k, v) # rest"
      by blast
    have "M' ds = Some (rest, r)"
      using assms(4) [OF ds rest(1)] .
    then show ?thesis
      using p(1,2,3,5) v'(2) a rest(2) by (simp add: members_step_def tag_def)
  next
    assume "d = CHR ''}'' \<and> kvs = [(k, v)] \<and> r = ds"
    then show ?thesis
      using p(1,2,3,5) v'(2) by (simp add: members_step_def)
  qed
qed

lemma parse_length:
  "(\<forall>s v r. parse_value n s = Some (v, r) \<longrightarrow> length r < length s)
   \<and> (\<forall>s v r. parse_elements n s = Some (v, r) \<longrightarrow> length r < length s)
   \<and> (\<forall>s v r. parse_members n s = Some (v, r) \<longrightarrow> length r < length s)"
proof (induction n)
  case 0
  then show ?case by simp
next
  case (Suc n)
  have "length r < length s" if "parse_value (Suc n) s = Some (v, r)" for s v r
    using that Suc value_step_length [of "parse_elements n" "parse_members n" s v r]
    by auto
  moreover have "length r < length s" if "parse_elements (Suc n) s = Some (v, r)" for s v r
    using that Suc elements_step_length [of "parse_value n" "parse_elements n" s v r]
    by auto
  moreover have "length r < length s" if "parse_members (Suc n) s = Some (v, r)" for s v r
    using that Suc members_step_length [of "parse_value n" "parse_members n" s v r]
    by auto
  ultimately show ?case
    by blast
qed

lemma parse_mono_Suc:
  "(\<forall>s v r. parse_value n s = Some (v, r) \<longrightarrow> parse_value (Suc n) s = Some (v, r))
   \<and> (\<forall>s v r. parse_elements n s = Some (v, r) \<longrightarrow> parse_elements (Suc n) s = Some (v, r))
   \<and> (\<forall>s v r. parse_members n s = Some (v, r) \<longrightarrow> parse_members (Suc n) s = Some (v, r))"
proof (induction n)
  case 0
  then show ?case by simp
next
  case (Suc n)
  have "parse_value (Suc (Suc n)) s = Some (v, r)"
    if "parse_value (Suc n) s = Some (v, r)" for s v r
    using that Suc
      value_step_agree [of "parse_elements n" "parse_members n" s v r
        "parse_elements (Suc n)" "parse_members (Suc n)"]
    by auto
  moreover have "parse_elements (Suc (Suc n)) s = Some (v, r)"
    if "parse_elements (Suc n) s = Some (v, r)" for s v r
  proof -
    have "elements_step (parse_value (Suc n)) (parse_elements (Suc n)) s = Some (v, r)"
    proof (rule elements_step_agree [of "parse_value n" "parse_elements n"])
      show "elements_step (parse_value n) (parse_elements n) s = Some (v, r)"
        using that by simp
    qed (use Suc parse_length [of n] in blast)+
    then show ?thesis by simp
  qed
  moreover have "parse_members (Suc (Suc n)) s = Some (v, r)"
    if "parse_members (Suc n) s = Some (v, r)" for s v r
  proof -
    have "members_step (parse_value (Suc n)) (parse_members (Suc n)) s = Some (v, r)"
    proof (rule members_step_agree [of "parse_value n" "parse_members n"])
      show "members_step (parse_value n) (parse_members n) s = Some (v, r)"
        using that by simp
    qed (use Suc parse_length [of n] in blast)+
    then show ?thesis by simp
  qed
  ultimately show ?case
    by blast
qed

lemma parse_mono:
  assumes "n \<le> m"
  shows "(\<forall>s v r. parse_value n s = Some (v, r) \<longrightarrow> parse_value m s = Some (v, r))
   \<and> (\<forall>s v r. parse_elements n s = Some (v, r) \<longrightarrow> parse_elements m s = Some (v, r))
   \<and> (\<forall>s v r. parse_members n s = Some (v, r) \<longrightarrow> parse_members m s = Some (v, r))"
  using assms
proof (induction m)
  case 0
  then show ?case by simp
next
  case (Suc m)
  show ?case
  proof (cases "n = Suc m")
    case True
    then show ?thesis by simp
  next
    case False
    then have "n \<le> m" using Suc.prems by simp
    then show ?thesis
      using Suc.IH parse_mono_Suc [of m] by blast
  qed
qed

lemma parse_need:
  "(\<forall>s v r. parse_value n s = Some (v, r)
       \<longrightarrow> parse_value (length s - length r) s = Some (v, r))
   \<and> (\<forall>s v r. parse_elements n s = Some (v, r)
       \<longrightarrow> parse_elements (length s - length r) s = Some (v, r))
   \<and> (\<forall>s v r. parse_members n s = Some (v, r)
       \<longrightarrow> parse_members (length s - length r) s = Some (v, r))"
proof (induction n)
  case 0
  then show ?case by simp
next
  case (Suc n)
  have val: "parse_value k t = Some (x, r0)"
    if "parse_value n t = Some (x, r0)" and "length t - length r0 \<le> k" for t x r0 k
    using that Suc parse_mono [of "length t - length r0" k] by blast
  have elems: "parse_elements k t = Some (x, r0)"
    if "parse_elements n t = Some (x, r0)" and "length t - length r0 \<le> k" for t x r0 k
    using that Suc parse_mono [of "length t - length r0" k] by blast
  have membs: "parse_members k t = Some (x, r0)"
    if "parse_members n t = Some (x, r0)" and "length t - length r0 \<le> k" for t x r0 k
    using that Suc parse_mono [of "length t - length r0" k] by blast
  have len: "length r0 < length t" if "parse_value n t = Some (x, r0)" for t x r0
    using that parse_length [of n] by blast
  have "parse_value (length s - length r) s = Some (v, r)"
    if a: "parse_value (Suc n) s = Some (v, r)" for s v r
  proof -
    have "length r < length s"
      using a parse_length [of "Suc n"] by blast
    then obtain k where k: "length s - length r = Suc k"
      by (cases "length s - length r") simp_all
    have "value_step (parse_elements k) (parse_members k) s = Some (v, r)"
    proof (rule value_step_agree [of "parse_elements n" "parse_members n"])
      show "value_step (parse_elements n) (parse_members n) s = Some (v, r)"
        using a by simp
      show "parse_elements k t = Some (x, r)"
        if "length t < length s" and "parse_elements n t = Some (x, r)" for t x
        by (rule elems) (use that k in simp_all)
      show "parse_members k t = Some (x, r)"
        if "length t < length s" and "parse_members n t = Some (x, r)" for t x
        by (rule membs) (use that k in simp_all)
    qed
    then show ?thesis
      using k by simp
  qed
  moreover have "parse_elements (length s - length r) s = Some (v, r)"
    if a: "parse_elements (Suc n) s = Some (v, r)" for s v r
  proof -
    have "length r < length s"
      using a parse_length [of "Suc n"] by blast
    then obtain k where k: "length s - length r = Suc k"
      by (cases "length s - length r") simp_all
    have "elements_step (parse_value k) (parse_elements k) s = Some (v, r)"
    proof (rule elements_step_agree [of "parse_value n" "parse_elements n"])
      show "elements_step (parse_value n) (parse_elements n) s = Some (v, r)"
        using a by simp
      show "length r' < length t" if "parse_elements n t = Some (x, r')" for t x r'
        using that parse_length [of n] by blast
      show "length r0 < length s \<and> parse_value k s = Some (x, r0)"
        if "parse_value n s = Some (x, r0)" and "length r < length r0" for x r0
      proof
        show "length r0 < length s"
          using that(1) by (rule len)
        show "parse_value k s = Some (x, r0)"
          by (rule val) (use that k in simp_all)
      qed
      show "parse_elements k t = Some (x, r)"
        if "length t < length s" and "parse_elements n t = Some (x, r)" for t x
        by (rule elems) (use that k in simp_all)
    qed
    then show ?thesis
      using k by simp
  qed
  moreover have "parse_members (length s - length r) s = Some (v, r)"
    if a: "parse_members (Suc n) s = Some (v, r)" for s v r
  proof -
    have "length r < length s"
      using a parse_length [of "Suc n"] by blast
    then obtain k where k: "length s - length r = Suc k"
      by (cases "length s - length r") simp_all
    have "members_step (parse_value k) (parse_members k) s = Some (v, r)"
    proof (rule members_step_agree [of "parse_value n" "parse_members n"])
      show "members_step (parse_value n) (parse_members n) s = Some (v, r)"
        using a by simp
      show "length r' < length t" if "parse_members n t = Some (x, r')" for t x r'
        using that parse_length [of n] by blast
      show "length r0 < length t \<and> parse_value k t = Some (x, r0)"
        if "length t < length s" and "parse_value n t = Some (x, r0)"
          and "length r < length r0" for t x r0
      proof
        show "length r0 < length t"
          using that(2) by (rule len)
        show "parse_value k t = Some (x, r0)"
          by (rule val) (use that k in simp_all)
      qed
      show "parse_members k t = Some (x, r)"
        if "length t < length s" and "parse_members n t = Some (x, r)" for t x
        by (rule membs) (use that k in simp_all)
    qed
    then show ?thesis
      using k by simp
  qed
  ultimately show ?case
    by blast
qed

lemma parse_value_fuel:
  assumes "parse_value n s = Some (v, r)"
  shows "parse_value (2 * length s + 2) s = Some (v, r)"
proof -
  have "parse_value (length s - length r) s = Some (v, r)"
    using assms parse_need [of n] by blast
  then show ?thesis
    using parse_mono [of "length s - length r" "2 * length s + 2"] by simp
qed

lemma json_parse_fuel:
  "json_parse s = Some v \<longleftrightarrow> (\<exists>n r. parse_value n s = Some (v, r) \<and> skip_ws r = [])"
proof
  assume "json_parse s = Some v"
  show "\<exists>n r. parse_value n s = Some (v, r) \<and> skip_ws r = []"
  proof (cases "parse_value (2 * length s + 2) s")
    case None
    then show ?thesis
      using \<open>json_parse s = Some v\<close> by (simp add: json_parse_def del: parse_value.simps)
  next
    case (Some a)
    then have "parse_value (2 * length s + 2) s = Some (v, snd a) \<and> skip_ws (snd a) = []"
      using \<open>json_parse s = Some v\<close>
      by (cases a) (simp add: json_parse_def del: parse_value.simps split: if_splits)
    then show ?thesis
      by blast
  qed
next
  assume "\<exists>n r. parse_value n s = Some (v, r) \<and> skip_ws r = []"
  then obtain n r where "parse_value n s = Some (v, r)" and "skip_ws r = []"
    by blast
  then show "json_parse s = Some v"
    using parse_value_fuel [of n s v r] by (simp add: json_parse_def del: parse_value.simps)
qed

subsection \<open>Headers and the token\<close>

lemma EncodeToString_empty: "EncodeToString xs = [] \<longleftrightarrow> xs = []"
  by (cases xs rule: EncodeToString.cases) (simp_all add: Let_def)


lemma newRequest_app:
  "snd (newRequest env method api body app) =
     app\<lparr>token := (if token app = [] then EncodeToString (User app @ '':'' @ Password app)
                     else token app)\<rparr>"
  by (simp add: newRequest_def Let_def split: option.splits)

lemma newRequest_request:
  assumes "newRequest env method api body app = (Inr req, app')"
  shows "req = \<lparr>Method = method,
               URL = URL_String env \<lparr>Scheme = ''https'', Host = App_Domain app,
                                      Path = ''/k/v1/'' @ api @ ''.json''\<rparr>,
               req_Header =
                 Header_Set
                   (Header_Set
                      (if basicAuth app
                       then Header_Set [] ''Authorization''
                              (''Basic '' @ EncodeToString
                                 (basicAuthUser app @ '':'' @ basicAuthPassword app))
                       else [])
                      ''X-Cybozu-Authorization'' (token app'))
                   ''Content-Type'' ''application/json'',
               req_Body = body\<rparr>"
  using assms
  by (auto simp: newRequest_def Let_def Request_SetBasicAuth_def split: option.splits if_splits)



subsection \<open>The batch guard\<close>

lemma newRequest_error:
  "newRequest env m a b app = (Inl e, app1) \<Longrightarrow> e \<noteq> ErrTooMany"
  by (auto simp: newRequest_def Let_def split: option.splits)

lemma do_error: "do env req s = (Inl e, s') \<Longrightarrow> e \<noteq> ErrTooMany"
  by (auto simp: do_def Let_def split: prod.splits option.splits sum.splits outcome.splits if_splits)

lemma parseResponse_error: "parseResponse env resp = Inl e \<Longrightarrow> e \<noteq> ErrTooMany"
  by (auto simp: parseResponse_def ioutil_ReadAll_def Let_def split: option.splits if_splits)

lemma do_sent:
  assumes "Client app \<noteq> None \<or> (\<exists>j. cookiejar_New env = Inr j)"
  shows "sent (snd (snd (do env req (app, w)))) = sent w @ [req]"
  using assms
  by (auto simp: do_def Let_def split: prod.splits option.splits sum.splits outcome.splits)

lemma AddRecords_passes:
  assumes "length recs \<le> 100"
  shows "fst (AddRecords env recs (app, w)) \<noteq> Inl ErrTooMany"
  using assms
  by (auto simp: AddRecords_def Let_def split: prod.splits sum.splits
           dest: newRequest_error do_error parseResponse_error)

lemma AddRecords_state:
  assumes "length recs \<le> 100"
  shows "snd (AddRecords env recs (app, w)) =
     (case newRequest env ''POST'' ''records''
             (bytes_NewReader (json_Marshal env (Body_AddRecords (AppId app) recs))) app of
        (Inl err, app1) \<Rightarrow> (app1, w)
      | (Inr req, app1) \<Rightarrow> snd (do env req (app1, w)))"
  using assms
  by (simp add: AddRecords_def Let_def split: prod.splits sum.splits)


lemma foldl_snoc_pairs: "foldl (\<lambda>acc (rid, r). acc @ [(rid, r)]) acc recs = acc @ recs"
  by (induction recs arbitrary: acc) auto

lemma UpdateRecords_passes:
  assumes "length recs \<le> 100"
  shows "fst (UpdateRecords env recs (app, w)) \<noteq> Some ErrTooMany"
  using assms
  by (auto simp: UpdateRecords_def Let_def split: prod.splits sum.splits
           dest: newRequest_error do_error parseResponse_error)

lemma UpdateRecords_state:
  assumes "length recs \<le> 100"
  shows "snd (UpdateRecords env recs (app, w)) =
     (case newRequest env ''PUT'' ''records''
             (bytes_NewReader (json_Marshal env (Body_UpdateRecords (AppId app) recs))) app of
        (Inl err, app1) \<Rightarrow> (app1, w)
      | (Inr req, app1) \<Rightarrow> snd (do env req (app1, w)))"
  using assms
  by (simp add: UpdateRecords_def Let_def foldl_snoc_pairs split: prod.splits sum.splits)

lemma DeleteRecords_passes:
  assumes "length ids \<le> 100"
  shows "fst (DeleteRecords env ids (app, w)) \<noteq> Some ErrTooMany"
  using assms
  by (auto simp: DeleteRecords_def Let_def split: prod.splits sum.splits
           dest: newRequest_error do_error parseResponse_error)

lemma DeleteRecords_state:
  assumes "length ids \<le> 100"
  shows "snd (DeleteRecords env ids (app, w)) =
     (case newRequest env ''DELETE'' ''records''
             (bytes_NewReader (json_Marshal env (Body_DeleteRecords (AppId app) ids))) app of
        (Inl err, app1) \<Rightarrow> (app1, w)
      | (Inr req, app1) \<Rightarrow> snd (do env req (app1, w)))"
  using assms
  by (simp add: DeleteRecords_def Let_def split: prod.splits sum.splits)

text \<open>
  C2. \<open>AddRecords\<close>, \<open>UpdateRecords\<close> and \<open>DeleteRecords\<close> with more than 100 entries return
  \<open>ErrTooMany\<close> and leave the App and the world as they were: no token is computed, no
  request is built and none is sent. With 100 entries or fewer the result is not
  \<open>ErrTooMany\<close>, and the state afterwards is that of building the request with
  \<open>newRequest\<close> and, if that succeeds, of running it with \<open>do\<close>.
\<close>

theorem batch_guard:
  "(100 < length recs \<longrightarrow> AddRecords env recs (app, w) = (Inl ErrTooMany, app, w))
   \<and> (100 < length urecs \<longrightarrow> UpdateRecords env urecs (app, w) = (Some ErrTooMany, app, w))
   \<and> (100 < length ids \<longrightarrow> DeleteRecords env ids (app, w) = (Some ErrTooMany, app, w))
   \<and> (length recs \<le> 100 \<longrightarrow>
        fst (AddRecords env recs (app, w)) \<noteq> Inl ErrTooMany
        \<and> snd (AddRecords env recs (app, w)) =
            (case newRequest env ''POST'' ''records''
                    (bytes_NewReader (json_Marshal env (Body_AddRecords (AppId app) recs))) app of
               (Inl err, app1) \<Rightarrow> (app1, w)
             | (Inr req, app1) \<Rightarrow> snd (do env req (app1, w))))
   \<and> (length urecs \<le> 100 \<longrightarrow>
        fst (UpdateRecords env urecs (app, w)) \<noteq> Some ErrTooMany
        \<and> snd (UpdateRecords env urecs (app, w)) =
            (case newRequest env ''PUT'' ''records''
                    (bytes_NewReader (json_Marshal env (Body_UpdateRecords (AppId app) urecs))) app of
               (Inl err, app1) \<Rightarrow> (app1, w)
             | (Inr req, app1) \<Rightarrow> snd (do env req (app1, w))))
   \<and> (length ids \<le> 100 \<longrightarrow>
        fst (DeleteRecords env ids (app, w)) \<noteq> Some ErrTooMany
        \<and> snd (DeleteRecords env ids (app, w)) =
            (case newRequest env ''DELETE'' ''records''
                    (bytes_NewReader (json_Marshal env (Body_DeleteRecords (AppId app) ids))) app of
               (Inl err, app1) \<Rightarrow> (app1, w)
             | (Inr req, app1) \<Rightarrow> snd (do env req (app1, w))))"
proof -
  have a: "100 < length recs \<longrightarrow> AddRecords env recs (app, w) = (Inl ErrTooMany, app, w)"
    by (simp add: AddRecords_def)
  have u: "100 < length urecs \<longrightarrow> UpdateRecords env urecs (app, w) = (Some ErrTooMany, app, w)"
    by (simp add: UpdateRecords_def)
  have d: "100 < length ids \<longrightarrow> DeleteRecords env ids (app, w) = (Some ErrTooMany, app, w)"
    by (simp add: DeleteRecords_def)
  show ?thesis
    using a u d
    by (simp add: AddRecords_passes AddRecords_state UpdateRecords_passes UpdateRecords_state
          DeleteRecords_passes DeleteRecords_state)
qed

theorem batch_guard_witness:
  "AddRecords (example_env []) (replicate 101 5) (example_app, example_world)
     = (Inl ErrTooMany, example_app, example_world)
   \<and> UpdateRecords (example_env []) (map (\<lambda>i. (of_nat i, i)) [0..<101]) (example_app, example_world)
     = (Some ErrTooMany, example_app, example_world)
   \<and> DeleteRecords (example_env []) (map of_nat [0..<101]) (example_app, example_world)
     = (Some ErrTooMany, example_app, example_world)
   \<and> fst (AddRecords (example_env []) (replicate 100 5) (example_app, example_world))
       \<noteq> Inl ErrTooMany
   \<and> map Method (sent (snd (snd
         (AddRecords (example_env []) (replicate 100 5) (example_app, example_world))))) = [''POST'']
   \<and> fst (UpdateRecords (example_env []) (map (\<lambda>i. (of_nat i, i)) [0..<100])
              (example_app, example_world)) \<noteq> Some ErrTooMany
   \<and> fst (DeleteRecords (example_env []) (map of_nat [0..<100]) (example_app, example_world))
       \<noteq> Some ErrTooMany"
proof -
  note big = batch_guard [of "replicate 101 5" "example_env []" example_app example_world
      "map (\<lambda>i. (of_nat i, i)) [0..<101]" "map of_nat [0..<101]"]
  note small = batch_guard [of "replicate 100 5" "example_env []" example_app example_world
      "map (\<lambda>i. (of_nat i, i)) [0..<100]" "map of_nat [0..<100]"]
  have s: "map Method (sent (snd (snd
         (AddRecords (example_env []) (replicate 100 5) (example_app, example_world))))) = [''POST'']"
    using small
    by (simp add: newRequest_def do_def example_env_def example_app_def example_world_def Let_def)
  show ?thesis
    using big small s by simp
qed

subsection \<open>The response classifier\<close>

lemma parseResponse_read_error:
  "failure (Body resp) = Some err \<Longrightarrow> parseResponse env resp = Inl (Other err)"
  by (simp add: parseResponse_def ioutil_ReadAll_def)

lemma parseResponse_non_200:
  assumes "StatusCode resp \<noteq> 200" and "failure (Body resp) = None"
  shows "parseResponse env resp =
     Inl (AppErr
       ((if isJSON env (Header_Get (Header resp) ''Content-Type'')
         then snd (json_Unmarshal AppError_field (content (Body resp)) AppError_zero)
         else AppError_zero)
        \<lparr>HttpStatus := Status resp, HttpStatusCode := StatusCode resp\<rparr>))"
  using assms by (simp add: parseResponse_def ioutil_ReadAll_def Let_def)

text \<open>
  C4, as stated, fails for a response whose body cannot be read to the end: a 404 with
  content type \<^verbatim>\<open>text/html\<close> whose body breaks off is answered with the read error, not
  with an \<open>AppError\<close>.
\<close>

theorem parseResponse_read_failure:
  "StatusCode (example_response ''404 Not Found'' 404 ''text/html''
       \<lparr>content = ''<html>'', failure = Some ''unexpected EOF''\<rparr>) \<noteq> 200
   \<and> \<not> isJSON (example_env [])
         (Header_Get (Header (example_response ''404 Not Found'' 404 ''text/html''
            \<lparr>content = ''<html>'', failure = Some ''unexpected EOF''\<rparr>)) ''Content-Type'')
   \<and> parseResponse (example_env [])
         (example_response ''404 Not Found'' 404 ''text/html''
            \<lparr>content = ''<html>'', failure = Some ''unexpected EOF''\<rparr>)
       = Inl (Other ''unexpected EOF'')"
  by (simp add: example_response_def example_env_def isJSON_def Header_Get_def
        parseResponse_def ioutil_ReadAll_def)

text \<open>
  C4, amended. For a response with a status other than 200 whose content type is not
  JSON: if its body is read to the end without error, \<open>parseResponse\<close> returns the
  \<open>AppError\<close> with \<^verbatim>\<open>HttpStatus\<close> and \<^verbatim>\<open>HttpStatusCode\<close> of the response and empty \<^verbatim>\<open>Message\<close>,
  \<^verbatim>\<open>Id\<close> and \<^verbatim>\<open>Code\<close>; if reading the body fails, it returns the read error.
\<close>

theorem parseResponse_not_JSON:
  assumes "StatusCode resp \<noteq> 200"
    and "\<not> isJSON env (Header_Get (Header resp) ''Content-Type'')"
  shows "(failure (Body resp) = None \<longrightarrow>
            parseResponse env resp =
              Inl (AppErr \<lparr>HttpStatus = Status resp, HttpStatusCode = StatusCode resp,
                           Message = [], AppError_Id = [], AppError_Code = []\<rparr>))
       \<and> (\<forall>err. failure (Body resp) = Some err \<longrightarrow> parseResponse env resp = Inl (Other err))"
  using assms
  by (simp add: parseResponse_non_200 parseResponse_read_error AppError_zero_def)

theorem parseResponse_not_JSON_witness:
  "parseResponse (example_env [])
     (example_response ''404 Not Found'' 404 ''text/html'' (bytes_NewReader ''<html></html>''))
   = Inl (AppErr \<lparr>HttpStatus = ''404 Not Found'', HttpStatusCode = 404,
                   Message = [], AppError_Id = [], AppError_Code = []\<rparr>)"
proof -
  have h1: "StatusCode (example_response ''404 Not Found'' 404 ''text/html''
              (bytes_NewReader ''<html></html>'')) \<noteq> 200"
    by (simp add: example_response_def)
  have h2: "\<not> isJSON (example_env [])
      (Header_Get (Header (example_response ''404 Not Found'' 404 ''text/html''
         (bytes_NewReader ''<html></html>''))) ''Content-Type'')"
    by (simp add: example_response_def example_env_def isJSON_def Header_Get_def)
  show ?thesis
    using parseResponse_not_JSON [OF h1 h2]
    by (simp add: example_response_def bytes_NewReader_def)
qed

lemma Unmarshal_example_error_body:
  "json_Unmarshal AppError_field example_error_body AppError_zero =
     (None, \<lparr>HttpStatus = [], HttpStatusCode = 0, Message = ''bad field'',
             AppError_Id = ''abc123'', AppError_Code = ''GAIA_IL01''\<rparr>)"
  by code_simp

lemma Unmarshal_mismatch_body:
  "json_Unmarshal AppError_field mismatch_body AppError_zero =
     (Some ''json: cannot unmarshal value into field'',
      \<lparr>HttpStatus = [], HttpStatusCode = 0, Message = ''x'',
       AppError_Id = [], AppError_Code = []\<rparr>)"
  by code_simp

text \<open>
  C5, as stated, fails in its last part: for the body \<^verbatim>\<open>{"message":"x","id":1}\<close> the
  decoding fails, since a number cannot be stored into the string field \<^verbatim>\<open>Id\<close>, but the
  member before it was stored, so \<^verbatim>\<open>Message\<close> is not at its default.
\<close>

theorem parseResponse_partial_decode:
  "StatusCode (example_response ''400 Bad Request'' 400 ''application/json''
       (bytes_NewReader mismatch_body)) \<noteq> 200
   \<and> isJSON (example_env [])
         (Header_Get (Header (example_response ''400 Bad Request'' 400 ''application/json''
            (bytes_NewReader mismatch_body))) ''Content-Type'')
   \<and> fst (json_Unmarshal AppError_field mismatch_body AppError_zero) \<noteq> None
   \<and> parseResponse (example_env [])
         (example_response ''400 Bad Request'' 400 ''application/json''
            (bytes_NewReader mismatch_body))
       = Inl (AppErr \<lparr>HttpStatus = ''400 Bad Request'', HttpStatusCode = 400, Message = ''x'',
                       AppError_Id = [], AppError_Code = []\<rparr>)"
  by (simp add: example_response_def example_env_def isJSON_def Header_Get_def
        parseResponse_def ioutil_ReadAll_def bytes_NewReader_def Unmarshal_mismatch_body)

lemma Unmarshal_no_object:
  assumes "\<forall>kvs. json_parse data \<noteq> Some (JObject kvs)"
  shows "snd (json_Unmarshal f data st) = st"
  using assms by (auto simp: json_Unmarshal_def split: option.splits json.splits)

lemma Unmarshal_no_object_error:
  assumes "\<forall>kvs. json_parse data \<noteq> Some (JObject kvs)" and "json_parse data \<noteq> Some JNull"
  shows "fst (json_Unmarshal f data st) \<noteq> None"
  using assms by (auto simp: json_Unmarshal_def split: option.splits json.splits)

lemma Unmarshal_object:
  assumes "json_parse data = Some (JObject kvs)"
  shows "snd (json_Unmarshal f data st) = snd (decode_object f kvs st)"
  using assms by (simp add: json_Unmarshal_def split: prod.splits)

text \<open>
  C5, amended. For a response with a status other than 200 whose content type is JSON and
  whose body is read without error, \<open>parseResponse\<close> returns an \<open>AppError\<close> with \<^verbatim>\<open>HttpStatus\<close>
  and \<^verbatim>\<open>HttpStatusCode\<close> of the response. For the body
  \<^verbatim>\<open>{"message":"bad field","id":"abc123","code":"GAIA_IL01"}\<close> its \<^verbatim>\<open>Message\<close>, \<^verbatim>\<open>Id\<close> and \<^verbatim>\<open>Code\<close>
  are those three values. If the body is not a JSON text, or is a JSON value that is no
  object, \<^verbatim>\<open>Message\<close>, \<^verbatim>\<open>Id\<close> and \<^verbatim>\<open>Code\<close> are empty. If the body is a JSON object, the
  fields are what the decoding of its members stored, whether or not a member of the
  wrong type made the decoding fail.
\<close>

theorem parseResponse_JSON:
  assumes "StatusCode resp \<noteq> 200"
    and "isJSON env (Header_Get (Header resp) ''Content-Type'')"
    and "failure (Body resp) = None"
  shows "\<exists>ae. parseResponse env resp = Inl (AppErr ae)
     \<and> HttpStatus ae = Status resp \<and> HttpStatusCode ae = StatusCode resp
     \<and> (content (Body resp) = example_error_body \<longrightarrow>
          Message ae = ''bad field'' \<and> AppError_Id ae = ''abc123''
          \<and> AppError_Code ae = ''GAIA_IL01'')
     \<and> ((\<forall>kvs. json_parse (content (Body resp)) \<noteq> Some (JObject kvs)) \<longrightarrow>
          Message ae = [] \<and> AppError_Id ae = [] \<and> AppError_Code ae = [])
     \<and> (\<forall>kvs. json_parse (content (Body resp)) = Some (JObject kvs) \<longrightarrow>
          ae = (snd (decode_object AppError_field kvs AppError_zero))
                 \<lparr>HttpStatus := Status resp, HttpStatusCode := StatusCode resp\<rparr>)"
proof -
  define ae where "ae = (snd (json_Unmarshal AppError_field (content (Body resp)) AppError_zero))
        \<lparr>HttpStatus := Status resp, HttpStatusCode := StatusCode resp\<rparr>"
  have p: "parseResponse env resp = Inl (AppErr ae)"
    using assms by (simp add: parseResponse_non_200 ae_def)
  have s: "HttpStatus ae = Status resp \<and> HttpStatusCode ae = StatusCode resp"
    by (simp add: ae_def)
  have e: "content (Body resp) = example_error_body \<longrightarrow>
          Message ae = ''bad field'' \<and> AppError_Id ae = ''abc123''
          \<and> AppError_Code ae = ''GAIA_IL01''"
    by (simp add: ae_def Unmarshal_example_error_body)
  have n: "(\<forall>kvs. json_parse (content (Body resp)) \<noteq> Some (JObject kvs)) \<longrightarrow>
          Message ae = [] \<and> AppError_Id ae = [] \<and> AppError_Code ae = []"
    by (simp add: ae_def Unmarshal_no_object AppError_zero_def)
  have ob: "\<forall>kvs. json_parse (content (Body resp)) = Some (JObject kvs) \<longrightarrow>
          ae = (snd (decode_object AppError_field kvs AppError_zero))
                 \<lparr>HttpStatus := Status resp, HttpStatusCode := StatusCode resp\<rparr>"
    by (simp add: ae_def Unmarshal_object)
  show ?thesis
    using p s e n ob by blast
qed

theorem parseResponse_JSON_witness:
  "parseResponse (example_env [])
     (example_response ''400 Bad Request'' 400 ''application/json''
        (bytes_NewReader example_error_body))
   = Inl (AppErr \<lparr>HttpStatus = ''400 Bad Request'', HttpStatusCode = 400,
                   Message = ''bad field'', AppError_Id = ''abc123'',
                   AppError_Code = ''GAIA_IL01''\<rparr>)"
proof -
  let ?r = "example_response ''400 Bad Request'' 400 ''application/json''
        (bytes_NewReader example_error_body)"
  have h1: "StatusCode ?r \<noteq> 200"
    by (simp add: example_response_def)
  have h2: "isJSON (example_env []) (Header_Get (Header ?r) ''Content-Type'')"
    by (simp add: example_response_def example_env_def isJSON_def Header_Get_def)
  have h3: "failure (Body ?r) = None"
    by (simp add: example_response_def bytes_NewReader_def)
  have c: "content (Body ?r) = example_error_body"
    by (simp add: example_response_def bytes_NewReader_def)
  obtain ae where ae: "parseResponse (example_env []) ?r = Inl (AppErr ae)"
    "HttpStatus ae = Status ?r" "HttpStatusCode ae = StatusCode ?r"
    "Message ae = ''bad field''" "AppError_Id ae = ''abc123''" "AppError_Code ae = ''GAIA_IL01''"
    using parseResponse_JSON [OF h1 h2 h3] c by blast
  have "ae = \<lparr>HttpStatus = ''400 Bad Request'', HttpStatusCode = 400,
                   Message = ''bad field'', AppError_Id = ''abc123'',
                   AppError_Code = ''GAIA_IL01''\<rparr>"
    using ae(2-6) by (cases ae) (simp add: example_response_def)
  then show ?thesis
    using ae(1) by simp
qed

subsection \<open>Download\<close>

text \<open>
  C6, as stated, fails for a response whose body cannot be read to the end: \<open>Download\<close>
  drops the read error and returns an \<open>AppError\<close>, where \<open>parseResponse\<close> returns the read
  error.
\<close>

theorem Download_read_failure:
  "StatusCode (example_response ''502 Bad Gateway'' 502 ''text/html''
       \<lparr>content = ''<ht'', failure = Some ''unexpected EOF''\<rparr>) \<noteq> 200
   \<and> fst (Download
         (example_env [Done (Inr (example_response ''502 Bad Gateway'' 502 ''text/html''
            \<lparr>content = ''<ht'', failure = Some ''unexpected EOF''\<rparr>))])
         ''key'' (example_app, example_world))
       = Inl (AppErr \<lparr>HttpStatus = ''502 Bad Gateway'', HttpStatusCode = 502, Message = [],
                       AppError_Id = [], AppError_Code = []\<rparr>)
   \<and> parseResponse
         (example_env [Done (Inr (example_response ''502 Bad Gateway'' 502 ''text/html''
            \<lparr>content = ''<ht'', failure = Some ''unexpected EOF''\<rparr>))])
         (example_response ''502 Bad Gateway'' 502 ''text/html''
            \<lparr>content = ''<ht'', failure = Some ''unexpected EOF''\<rparr>)
       = Inl (Other ''unexpected EOF'')"
  by (simp add: Download_def newRequest_def do_def example_env_def example_app_def
        example_world_def example_response_def isJSON_def Header_Get_def Let_def
        parseResponse_def ioutil_ReadAll_def AppError_zero_def)

text \<open>
  C6, amended. When the request of \<open>Download\<close> is answered by a response with a status
  other than 200 whose body is read without error, \<open>Download\<close> returns the \<open>AppError\<close> that
  \<open>parseResponse\<close> returns for that response, for a JSON body and for any other.
\<close>

theorem Download_classifies:
  assumes "newRequest env ''GET'' ''file''
             (bytes_NewReader (json_Marshal env (Body_Download fileKey))) app = (Inr req, app1)"
    and "do env req (app1, w) = (Inr resp, s2)"
    and "StatusCode resp \<noteq> 200"
    and "failure (Body resp) = None"
  shows "\<exists>ae. Download env fileKey (app, w) = (Inl (AppErr ae), s2)
            \<and> parseResponse env resp = Inl (AppErr ae)"
  using assms
  by (simp add: Download_def Let_def parseResponse_non_200 ioutil_ReadAll_def)

theorem Download_classifies_witness:
  "fst (Download
         (example_env [Done (Inr (example_response ''400 Bad Request'' 400 ''application/json''
            (bytes_NewReader example_error_body)))])
         ''key'' (example_app, example_world))
     = Inl (AppErr \<lparr>HttpStatus = ''400 Bad Request'', HttpStatusCode = 400,
                     Message = ''bad field'', AppError_Id = ''abc123'',
                     AppError_Code = ''GAIA_IL01''\<rparr>)
   \<and> parseResponse
         (example_env [Done (Inr (example_response ''400 Bad Request'' 400 ''application/json''
            (bytes_NewReader example_error_body)))])
         (example_response ''400 Bad Request'' 400 ''application/json''
            (bytes_NewReader example_error_body))
     = Inl (AppErr \<lparr>HttpStatus = ''400 Bad Request'', HttpStatusCode = 400,
                     Message = ''bad field'', AppError_Id = ''abc123'',
                     AppError_Code = ''GAIA_IL01''\<rparr>)"
proof -
  let ?r = "example_response ''400 Bad Request'' 400 ''application/json''
              (bytes_NewReader example_error_body)"
  let ?env = "example_env [Done (Inr ?r)]"
  have "\<exists>req app1. newRequest ?env ''GET'' ''file''
          (bytes_NewReader (json_Marshal ?env (Body_Download ''key''))) example_app = (Inr req, app1)"
    by (simp add: newRequest_def example_env_def Let_def)
  then obtain req app1 where h1: "newRequest ?env ''GET'' ''file''
          (bytes_NewReader (json_Marshal ?env (Body_Download ''key''))) example_app = (Inr req, app1)"
    by blast
  have "\<exists>s2. do ?env req (app1, example_world) = (Inr ?r, s2)"
    by (simp add: do_def example_env_def example_world_def Let_def split: option.splits)
  then obtain s2 where h2: "do ?env req (app1, example_world) = (Inr ?r, s2)"
    by blast
  have h3: "StatusCode ?r \<noteq> 200" and h4: "failure (Body ?r) = None"
    by (simp_all add: example_response_def bytes_NewReader_def)
  obtain ae where d: "Download ?env ''key'' (example_app, example_world) = (Inl (AppErr ae), s2)"
    and p: "parseResponse ?env ?r = Inl (AppErr ae)"
    using Download_classifies [OF h1 h2 h3 h4] by blast
  have "parseResponse ?env ?r = Inl (AppErr \<lparr>HttpStatus = ''400 Bad Request'', HttpStatusCode = 400,
                     Message = ''bad field'', AppError_Id = ''abc123'',
                     AppError_Code = ''GAIA_IL01''\<rparr>)"
    by (simp add: parseResponse_def ioutil_ReadAll_def example_response_def bytes_NewReader_def
          isJSON_def example_env_def Header_Get_def Unmarshal_example_error_body)
  with p d show ?thesis
    by simp
qed

subsection \<open>GetAllRecords\<close>

lemma loop_error:
  "GetAllRecords_page env f recs s = (Inl e, s')
    \<Longrightarrow> GetAllRecords_loop env f recs s = Some (Inl e, s')"
  by (subst GetAllRecords_loop.simps) simp

lemma loop_short:
  "GetAllRecords_page env f recs s = (Inr r, s') \<Longrightarrow> length r < 100
    \<Longrightarrow> GetAllRecords_loop env f recs s = Some (Inr (recs @ r), s')"
  by (subst GetAllRecords_loop.simps) simp

lemma loop_full:
  "GetAllRecords_page env f recs s = (Inr r, s') \<Longrightarrow> 100 \<le> length r
    \<Longrightarrow> GetAllRecords_loop env f recs s = GetAllRecords_loop env f (recs @ r) s'"
  by (subst GetAllRecords_loop.simps) simp

lemma loop_full_pages:
  "full_pages env f n recs s = Some (recs', s')
    \<Longrightarrow> GetAllRecords_loop env f recs s = GetAllRecords_loop env f recs' s'"
proof (induction n arbitrary: recs s)
  case 0
  then show ?case by simp
next
  case (Suc n)
  then show ?case
    by (auto simp: loop_full split: prod.splits sum.splits if_splits)
qed

lemma loop_returns_short:
  assumes "GetAllRecords_loop env f recs s = Some y"
  shows "\<forall>rs st'. y = (Inr rs, st') \<longrightarrow>
           (\<exists>n recs' st r. full_pages env f n recs s = Some (recs', st)
              \<and> GetAllRecords_page env f recs' st = (Inr r, st')
              \<and> length r < 100 \<and> rs = recs' @ r)"
  using assms
proof (induction env f recs s y rule: GetAllRecords_loop.raw_induct)
  case (1 loop env f recs s y)
  obtain r s1 where pg: "GetAllRecords_page env f recs s = (r, s1)"
    by (cases "GetAllRecords_page env f recs s")
  show ?case
  proof (cases r)
    case (Inl err)
    then show ?thesis using 1(2) pg by auto
  next
    case (Inr page)
    show ?thesis
    proof (cases "length page < 100")
      case True
      then have y: "y = (Inr (recs @ page), s1)"
        using 1(2) pg Inr by simp
      have "full_pages env f 0 recs s = Some (recs, s)" by simp
      then show ?thesis
        using y pg Inr True by blast
    next
      case False
      then have l: "loop env f (recs @ page) s1 = Some y"
        using 1(2) pg Inr by simp
      moreover have "GetAllRecords_loop env f (recs @ page) s1 = Some y"
        using 1(3) pg Inr False loop_full [of env f recs s page s1] by simp
      ultimately have ih: "\<forall>rs st'. y = (Inr rs, st') \<longrightarrow>
           (\<exists>n recs' st r. full_pages env f n (recs @ page) s1 = Some (recs', st)
              \<and> GetAllRecords_page env f recs' st = (Inr r, st')
              \<and> length r < 100 \<and> rs = recs' @ r)"
        by (rule 1(1))
      show ?thesis
      proof (intro allI impI)
        fix rs st'
        assume "y = (Inr rs, st')"
        then obtain n recs' st r where
          fp: "full_pages env f n (recs @ page) s1 = Some (recs', st)"
          and rest: "GetAllRecords_page env f recs' st = (Inr r, st')" "length r < 100"
            "rs = recs' @ r"
          using ih by blast
        have "full_pages env f (Suc n) recs s = Some (recs', st)"
          using fp pg Inr False by simp
        then show "\<exists>n recs' st r. full_pages env f n recs s = Some (recs', st)
              \<and> GetAllRecords_page env f recs' st = (Inr r, st')
              \<and> length r < 100 \<and> rs = recs' @ r"
          using rest by blast
      qed
    qed
  qed
qed (rule assms)

lemma do_response:
  assumes "do env req (app, w) = (Inr resp, app', w')"
  shows "sent w' = sent w @ [req] \<and> AppId app' = AppId app"
  using assms
  by (auto simp: do_def Let_def split: option.splits sum.splits outcome.splits if_splits)

lemma page_request:
  assumes "GetAllRecords_page env f recs (app, w) = (Inr r, s')"
  shows "\<exists>req. sent (snd s') = sent w @ [req]
     \<and> Method req = ''GET''
     \<and> URL req = URL_String env \<lparr>Scheme = ''https'', Host = App_Domain app,
                                  Path = ''/k/v1/records.json''\<rparr>
     \<and> req_Body req = bytes_NewReader (json_Marshal env
          (Body_GetRecords (AppId app) f (page_query recs)))
     \<and> AppId (fst s') = AppId app \<and> App_Domain (fst s') = App_Domain app"
proof -
  let ?body = "bytes_NewReader (json_Marshal env (Body_GetRecords (AppId app) f (page_query recs)))"
  obtain req app1 where n: "newRequest env ''GET'' ''records'' ?body app = (Inr req, app1)"
    using assms
    by (auto simp: GetAllRecords_page_def Let_def split: prod.splits sum.splits)
  obtain resp where d: "do env req (app1, w) = (Inr resp, s')"
    using assms n
    by (auto simp: GetAllRecords_page_def Let_def split: prod.splits sum.splits)
  have "AppId app1 = AppId app \<and> App_Domain app1 = App_Domain app"
    using newRequest_app [of env "''GET''" "''records''" ?body app] n by simp
  moreover have "sent (snd s') = sent w @ [req] \<and> AppId (fst s') = AppId app1"
    using do_response [of env req app1 w resp "fst s'" "snd s'"] d by simp
  moreover have "App_Domain (fst s') = App_Domain app1"
    using d by (auto simp: do_def Let_def split: option.splits sum.splits outcome.splits if_splits)
  ultimately show ?thesis
    using newRequest_request [OF n] by simp
qed


lemma decimal_100: "decimal 100 = ''100''" and decimal_200: "decimal 200 = ''200''"
  by (simp_all add: decimal.simps)

lemma page_decoded:
  "GetAllRecords_page env f recs (app, w) = (Inr r, s') \<longleftrightarrow>
     (\<exists>req app1 resp body.
        newRequest env ''GET'' ''records''
          (bytes_NewReader (json_Marshal env (Body_GetRecords (AppId app) f (page_query recs))))
          app = (Inr req, app1)
        \<and> do env req (app1, w) = (Inr resp, s')
        \<and> parseResponse env resp = Inr body
        \<and> DecodeRecords env body = Inr r)"
  by (auto simp: GetAllRecords_page_def Let_def split: prod.splits sum.splits)

lemma page_of_response:
  assumes new: "http_NewRequest env ''GET''
        (URL_String env \<lparr>Scheme = ''https'', Host = App_Domain app,
                          Path = ''/k/v1/records.json''\<rparr>) = None"
    and jar: "Client app \<noteq> None \<or> (\<exists>j. cookiejar_New env = Inr j)"
    and srv: "\<forall>req. Method req = ''GET''
        \<and> URL req = URL_String env \<lparr>Scheme = ''https'', Host = App_Domain app,
                                     Path = ''/k/v1/records.json''\<rparr>
        \<and> req_Body req = bytes_NewReader (json_Marshal env
             (Body_GetRecords (AppId app) f (page_query recs)))
        \<longrightarrow> Client_Do env (length (sent w)) req = Done (Inr resp)"
    and ok: "StatusCode resp = 200" "failure (Body resp) = None"
    and dec: "DecodeRecords env (content (Body resp)) = Inr r"
  shows "\<exists>app' q. GetAllRecords_page env f recs (app, w)
             = (Inr r, app', w\<lparr>sent := sent w @ [q]\<rparr>)
           \<and> Method q = ''GET''
           \<and> URL q = URL_String env \<lparr>Scheme = ''https'', Host = App_Domain app,
                                       Path = ''/k/v1/records.json''\<rparr>
           \<and> req_Body q = bytes_NewReader (json_Marshal env
                (Body_GetRecords (AppId app) f (page_query recs)))
           \<and> AppId app' = AppId app \<and> App_Domain app' = App_Domain app
           \<and> Client app' \<noteq> None"
proof -
  let ?body = "bytes_NewReader (json_Marshal env (Body_GetRecords (AppId app) f (page_query recs)))"
  have "\<exists>q app1. newRequest env ''GET'' ''records'' ?body app = (Inr q, app1)"
    using new by (cases "token app = []") (simp_all add: newRequest_def Let_def)
  then obtain q app1 where n: "newRequest env ''GET'' ''records'' ?body app = (Inr q, app1)"
    by blast
  have app1: "AppId app1 = AppId app" "App_Domain app1 = App_Domain app" "Client app1 = Client app"
    using n by (auto simp: newRequest_def Let_def split: option.splits if_splits)
  have q: "Method q = ''GET''"
      "URL q = URL_String env \<lparr>Scheme = ''https'', Host = App_Domain app,
                                Path = ''/k/v1/records.json''\<rparr>"
      "req_Body q = ?body"
    using newRequest_request [OF n] by simp_all
  have c: "Client_Do env (length (sent w)) q = Done (Inr resp)"
    using srv q by blast
  have "\<exists>app'. do env q (app1, w) = (Inr resp, app', w\<lparr>sent := sent w @ [q]\<rparr>)
      \<and> AppId app' = AppId app1 \<and> App_Domain app' = App_Domain app1 \<and> Client app' \<noteq> None"
  proof (cases "Client app1")
    case None
    then obtain j where "cookiejar_New env = Inr j"
      using jar app1(3) by auto
    then show ?thesis
      using None c by (simp add: do_def Let_def)
  next
    case (Some cl)
    then show ?thesis
      using c by (simp add: do_def Let_def)
  qed
  then obtain app' where d: "do env q (app1, w) = (Inr resp, app', w\<lparr>sent := sent w @ [q]\<rparr>)"
      and app': "AppId app' = AppId app1" "App_Domain app' = App_Domain app1" "Client app' \<noteq> None"
    by blast
  have p: "parseResponse env resp = Inr (content (Body resp))"
    using ok by (simp add: parseResponse_def ioutil_ReadAll_def)
  have "GetAllRecords_page env f recs (app, w) = (Inr r, app', w\<lparr>sent := sent w @ [q]\<rparr>)"
    using n d p dec by (simp add: GetAllRecords_page_def Let_def)
  then show ?thesis
    using q app' app1 by auto
qed


lemma page_query_values:
  "page_query [] = ''limit 100''"
  "length r1 = 100 \<Longrightarrow> page_query r1 = ''limit 100 offset 100''"
  "length r1 = 100 \<Longrightarrow> length r2 = 100 \<Longrightarrow> page_query (r1 @ r2) = ''limit 100 offset 200''"
  by (simp_all add: page_query_def decimal_100 decimal_200)

text \<open>
  C1. The service answers the first three listing requests of a call with the responses
  \<open>resp1\<close>, \<open>resp2\<close> and \<open>resp3\<close>: the first is its answer to a \<^verbatim>\<open>GET\<close> of \<^verbatim>\<open>/k/v1/records.json\<close>
  whose body marshals the query \<^verbatim>\<open>limit 100\<close>, the second to one with \<^verbatim>\<open>limit 100 offset 100\<close>,
  the third to one with \<^verbatim>\<open>limit 100 offset 200\<close>. Each has status 200 and a body that is read
  without error, and \<open>DecodeRecords\<close> reads from the three bodies the pages \<open>r1\<close>, \<open>r2\<close> and
  \<open>r3\<close> of 100, 100 and 37 records. (For a request to reach the service at all,
  \<^verbatim>\<open>http.NewRequest\<close> accepts the URL, and the \<open>App\<close> has a client or \<^verbatim>\<open>cookiejar.New\<close> gives
  one.) Then \<open>GetAllRecords\<close> returns the 237 records
  \<open>r1 @ r2 @ r3\<close>: the records of a page in the order in which \<open>DecodeRecords\<close> gave them,
  and the pages in the order of the responses. It has sent three requests, with these
  three queries. In general, after a pass whose response is decoded to the page \<open>r\<close>:
  with fewer than 100 records (or none) the loop returns the records accumulated so far
  followed by \<open>r\<close>, and with 100 records or more it goes on with the next pass.
  Conversely, whenever \<open>GetAllRecords\<close> returns records, some number of passes fetched
  pages of 100 records or more and the pass after them decoded a page of fewer than 100,
  after which the loop returned.
\<close>

theorem GetAllRecords_three_pages:
  assumes new: "http_NewRequest env ''GET''
        (URL_String env \<lparr>Scheme = ''https'', Host = App_Domain app,
                          Path = ''/k/v1/records.json''\<rparr>) = None"
    and jar: "Client app \<noteq> None \<or> (\<exists>j. cookiejar_New env = Inr j)"
    and srv1: "\<forall>req. Method req = ''GET''
        \<and> URL req = URL_String env \<lparr>Scheme = ''https'', Host = App_Domain app,
                                     Path = ''/k/v1/records.json''\<rparr>
        \<and> req_Body req = bytes_NewReader (json_Marshal env
             (Body_GetRecords (AppId app) f ''limit 100''))
        \<longrightarrow> Client_Do env (length (sent w)) req = Done (Inr resp1)"
    and srv2: "\<forall>req. Method req = ''GET''
        \<and> URL req = URL_String env \<lparr>Scheme = ''https'', Host = App_Domain app,
                                     Path = ''/k/v1/records.json''\<rparr>
        \<and> req_Body req = bytes_NewReader (json_Marshal env
             (Body_GetRecords (AppId app) f ''limit 100 offset 100''))
        \<longrightarrow> Client_Do env (length (sent w) + 1) req = Done (Inr resp2)"
    and srv3: "\<forall>req. Method req = ''GET''
        \<and> URL req = URL_String env \<lparr>Scheme = ''https'', Host = App_Domain app,
                                     Path = ''/k/v1/records.json''\<rparr>
        \<and> req_Body req = bytes_NewReader (json_Marshal env
             (Body_GetRecords (AppId app) f ''limit 100 offset 200''))
        \<longrightarrow> Client_Do env (length (sent w) + 2) req = Done (Inr resp3)"
    and ok1: "StatusCode resp1 = 200 \<and> failure (Body resp1) = None"
    and ok2: "StatusCode resp2 = 200 \<and> failure (Body resp2) = None"
    and ok3: "StatusCode resp3 = 200 \<and> failure (Body resp3) = None"
    and dec1: "DecodeRecords env (content (Body resp1)) = Inr r1" and len1: "length r1 = 100"
    and dec2: "DecodeRecords env (content (Body resp2)) = Inr r2" and len2: "length r2 = 100"
    and dec3: "DecodeRecords env (content (Body resp3)) = Inr r3" and len3: "length r3 = 37"
  shows "(\<exists>app' q1 q2 q3.
          GetAllRecords env f (app, w)
            = Some (Inr (r1 @ r2 @ r3), app', w\<lparr>sent := sent w @ [q1, q2, q3]\<rparr>)
          \<and> req_Body q1 = bytes_NewReader (json_Marshal env
               (Body_GetRecords (AppId app) f ''limit 100''))
          \<and> req_Body q2 = bytes_NewReader (json_Marshal env
               (Body_GetRecords (AppId app) f ''limit 100 offset 100''))
          \<and> req_Body q3 = bytes_NewReader (json_Marshal env
               (Body_GetRecords (AppId app) f ''limit 100 offset 200'')))
     \<and> length (r1 @ r2 @ r3) = 237
     \<and> (\<forall>recs app0 w0 req app1 resp s2 body r.
          newRequest env ''GET'' ''records''
            (bytes_NewReader (json_Marshal env (Body_GetRecords (AppId app0) f (page_query recs))))
            app0 = (Inr req, app1)
          \<and> do env req (app1, w0) = (Inr resp, s2)
          \<and> parseResponse env resp = Inr body
          \<and> DecodeRecords env body = Inr r
          \<longrightarrow> (length r < 100
                 \<longrightarrow> GetAllRecords_loop env f recs (app0, w0) = Some (Inr (recs @ r), s2))
              \<and> (100 \<le> length r
                 \<longrightarrow> GetAllRecords_loop env f recs (app0, w0)
                       = GetAllRecords_loop env f (recs @ r) s2))
     \<and> (\<forall>s rs s'. GetAllRecords env f s = Some (Inr rs, s') \<longrightarrow>
          (\<exists>n recs app0 w0 req app1 resp body r.
             full_pages env f n [] s = Some (recs, app0, w0)
             \<and> newRequest env ''GET'' ''records''
                   (bytes_NewReader (json_Marshal env
                      (Body_GetRecords (AppId app0) f (page_query recs))))
                   app0 = (Inr req, app1)
             \<and> do env req (app1, w0) = (Inr resp, s')
             \<and> parseResponse env resp = Inr body
             \<and> DecodeRecords env body = Inr r
             \<and> length r < 100 \<and> rs = recs @ r))"
proof -
  obtain app1 q1 where p1: "GetAllRecords_page env f [] (app, w)
        = (Inr r1, app1, w\<lparr>sent := sent w @ [q1]\<rparr>)"
      and q1: "req_Body q1 = bytes_NewReader (json_Marshal env
                (Body_GetRecords (AppId app) f ''limit 100''))"
      and a1: "AppId app1 = AppId app" "App_Domain app1 = App_Domain app" "Client app1 \<noteq> None"
    using page_of_response [of env app f "[]" w resp1 r1] new jar srv1 ok1 dec1
    by (auto simp: page_query_values)
  let ?w1 = "w\<lparr>sent := sent w @ [q1]\<rparr>"
  obtain app2 q2 where p2: "GetAllRecords_page env f r1 (app1, ?w1)
        = (Inr r2, app2, ?w1\<lparr>sent := sent ?w1 @ [q2]\<rparr>)"
      and q2: "req_Body q2 = bytes_NewReader (json_Marshal env
                (Body_GetRecords (AppId app) f ''limit 100 offset 100''))"
      and a2: "AppId app2 = AppId app" "App_Domain app2 = App_Domain app" "Client app2 \<noteq> None"
    using page_of_response [of env app1 f r1 ?w1 resp2 r2] new a1 srv2 ok2 dec2 len1
    by (auto simp: page_query_values)
  let ?w2 = "w\<lparr>sent := sent w @ [q1, q2]\<rparr>"
  have p2': "GetAllRecords_page env f r1 (app1, ?w1) = (Inr r2, app2, ?w2)"
    using p2 by simp
  obtain app3 q3 where p3: "GetAllRecords_page env f (r1 @ r2) (app2, ?w2)
        = (Inr r3, app3, ?w2\<lparr>sent := sent ?w2 @ [q3]\<rparr>)"
      and q3: "req_Body q3 = bytes_NewReader (json_Marshal env
                (Body_GetRecords (AppId app) f ''limit 100 offset 200''))"
    using page_of_response [of env app2 f "r1 @ r2" ?w2 resp3 r3] new a2 srv3 ok3 dec3 len1 len2
    by (auto simp: page_query_values)
  let ?w3 = "w\<lparr>sent := sent w @ [q1, q2, q3]\<rparr>"
  have p3': "GetAllRecords_page env f (r1 @ r2) (app2, ?w2) = (Inr r3, app3, ?w3)"
    using p3 by simp
  have "GetAllRecords env f (app, w) = Some (Inr (r1 @ r2 @ r3), app3, ?w3)"
    using len1 len2 len3
    by (simp add: GetAllRecords_def loop_full [OF p1] loop_full [OF p2'] loop_short [OF p3'])
  then have main: "(\<exists>app' q1 q2 q3.
          GetAllRecords env f (app, w)
            = Some (Inr (r1 @ r2 @ r3), app', w\<lparr>sent := sent w @ [q1, q2, q3]\<rparr>)
          \<and> req_Body q1 = bytes_NewReader (json_Marshal env
               (Body_GetRecords (AppId app) f ''limit 100''))
          \<and> req_Body q2 = bytes_NewReader (json_Marshal env
               (Body_GetRecords (AppId app) f ''limit 100 offset 100''))
          \<and> req_Body q3 = bytes_NewReader (json_Marshal env
               (Body_GetRecords (AppId app) f ''limit 100 offset 200'')))"
    using q1 q2 q3 by blast
  have len: "length (r1 @ r2 @ r3) = 237"
    using len1 len2 len3 by simp
  have step: "(\<forall>recs app0 w0 req app1 resp s2 body r.
          newRequest env ''GET'' ''records''
            (bytes_NewReader (json_Marshal env (Body_GetRecords (AppId app0) f (page_query recs))))
            app0 = (Inr req, app1)
          \<and> do env req (app1, w0) = (Inr resp, s2)
          \<and> parseResponse env resp = Inr body
          \<and> DecodeRecords env body = Inr r
          \<longrightarrow> (length r < 100
                 \<longrightarrow> GetAllRecords_loop env f recs (app0, w0) = Some (Inr (recs @ r), s2))
              \<and> (100 \<le> length r
                 \<longrightarrow> GetAllRecords_loop env f recs (app0, w0)
                       = GetAllRecords_loop env f (recs @ r) s2))"
  proof (intro allI impI)
    fix recs :: "'a list" and app0 w0 req app1 resp s2 body r
    assume "newRequest env ''GET'' ''records''
            (bytes_NewReader (json_Marshal env (Body_GetRecords (AppId app0) f (page_query recs))))
            app0 = (Inr req, app1)
          \<and> do env req (app1, w0) = (Inr resp, s2)
          \<and> parseResponse env resp = Inr body
          \<and> DecodeRecords env body = Inr r"
    then have pg: "GetAllRecords_page env f recs (app0, w0) = (Inr r, s2)"
      using page_decoded [of env f recs app0 w0 r s2] by blast
    show "(length r < 100
                 \<longrightarrow> GetAllRecords_loop env f recs (app0, w0) = Some (Inr (recs @ r), s2))
              \<and> (100 \<le> length r
                 \<longrightarrow> GetAllRecords_loop env f recs (app0, w0)
                       = GetAllRecords_loop env f (recs @ r) s2)"
      using loop_short [OF pg] loop_full [OF pg] by simp
  qed
  have conv: "(\<forall>s rs s'. GetAllRecords env f s = Some (Inr rs, s') \<longrightarrow>
          (\<exists>n recs app0 w0 req app1 resp body r.
             full_pages env f n [] s = Some (recs, app0, w0)
             \<and> newRequest env ''GET'' ''records''
                   (bytes_NewReader (json_Marshal env
                      (Body_GetRecords (AppId app0) f (page_query recs))))
                   app0 = (Inr req, app1)
             \<and> do env req (app1, w0) = (Inr resp, s')
             \<and> parseResponse env resp = Inr body
             \<and> DecodeRecords env body = Inr r
             \<and> length r < 100 \<and> rs = recs @ r))"
  proof (intro allI impI)
    fix s rs s'
    assume "GetAllRecords env f s = Some (Inr rs, s')"
    then have "GetAllRecords_loop env f [] s = Some (Inr rs, s')"
      by (simp add: GetAllRecords_def)
    then have "\<exists>n recs st r. full_pages env f n [] s = Some (recs, st)
        \<and> GetAllRecords_page env f recs st = (Inr r, s') \<and> length r < 100 \<and> rs = recs @ r"
      using loop_returns_short [of env f "[]" s "(Inr rs, s')"] by blast
    then obtain n recs st r where fp: "full_pages env f n [] s = Some (recs, st)"
        and pg: "GetAllRecords_page env f recs st = (Inr r, s')"
        and r: "length r < 100" "rs = recs @ r"
      by blast
    obtain app0 w0 where st: "st = (app0, w0)"
      by (cases st)
    show "\<exists>n recs app0 w0 req app1 resp body r.
             full_pages env f n [] s = Some (recs, app0, w0)
             \<and> newRequest env ''GET'' ''records''
                   (bytes_NewReader (json_Marshal env
                      (Body_GetRecords (AppId app0) f (page_query recs))))
                   app0 = (Inr req, app1)
             \<and> do env req (app1, w0) = (Inr resp, s')
             \<and> parseResponse env resp = Inr body
             \<and> DecodeRecords env body = Inr r
             \<and> length r < 100 \<and> rs = recs @ r"
      using fp pg r st page_decoded [of env f recs app0 w0 r s'] by blast
  qed
  show ?thesis
    by (intro conjI) (rule main len step conv)+
qed

lemma example_page:
  assumes "length (sent w) = n" and "n < length script"
    and "script ! n = Done (Inr (example_response ''200 OK'' 200 ''application/json''
                                   (bytes_NewReader d)))"
    and "CHR ''!'' \<notin> set d"
  shows "\<exists>s'. GetAllRecords_page (example_env script) f recs (app, w) = (Inr (map byte d), s')"
  using assms
  by (simp add: GetAllRecords_page_def newRequest_def do_def parseResponse_def ioutil_ReadAll_def
        example_env_def example_response_def bytes_NewReader_def Let_def
        split: option.splits)

lemma example_body_decodes:
  assumes "33 < a" and "b \<le> 256"
  shows "DecodeRecords (example_env script) (example_body a b) = Inr [a..<b]"
proof -
  have bytes: "map byte (example_body a b) = [a..<b]"
    using assms(2) by (auto simp: example_body_def list_eq_iff_nth_eq byte_def)
  have "CHR ''!'' \<notin> set (example_body a b)"
  proof
    assume "CHR ''!'' \<in> set (example_body a b)"
    then have "byte (CHR ''!'') \<in> set (map byte (example_body a b))"
      by (metis imageI set_map)
    then show False
      using assms(1) by (simp add: bytes) (simp add: byte_def)
  qed
  then show ?thesis
    using bytes by (simp add: example_env_def)
qed

theorem GetAllRecords_three_pages_witness:
  "(case GetAllRecords
           (example_env
              [Done (Inr (example_response ''200 OK'' 200 ''application/json''
                            (bytes_NewReader (example_body 34 134)))),
               Done (Inr (example_response ''200 OK'' 200 ''application/json''
                            (bytes_NewReader (example_body 134 234)))),
               Done (Inr (example_response ''200 OK'' 200 ''application/json''
                            (bytes_NewReader (example_body 40 77))))])
           None (example_app, example_world) of
      None \<Rightarrow> False
    | Some (r, app', w') \<Rightarrow>
        r = Inr ([34..<134] @ [134..<234] @ [40..<77])
        \<and> map (\<lambda>q. content (req_Body q)) (sent w')
            = [''limit 100'', ''limit 100 offset 100'', ''limit 100 offset 200''])"
proof -
  let ?r1 = "example_response ''200 OK'' 200 ''application/json''
               (bytes_NewReader (example_body 34 134))"
  let ?r2 = "example_response ''200 OK'' 200 ''application/json''
               (bytes_NewReader (example_body 134 234))"
  let ?r3 = "example_response ''200 OK'' 200 ''application/json''
               (bytes_NewReader (example_body 40 77))"
  let ?env = "example_env [Done (Inr ?r1), Done (Inr ?r2), Done (Inr ?r3)]"
  let ?f = "None :: string list option"
  have new: "http_NewRequest ?env ''GET''
        (URL_String ?env \<lparr>Scheme = ''https'', Host = App_Domain example_app,
                          Path = ''/k/v1/records.json''\<rparr>) = None"
    by (simp add: example_env_def)
  have jar: "Client example_app \<noteq> None \<or> (\<exists>j. cookiejar_New ?env = Inr j)"
    by (simp add: example_env_def)
  have srv: "Client_Do ?env (length (sent example_world)) req = Done (Inr ?r1)"
      "Client_Do ?env (length (sent example_world) + 1) req = Done (Inr ?r2)"
      "Client_Do ?env (length (sent example_world) + 2) req = Done (Inr ?r3)" for req
    by (simp_all add: example_env_def example_world_def)
  have ok: "StatusCode ?r1 = 200 \<and> failure (Body ?r1) = None"
      "StatusCode ?r2 = 200 \<and> failure (Body ?r2) = None"
      "StatusCode ?r3 = 200 \<and> failure (Body ?r3) = None"
    by (simp_all add: example_response_def bytes_NewReader_def)
  have dec: "DecodeRecords ?env (content (Body ?r1)) = Inr [34..<134]"
      "DecodeRecords ?env (content (Body ?r2)) = Inr [134..<234]"
      "DecodeRecords ?env (content (Body ?r3)) = Inr [40..<77]"
    by (simp_all add: example_response_def bytes_NewReader_def example_body_decodes
          del: upt_rec_numeral)
  have len: "length [34..<134 :: nat] = 100" "length [134..<234 :: nat] = 100"
      "length [40..<77 :: nat] = 37"
    by simp_all
  note t = GetAllRecords_three_pages [of ?env example_app ?f example_world ?r1 ?r2 ?r3
      "[34..<134]" "[134..<234]" "[40..<77]", OF new jar _ _ _ ok dec(1) len(1) dec(2) len(2)
      dec(3) len(3)]
  obtain app' q1 q2 q3 where res: "GetAllRecords ?env ?f (example_app, example_world)
        = Some (Inr ([34..<134] @ [134..<234] @ [40..<77]), app',
                example_world\<lparr>sent := sent example_world @ [q1, q2, q3]\<rparr>)"
     and q: "req_Body q1 = bytes_NewReader (json_Marshal ?env
               (Body_GetRecords (AppId example_app) ?f ''limit 100''))"
     "req_Body q2 = bytes_NewReader (json_Marshal ?env
               (Body_GetRecords (AppId example_app) ?f ''limit 100 offset 100''))"
     "req_Body q3 = bytes_NewReader (json_Marshal ?env
               (Body_GetRecords (AppId example_app) ?f ''limit 100 offset 200''))"
    using t srv by blast
  have bodies: "map (\<lambda>q. content (req_Body q))
        (sent (example_world\<lparr>sent := sent example_world @ [q1, q2, q3]\<rparr>))
      = [''limit 100'', ''limit 100 offset 100'', ''limit 100 offset 200'']"
    using q by (simp add: example_world_def example_env_def bytes_NewReader_def)
  show ?thesis
    by (subst res) (simp only: option.case prod.case bodies simp_thms)
qed


lemma example_page_undecodable:
  assumes "length (sent w) = n" and "n < length script"
    and "script ! n = Done (Inr (example_response ''200 OK'' 200 ''application/json''
                                   (bytes_NewReader d)))"
    and "CHR ''!'' \<in> set d"
  shows "\<exists>s'. GetAllRecords_page (example_env script) f recs (app, w)
           = (Inl ErrInvalidResponse, s') \<and> length (sent (snd s')) = Suc n"
  using assms
  by (simp add: GetAllRecords_page_def newRequest_def do_def parseResponse_def ioutil_ReadAll_def
        example_env_def example_response_def bytes_NewReader_def Let_def
        split: option.splits)

text \<open>
  C7. After any number \<open>n\<close> of passes that each fetched a full page, a pass that fails makes
  \<open>GetAllRecords\<close> return the error of that pass, and no records: the error of
  \<open>newRequest\<close>, the error of \<open>do\<close>, the error of \<open>parseResponse\<close>, or \<open>ErrInvalidResponse\<close>
  when \<open>DecodeRecords\<close> fails on the body.
\<close>

theorem GetAllRecords_aborts:
  assumes "full_pages env f n [] s = Some (recs, app, w)"
  shows "(\<forall>e s'. GetAllRecords_page env f recs (app, w) = (Inl e, s')
            \<longrightarrow> GetAllRecords env f s = Some (Inl e, s'))
     \<and> (\<forall>e app1.
           newRequest env ''GET'' ''records''
             (bytes_NewReader (json_Marshal env (Body_GetRecords (AppId app) f (page_query recs))))
             app = (Inl e, app1)
           \<longrightarrow> GetAllRecords env f s = Some (Inl e, app1, w))
     \<and> (\<forall>req app1 e s2.
           newRequest env ''GET'' ''records''
             (bytes_NewReader (json_Marshal env (Body_GetRecords (AppId app) f (page_query recs))))
             app = (Inr req, app1)
           \<and> do env req (app1, w) = (Inl e, s2)
           \<longrightarrow> GetAllRecords env f s = Some (Inl e, s2))
     \<and> (\<forall>req app1 resp e s2.
           newRequest env ''GET'' ''records''
             (bytes_NewReader (json_Marshal env (Body_GetRecords (AppId app) f (page_query recs))))
             app = (Inr req, app1)
           \<and> do env req (app1, w) = (Inr resp, s2)
           \<and> parseResponse env resp = Inl e
           \<longrightarrow> GetAllRecords env f s = Some (Inl e, s2))
     \<and> (\<forall>req app1 resp body x s2.
           newRequest env ''GET'' ''records''
             (bytes_NewReader (json_Marshal env (Body_GetRecords (AppId app) f (page_query recs))))
             app = (Inr req, app1)
           \<and> do env req (app1, w) = (Inr resp, s2)
           \<and> parseResponse env resp = Inr body
           \<and> DecodeRecords env body = Inl x
           \<longrightarrow> GetAllRecords env f s = Some (Inl ErrInvalidResponse, s2))"
proof -
  have go: "GetAllRecords env f s = GetAllRecords_loop env f recs (app, w)"
    using loop_full_pages [OF assms] by (simp add: GetAllRecords_def)
  have c0: "\<forall>e s'. GetAllRecords_page env f recs (app, w) = (Inl e, s')
            \<longrightarrow> GetAllRecords env f s = Some (Inl e, s')"
    by (simp add: go loop_error)
  have c1: "GetAllRecords env f s = Some (Inl e, app1, w)"
    if "newRequest env ''GET'' ''records''
             (bytes_NewReader (json_Marshal env (Body_GetRecords (AppId app) f (page_query recs))))
             app = (Inl e, app1)" for e app1
    using that by (simp add: go loop_error GetAllRecords_page_def)
  have c2: "GetAllRecords env f s = Some (Inl e, s2)"
    if "newRequest env ''GET'' ''records''
             (bytes_NewReader (json_Marshal env (Body_GetRecords (AppId app) f (page_query recs))))
             app = (Inr req, app1) \<and> do env req (app1, w) = (Inl e, s2)" for req app1 e s2
    using that by (simp add: go loop_error GetAllRecords_page_def)
  have c3: "GetAllRecords env f s = Some (Inl e, s2)"
    if "newRequest env ''GET'' ''records''
             (bytes_NewReader (json_Marshal env (Body_GetRecords (AppId app) f (page_query recs))))
             app = (Inr req, app1) \<and> do env req (app1, w) = (Inr resp, s2)
           \<and> parseResponse env resp = Inl e" for req app1 resp e s2
    using that by (simp add: go loop_error GetAllRecords_page_def)
  have c4: "GetAllRecords env f s = Some (Inl ErrInvalidResponse, s2)"
    if "newRequest env ''GET'' ''records''
             (bytes_NewReader (json_Marshal env (Body_GetRecords (AppId app) f (page_query recs))))
             app = (Inr req, app1) \<and> do env req (app1, w) = (Inr resp, s2)
           \<and> parseResponse env resp = Inr body \<and> DecodeRecords env body = Inl x"
    for req app1 resp body x s2
    using that by (simp add: go loop_error GetAllRecords_page_def)
  show ?thesis
    using c0 c1 c2 c3 c4 by blast
qed

theorem GetAllRecords_aborts_witness:
  "(case GetAllRecords
           (example_env
              [Done (Inr (example_response ''200 OK'' 200 ''application/json''
                            (bytes_NewReader (replicate 100 (CHR ''a''))))),
               Done (Inr (example_response ''200 OK'' 200 ''application/json''
                            (bytes_NewReader ''!'')))])
           None (example_app, example_world) of
      None \<Rightarrow> False
    | Some (r, app', w') \<Rightarrow> r = Inl ErrInvalidResponse \<and> length (sent w') = 2)"
proof -
  let ?script = "[Done (Inr (example_response ''200 OK'' 200 ''application/json''
                            (bytes_NewReader (replicate 100 (CHR ''a''))))),
               Done (Inr (example_response ''200 OK'' 200 ''application/json''
                            (bytes_NewReader ''!'')))]"
  let ?env = "example_env ?script"
  let ?f = "None :: string list option"
  obtain s1 where p1: "GetAllRecords_page ?env ?f [] (example_app, example_world)
      = (Inr (map byte (replicate 100 (CHR ''a''))), s1)"
    using example_page [of example_world 0 ?script "replicate 100 (CHR ''a'')" ?f "[]" example_app]
    by (auto simp: example_world_def)
  have l1: "length (sent (snd s1)) = 1"
    using page_request [OF p1] by (auto simp: example_world_def)
  have h: "full_pages ?env ?f (Suc 0) [] (example_app, example_world)
      = Some (map byte (replicate 100 (CHR ''a'')), fst s1, snd s1)"
    by (simp add: p1)
  obtain s2 where p2: "GetAllRecords_page ?env ?f (map byte (replicate 100 (CHR ''a'')))
      (fst s1, snd s1) = (Inl ErrInvalidResponse, s2)" and l2: "length (sent (snd s2)) = 2"
    using example_page_undecodable [of "snd s1" 1 ?script "''!''" ?f
        "map byte (replicate 100 (CHR ''a''))" "fst s1"] l1
    by auto
  have "GetAllRecords ?env ?f (example_app, example_world) = Some (Inl ErrInvalidResponse, s2)"
    using GetAllRecords_aborts [OF h] p2 by blast
  then show ?thesis
    using l2 by (cases s2) simp
qed

subsection \<open>What the calls change in the App\<close>

lemma side_effects_refl: "side_effects env app app"
  by (simp add: side_effects_def)

lemma DEFAULT_TIMEOUT_nonzero: "DEFAULT_TIMEOUT \<noteq> 0"
  by (simp add: DEFAULT_TIMEOUT_def)

lemma side_effects_trans:
  "side_effects env a b \<Longrightarrow> side_effects env b c \<Longrightarrow> side_effects env a c"
  unfolding side_effects_def
  using DEFAULT_TIMEOUT_nonzero EncodeToString_empty
  by (elim conjE disjE exE; simp; force)

lemma newRequest_side_effects: "side_effects env app (snd (newRequest env m a b app))"
  by (simp add: newRequest_app side_effects_def)

lemma do_app:
  "fst (snd (do env req (app, w))) =
     (case Client app of
        Some c \<Rightarrow> app\<lparr>Timeout := (if Timeout app = 0 then DEFAULT_TIMEOUT else Timeout app)\<rparr>
      | None \<Rightarrow>
          (case cookiejar_New env of
             Inl err \<Rightarrow> app
           | Inr j \<Rightarrow> app\<lparr>Client := Some \<lparr>Client_Jar = Some j, Transport = None\<rparr>,
                         Timeout := (if Timeout app = 0 then DEFAULT_TIMEOUT else Timeout app)\<rparr>))"
  by (simp add: do_def Let_def split: option.splits sum.splits outcome.splits)

lemma do_no_jar:
  "Client app = None \<Longrightarrow> cookiejar_New env = Inl e
    \<Longrightarrow> do env req (app, w) = (Inl (Other e), app, w)"
  by (simp add: do_def)

lemma do_side_effects: "side_effects env app (fst (snd (do env req (app, w))))"
  by (simp add: do_app side_effects_def split: option.splits sum.splits)

lemma round_trip_side_effects:
  "side_effects env app
     (fst (case newRequest env m a b app of
             (Inl err, app1) \<Rightarrow> (app1, w)
           | (Inr req, app1) \<Rightarrow> snd (do env (g req) (app1, w))))"
proof (cases "newRequest env m a b app")
  case (Pair r app1)
  have 1: "side_effects env app app1"
    using newRequest_side_effects [of env app m a b] Pair by simp
  show ?thesis
  proof (cases r)
    case (Inl err)
    then show ?thesis using Pair 1 by simp
  next
    case (Inr req)
    then show ?thesis
      using Pair side_effects_trans [OF 1 do_side_effects [of env app1 "g req" w]] by simp
  qed
qed

lemma GetRecord_state:
  "snd (GetRecord env rid (app, w)) =
     (case newRequest env ''GET'' ''record''
             (bytes_NewReader (json_Marshal env (Body_GetRecord (AppId app) rid))) app of
        (Inl err, app1) \<Rightarrow> (app1, w)
      | (Inr req, app1) \<Rightarrow> snd (do env req (app1, w)))"
  by (simp add: GetRecord_def Let_def split: prod.splits sum.splits)

lemma GetRecords_state:
  "snd (GetRecords env f query (app, w)) =
     (case newRequest env ''GET'' ''records''
             (bytes_NewReader (json_Marshal env (Body_GetRecords (AppId app) f query))) app of
        (Inl err, app1) \<Rightarrow> (app1, w)
      | (Inr req, app1) \<Rightarrow> snd (do env req (app1, w)))"
  by (simp add: GetRecords_def Let_def split: prod.splits sum.splits)

lemma GetAllRecords_page_state:
  "snd (GetAllRecords_page env f recs (app, w)) =
     (case newRequest env ''GET'' ''records''
             (bytes_NewReader (json_Marshal env (Body_GetRecords (AppId app) f (page_query recs))))
             app of
        (Inl err, app1) \<Rightarrow> (app1, w)
      | (Inr req, app1) \<Rightarrow> snd (do env req (app1, w)))"
  by (simp add: GetAllRecords_page_def Let_def split: prod.splits sum.splits)

lemma Download_state:
  "snd (Download env fileKey (app, w)) =
     (case newRequest env ''GET'' ''file''
             (bytes_NewReader (json_Marshal env (Body_Download fileKey))) app of
        (Inl err, app1) \<Rightarrow> (app1, w)
      | (Inr req, app1) \<Rightarrow> snd (do env req (app1, w)))"
  by (simp add: Download_def Let_def split: prod.splits sum.splits)

lemma AddRecord_state:
  "snd (AddRecord env r (app, w)) =
     (case newRequest env ''POST'' ''record''
             (bytes_NewReader (json_Marshal env (Body_AddRecord (AppId app) r))) app of
        (Inl err, app1) \<Rightarrow> (app1, w)
      | (Inr req, app1) \<Rightarrow> snd (do env req (app1, w)))"
  by (simp add: AddRecord_def Let_def split: prod.splits sum.splits option.splits)

lemma UpdateRecord_state:
  "snd (UpdateRecord env rid r (app, w)) =
     (case newRequest env ''PUT'' ''record''
             (bytes_NewReader (json_Marshal env (Body_UpdateRecord (AppId app) rid r))) app of
        (Inl err, app1) \<Rightarrow> (app1, w)
      | (Inr req, app1) \<Rightarrow> snd (do env req (app1, w)))"
  by (simp add: UpdateRecord_def Let_def split: prod.splits sum.splits)

lemma Fields_state:
  "snd (Fields env (app, w)) =
     (case newRequest env ''GET'' ''form''
             (bytes_NewReader (json_Marshal env (Body_Fields (AppId app)))) app of
        (Inl err, app1) \<Rightarrow> (app1, w)
      | (Inr req, app1) \<Rightarrow> snd (do env req (app1, w)))"
  by (simp add: Fields_def Let_def split: prod.splits sum.splits)

lemma Upload_side_effects:
  "side_effects env app (fst (snd (Upload env fileName contentType data (app, w))))"
proof (cases "ioutil_TempFile env")
  case (Some err)
  then show ?thesis by (simp add: Upload_def side_effects_refl)
next
  case None
  show ?thesis
  proof (cases "multipart_Write env
      (Header_Set (Header_Set [] ''Content-Disposition''
         (''form-data; name='' @ [CHR 0x22] @ ''file'' @ [CHR 0x22] @ ''; filename=''
            @ [CHR 0x22] @ escapeQuotes fileName @ [CHR 0x22])) ''Content-Type'' contentType) data")
    case (Inl err)
    then show ?thesis using None by (simp add: Upload_def Let_def side_effects_refl)
  next
    case (Inr p)
    obtain f ct where p: "p = (f, ct)" by (cases p)
    have "snd (Upload env fileName contentType data (app, w)) =
       (case newRequest env ''POST'' ''file'' (bytes_NewReader f) app of
          (Inl err, app1) \<Rightarrow> (app1, w)
        | (Inr req, app1) \<Rightarrow>
            snd (do env (req\<lparr>req_Header := Header_Set (req_Header req) ''Content-Type'' ct\<rparr>)
                   (app1, w)))"
      using None Inr p
      by (simp add: Upload_def Let_def split: prod.splits sum.splits option.splits)
    then show ?thesis
      using round_trip_side_effects [where env = env and app = app and w = w
          and g = "\<lambda>req. req\<lparr>req_Header := Header_Set (req_Header req) ''Content-Type'' ct\<rparr>"]
      by simp
  qed
qed

lemma GetAllRecords_loop_side_effects:
  assumes "GetAllRecords_loop env f recs s = Some y"
  shows "side_effects env (fst s) (fst (snd y))"
  using assms
proof (induction env f recs s y rule: GetAllRecords_loop.raw_induct)
  case (1 loop env f recs s y)
  obtain app w where s: "s = (app, w)" by (cases s)
  obtain r s' where pg: "GetAllRecords_page env f recs (app, w) = (r, s')"
    by (cases "GetAllRecords_page env f recs (app, w)")
  have e: "side_effects env app (fst s')"
    using GetAllRecords_page_state [of env f recs app w] pg
      round_trip_side_effects [where env = env and app = app and w = w and g = "\<lambda>q. q"]
    by simp
  show ?case
  proof (cases r)
    case (Inl err)
    then show ?thesis using 1(2) s pg e by auto
  next
    case (Inr page)
    show ?thesis
    proof (cases "length page < 100")
      case True
      then show ?thesis using 1(2) s pg e Inr by auto
    next
      case False
      then have "loop env f (recs @ page) s' = Some y"
        using 1(2) s pg Inr by simp
      moreover have "GetAllRecords_loop env f (recs @ page) s' = Some y"
        using 1(3) s pg Inr False loop_full [of env f recs "(app, w)" page s'] by simp
      ultimately have "side_effects env (fst s') (fst (snd y))"
        by (rule 1(1))
      then show ?thesis
        using side_effects_trans [OF e] s by simp
    qed
  qed
qed (rule assms)


text \<open>
  C10. \<open>do\<close> changes the App: a nil \<^verbatim>\<open>Client\<close> becomes a new client with the cookie jar of
  \<^verbatim>\<open>cookiejar.New\<close> and no transport, and a zero \<^verbatim>\<open>Timeout\<close> becomes \<open>DEFAULT_TIMEOUT\<close>, 600
  seconds; a client and a timeout that are set stay as they are, so the timeout stays at
  600 seconds in every later call. (Should \<^verbatim>\<open>cookiejar.New\<close> return an error, \<open>do\<close> returns
  it and leaves the App and the world as they were; the library function never does.)
  \<open>do\<close> leaves the token alone. \<open>newRequest\<close> and each of the eleven methods that send a
  request change at most \<^verbatim>\<open>Client\<close>, \<^verbatim>\<open>Timeout\<close> and the token, and these only in the way
  that \<open>side_effects\<close> describes; for \<open>GetAllRecords\<close> this holds whenever it returns.
\<close>

theorem do_side_effects_and_frame:
  "(case do env req (app, w) of
      (r, app', w') \<Rightarrow>
        side_effects env app app' \<and> token app' = token app
        \<and> (Client app \<noteq> None \<longrightarrow> Client app' = Client app)
        \<and> (Client app = None \<longrightarrow>
              (\<forall>j. cookiejar_New env = Inr j \<longrightarrow>
                 Client app' = Some \<lparr>Client_Jar = Some j, Transport = None\<rparr>)
              \<and> (\<forall>e. cookiejar_New env = Inl e \<longrightarrow> r = Inl (Other e) \<and> app' = app \<and> w' = w))
        \<and> (Timeout app = 0 \<and> (Client app \<noteq> None \<or> (\<exists>j. cookiejar_New env = Inr j))
              \<longrightarrow> Timeout app' = DEFAULT_TIMEOUT)
        \<and> (Timeout app \<noteq> 0 \<longrightarrow> Timeout app' = Timeout app))
   \<and> DEFAULT_TIMEOUT = 600 * 1000000000
   \<and> side_effects env app (snd (newRequest env m api body app))
   \<and> side_effects env app (fst (snd (GetRecord env rid (app, w))))
   \<and> side_effects env app (fst (snd (GetRecords env flds query (app, w))))
   \<and> (\<forall>r app' w'. GetAllRecords env flds (app, w) = Some (r, app', w')
          \<longrightarrow> side_effects env app app')
   \<and> side_effects env app (fst (snd (Download env fileKey (app, w))))
   \<and> side_effects env app (fst (snd (Upload env fileName contentType data (app, w))))
   \<and> side_effects env app (fst (snd (AddRecord env rec (app, w))))
   \<and> side_effects env app (fst (snd (AddRecords env recs (app, w))))
   \<and> side_effects env app (fst (snd (UpdateRecord env rid rec (app, w))))
   \<and> side_effects env app (fst (snd (UpdateRecords env urecs (app, w))))
   \<and> side_effects env app (fst (snd (DeleteRecords env ids (app, w))))
   \<and> side_effects env app (fst (snd (Fields env (app, w))))"
proof -
  obtain r app' w' where d: "do env req (app, w) = (r, app', w')"
    by (cases "do env req (app, w)")
  have a: "app' = fst (snd (do env req (app, w)))"
    using d by simp
  have d1: "side_effects env app app'"
    by (simp add: a do_side_effects)
  have d2: "token app' = token app"
    by (simp add: a do_app split: option.splits sum.splits)
  have d3: "Client app \<noteq> None \<longrightarrow> Client app' = Client app"
    by (auto simp: a do_app split: option.splits sum.splits)
  have d4: "Client app = None \<longrightarrow>
              (\<forall>j. cookiejar_New env = Inr j \<longrightarrow>
                 Client app' = Some \<lparr>Client_Jar = Some j, Transport = None\<rparr>)
              \<and> (\<forall>e. cookiejar_New env = Inl e \<longrightarrow> r = Inl (Other e) \<and> app' = app \<and> w' = w)"
    using d by (auto simp: a do_app do_no_jar)
  have d5: "Timeout app = 0 \<and> (Client app \<noteq> None \<or> (\<exists>j. cookiejar_New env = Inr j))
              \<longrightarrow> Timeout app' = DEFAULT_TIMEOUT"
    by (auto simp: a do_app split: option.splits sum.splits)
  have d6: "Timeout app \<noteq> 0 \<longrightarrow> Timeout app' = Timeout app"
    by (auto simp: a do_app split: option.splits sum.splits)
  have dflt: "DEFAULT_TIMEOUT = 600 * 1000000000"
    by (simp add: DEFAULT_TIMEOUT_def)
  note rt = round_trip_side_effects [where env = env and app = app and w = w and g = "\<lambda>q. q"]
  have o1: "side_effects env app (fst (snd (GetRecord env rid (app, w))))"
    using rt by (simp add: GetRecord_state)
  have o2: "side_effects env app (fst (snd (GetRecords env flds query (app, w))))"
    using rt by (simp add: GetRecords_state)
  have o3: "\<forall>r app' w'. GetAllRecords env flds (app, w) = Some (r, app', w')
          \<longrightarrow> side_effects env app app'"
    using GetAllRecords_loop_side_effects [of env flds "[]" "(app, w)"]
    by (auto simp: GetAllRecords_def)
  have o4: "side_effects env app (fst (snd (Download env fileKey (app, w))))"
    using rt by (simp add: Download_state)
  have o5: "side_effects env app (fst (snd (AddRecord env rec (app, w))))"
    using rt by (simp add: AddRecord_state)
  have o6: "side_effects env app (fst (snd (AddRecords env recs (app, w))))"
  proof (cases "length recs \<le> 100")
    case True
    then show ?thesis using rt by (simp add: AddRecords_state)
  next
    case False
    then show ?thesis by (simp add: AddRecords_def side_effects_refl)
  qed
  have o7: "side_effects env app (fst (snd (UpdateRecord env rid rec (app, w))))"
    using rt by (simp add: UpdateRecord_state)
  have o8: "side_effects env app (fst (snd (UpdateRecords env urecs (app, w))))"
  proof (cases "length urecs \<le> 100")
    case True
    then show ?thesis using rt by (simp add: UpdateRecords_state)
  next
    case False
    then show ?thesis by (simp add: UpdateRecords_def side_effects_refl)
  qed
  have o9: "side_effects env app (fst (snd (DeleteRecords env ids (app, w))))"
  proof (cases "length ids \<le> 100")
    case True
    then show ?thesis using rt by (simp add: DeleteRecords_state)
  next
    case False
    then show ?thesis by (simp add: DeleteRecords_def side_effects_refl)
  qed
  have o10: "side_effects env app (fst (snd (Fields env (app, w))))"
    using rt by (simp add: Fields_state)
  have n: "side_effects env app (snd (newRequest env m api body app))"
    by (rule newRequest_side_effects)
  have u: "side_effects env app (fst (snd (Upload env fileName contentType data (app, w))))"
    by (rule Upload_side_effects)
  show ?thesis
    unfolding d prod.case
    by (intro conjI) (rule d1 d2 d3 d4 d5 d6 dflt n o1 o2 o3 o4 u o5 o6 o7 o8 o9 o10)+
qed


theorem do_side_effects_and_frame_witness:
  "(case do (example_env [])
           \<lparr>Method = ''GET'', URL = ''https://example.cybozu.com/k/v1/record.json'',
            req_Header = [], req_Body = bytes_NewReader []\<rparr>
           (example_app, example_world) of
      (r, app', w') \<Rightarrow>
        Client app' = Some \<lparr>Client_Jar = Some (Jar 0), Transport = None\<rparr>
        \<and> Timeout app' = 600000000000
        \<and> token app' = []
        \<and> App_Domain app' = ''example.cybozu.com'' \<and> User app' = ''user''
        \<and> Password app' = ''password'' \<and> AppId app' = 7 \<and> \<not> basicAuth app')
   \<and> App_Domain (fst (snd (GetRecord (example_env []) 1 (example_app, example_world))))
       = ''example.cybozu.com''
   \<and> AppId (fst (snd (Fields (example_env []) (example_app, example_world)))) = 7"
proof -
  let ?req = "\<lparr>Method = ''GET'', URL = ''https://example.cybozu.com/k/v1/record.json'',
            req_Header = [], req_Body = bytes_NewReader []\<rparr>"
  obtain r app' w' where d: "do (example_env []) ?req (example_app, example_world) = (r, app', w')"
    by (cases "do (example_env []) ?req (example_app, example_world)")
  note t = do_side_effects_and_frame [where env = "example_env []" and req = ?req
      and app = example_app and w = example_world and rid = 1, unfolded d prod.case]
  have c: "Client app' = Some \<lparr>Client_Jar = Some (Jar 0), Transport = None\<rparr>"
    using t by (simp add: example_app_def example_env_def)
  have tm: "Timeout app' = 600000000000"
    using t by (simp add: example_app_def example_env_def)
  have tk: "token app' = []"
    using t by (simp add: example_app_def)
  have se: "side_effects (example_env []) example_app app'"
    using t by blast
  have g: "side_effects (example_env []) example_app
      (fst (snd (GetRecord (example_env []) 1 (example_app, example_world))))"
    using t by blast
  have f: "side_effects (example_env []) example_app
      (fst (snd (Fields (example_env []) (example_app, example_world))))"
    using t by blast
  have se': "App_Domain app' = ''example.cybozu.com'' \<and> User app' = ''user''
        \<and> Password app' = ''password'' \<and> AppId app' = 7 \<and> \<not> basicAuth app'"
    using se by (simp add: side_effects_def example_app_def)
  have g': "App_Domain (fst (snd (GetRecord (example_env []) 1 (example_app, example_world))))
       = ''example.cybozu.com''"
    using g by (simp add: side_effects_def example_app_def)
  have f': "AppId (fst (snd (Fields (example_env []) (example_app, example_world)))) = 7"
    using f by (simp add: side_effects_def example_app_def)
  show ?thesis
    using c tm tk se' g' f' by (simp add: d)
qed


text \<open>
  The three ways in which \<open>do\<close> ends once it has a client: with the response of
  \<^verbatim>\<open>Client.Do\<close>, with its error, or with \<open>ErrTimeout\<close> when the timer fires first; then the
  request is either cancelled or left to a goroutine that receives its result. How long
  the caller waits, and when that goroutine runs, is outside this model.
\<close>

lemma do_outcomes:
  assumes "Client app \<noteq> None \<or> (\<exists>j. cookiejar_New env = Inr j)"
  shows "(\<forall>resp. Client_Do env (length (sent w)) req = Done (Inr resp)
            \<longrightarrow> fst (do env req (app, w)) = Inr resp)
     \<and> (\<forall>err. Client_Do env (length (sent w)) req = Done (Inl err)
            \<longrightarrow> fst (do env req (app, w)) = Inl (Other err))
     \<and> (Client_Do env (length (sent w)) req = TimerFired
            \<longrightarrow> fst (do env req (app, w)) = Inl ErrTimeout
                \<and> (cancelled (snd (snd (do env req (app, w)))) = cancelled w @ [req]
                     \<and> drained (snd (snd (do env req (app, w)))) = drained w
                   \<or> cancelled (snd (snd (do env req (app, w)))) = cancelled w
                     \<and> drained (snd (snd (do env req (app, w)))) = drained w @ [req]))"
  using assms
  by (auto simp: do_def Let_def split: option.splits sum.splits)

subsection \<open>FieldInfo.UnmarshalJSON\<close>

text \<open>
  A key cannot select two fields: field names of ASCII letters that a key equals under
  folding are equal up to case.
\<close>

lemma byte_lower: "byte c < 128 \<Longrightarrow> byte (lower c) < 128"
  by (auto simp: lower_def byte_def)

lemma equalFold_unique:
  assumes "\<forall>c\<in>set f1. byte c < 128" and "\<forall>c\<in>set f2. byte c < 128"
    and "equalFold f1 k" and "equalFold f2 k"
  shows "map lower f1 = map lower f2"
  using assms
proof (induction f1 arbitrary: f2 k)
  case Nil
  then show ?case by (cases f2) auto
next
  case (Cons f fs)
  then obtain c cs where k: "k = c # cs"
    by (cases k) auto
  obtain g gs where f2: "f2 = g # gs"
    using Cons.prems k by (cases f2) auto
  have bf: "byte (lower f) < 128" and bg: "byte (lower g) < 128"
    using Cons.prems(1,2) f2 by (auto intro: byte_lower)
  consider (plain) "lower c = lower f" "equalFold fs cs"
    | (s) "lower c \<noteq> lower f" "lower f = CHR ''s''"
          "take 2 k = [char_of (197 :: nat), char_of (191 :: nat)]" "equalFold fs (drop 2 k)"
    | (kelvin) "lower c \<noteq> lower f" "lower f = CHR ''k''"
          "take 3 k = [char_of (226 :: nat), char_of (132 :: nat), char_of (170 :: nat)]"
          "equalFold fs (drop 3 k)"
    using Cons.prems(3) k by (auto split: if_splits)
  note f1_cases = this
  consider (plain2) "lower c = lower g" "equalFold gs cs"
    | (s2) "lower c \<noteq> lower g" "lower g = CHR ''s''"
          "take 2 k = [char_of (197 :: nat), char_of (191 :: nat)]" "equalFold gs (drop 2 k)"
    | (kelvin2) "lower c \<noteq> lower g" "lower g = CHR ''k''"
          "take 3 k = [char_of (226 :: nat), char_of (132 :: nat), char_of (170 :: nat)]"
          "equalFold gs (drop 3 k)"
    using Cons.prems(4) k f2 by (auto split: if_splits)
  note f2_cases = this
  have c197: "take 2 k = [char_of (197 :: nat), char_of (191 :: nat)] \<Longrightarrow> byte (lower c) = 197"
    using k by (auto simp: lower_def byte_def)
  have c226: "take 3 k = [char_of (226 :: nat), char_of (132 :: nat), char_of (170 :: nat)]
      \<Longrightarrow> byte (lower c) = 226"
    using k by (auto simp: lower_def byte_def)
  have tails: "\<forall>c\<in>set fs. byte c < 128" "\<forall>c\<in>set gs. byte c < 128"
    using Cons.prems(1,2) f2 by auto
  show ?case
  proof (cases rule: f1_cases)
    case plain
    show ?thesis
    proof (cases rule: f2_cases)
      case plain2
      then show ?thesis
        using plain Cons.IH [OF tails plain(2) plain2(2)] f2 by simp
    next
      case s2
      then show ?thesis using plain c197 bf by simp
    next
      case kelvin2
      then show ?thesis using plain c226 bf by simp
    qed
  next
    case s
    show ?thesis
    proof (cases rule: f2_cases)
      case plain2
      then show ?thesis using s c197 bg by simp
    next
      case s2
      then show ?thesis
        using s Cons.IH [OF tails s(4) s2(4)] f2 by simp
    next
      case kelvin2
      then show ?thesis using s c197 c226 by simp
    qed
  next
    case kelvin
    show ?thesis
    proof (cases rule: f2_cases)
      case plain2
      then show ?thesis using kelvin c226 bg by simp
    next
      case s2
      then show ?thesis using kelvin c197 c226 by simp
    next
      case kelvin2
      then show ?thesis
        using kelvin Cons.IH [OF tails kelvin(4) kelvin2(4)] f2 by simp
    qed
  qed
qed


lemma equalFold_exclusive:
  assumes "equalFold f1 k" and "map lower f1 \<noteq> map lower f2"
    and "\<forall>c\<in>set f1. byte c < 128" and "\<forall>c\<in>set f2. byte c < 128"
  shows "\<not> equalFold f2 k"
  using assms equalFold_unique by blast

lemma staging_field_label:
  assumes "equalFold ''label'' k"
  shows "staging_field env k v t =
     (case store_string v (t_Label t) of (bad, x) \<Rightarrow> (bad, t\<lparr>t_Label := x\<rparr>))"
  using assms by (simp add: staging_field_def del: equalFold.simps)

lemma staging_field_code:
  assumes "equalFold ''code'' k"
  shows "staging_field env k v t =
     (case store_string v (t_Code t) of (bad, x) \<Rightarrow> (bad, t\<lparr>t_Code := x\<rparr>))"
proof -
  have "\<not> equalFold f k"
    if "f \<in> {''label''}" for f
    using that equalFold_exclusive [OF assms, of f]
    by (auto simp: lower_def byte_def simp del: equalFold.simps)
  then show ?thesis
    using assms by (simp add: staging_field_def del: equalFold.simps)
qed

lemma staging_field_type:
  assumes "equalFold ''type'' k"
  shows "staging_field env k v t =
     (case store_string v (t_Type t) of (bad, x) \<Rightarrow> (bad, t\<lparr>t_Type := x\<rparr>))"
proof -
  have "\<not> equalFold f k"
    if "f \<in> {''label'', ''code''}" for f
    using that equalFold_exclusive [OF assms, of f]
    by (auto simp: lower_def byte_def simp del: equalFold.simps)
  then show ?thesis
    using assms by (simp add: staging_field_def del: equalFold.simps)
qed

lemma staging_field_noLabel:
  assumes "equalFold ''noLabel'' k"
  shows "staging_field env k v t =
     (case store_string v (t_NoLabel t) of (bad, x) \<Rightarrow> (bad, t\<lparr>t_NoLabel := x\<rparr>))"
proof -
  have "\<not> equalFold f k"
    if "f \<in> {''label'', ''code'', ''type''}" for f
    using that equalFold_exclusive [OF assms, of f]
    by (auto simp: lower_def byte_def simp del: equalFold.simps)
  then show ?thesis
    using assms by (simp add: staging_field_def del: equalFold.simps)
qed

lemma staging_field_required:
  assumes "equalFold ''required'' k"
  shows "staging_field env k v t =
     (case store_string v (t_Required t) of (bad, x) \<Rightarrow> (bad, t\<lparr>t_Required := x\<rparr>))"
proof -
  have "\<not> equalFold f k"
    if "f \<in> {''label'', ''code'', ''type'', ''noLabel''}" for f
    using that equalFold_exclusive [OF assms, of f]
    by (auto simp: lower_def byte_def simp del: equalFold.simps)
  then show ?thesis
    using assms by (simp add: staging_field_def del: equalFold.simps)
qed

lemma staging_field_unique:
  assumes "equalFold ''unique'' k"
  shows "staging_field env k v t =
     (case store_string v (t_Unique t) of (bad, x) \<Rightarrow> (bad, t\<lparr>t_Unique := x\<rparr>))"
proof -
  have "\<not> equalFold f k"
    if "f \<in> {''label'', ''code'', ''type'', ''noLabel'', ''required''}" for f
    using that equalFold_exclusive [OF assms, of f]
    by (auto simp: lower_def byte_def simp del: equalFold.simps)
  then show ?thesis
    using assms by (simp add: staging_field_def del: equalFold.simps)
qed

lemma staging_field_maxValue:
  assumes "equalFold ''maxValue'' k"
  shows "staging_field env k v t =
     (case json_interface env v of (bad, x) \<Rightarrow> (bad, t\<lparr>t_MaxValue := x\<rparr>))"
proof -
  have "\<not> equalFold f k"
    if "f \<in> {''label'', ''code'', ''type'', ''noLabel'', ''required'', ''unique''}" for f
    using that equalFold_exclusive [OF assms, of f]
    by (auto simp: lower_def byte_def simp del: equalFold.simps)
  then show ?thesis
    using assms by (simp add: staging_field_def del: equalFold.simps)
qed

lemma staging_field_minValue:
  assumes "equalFold ''minValue'' k"
  shows "staging_field env k v t =
     (case json_interface env v of (bad, x) \<Rightarrow> (bad, t\<lparr>t_MinValue := x\<rparr>))"
proof -
  have "\<not> equalFold f k"
    if "f \<in> {''label'', ''code'', ''type'', ''noLabel'', ''required'', ''unique'',
              ''maxValue''}" for f
    using that equalFold_exclusive [OF assms, of f]
    by (auto simp: lower_def byte_def simp del: equalFold.simps)
  then show ?thesis
    using assms by (simp add: staging_field_def del: equalFold.simps)
qed

lemma staging_field_maxLength:
  assumes "equalFold ''maxLength'' k"
  shows "staging_field env k v t =
     (case json_interface env v of (bad, x) \<Rightarrow> (bad, t\<lparr>t_MaxLength := x\<rparr>))"
proof -
  have "\<not> equalFold f k"
    if "f \<in> {''label'', ''code'', ''type'', ''noLabel'', ''required'', ''unique'',
              ''maxValue'', ''minValue''}" for f
    using that equalFold_exclusive [OF assms, of f]
    by (auto simp: lower_def byte_def simp del: equalFold.simps)
  then show ?thesis
    using assms by (simp add: staging_field_def del: equalFold.simps)
qed

lemma staging_field_minLength:
  assumes "equalFold ''minLength'' k"
  shows "staging_field env k v t =
     (case json_interface env v of (bad, x) \<Rightarrow> (bad, t\<lparr>t_MinLength := x\<rparr>))"
proof -
  have "\<not> equalFold f k"
    if "f \<in> {''label'', ''code'', ''type'', ''noLabel'', ''required'', ''unique'',
              ''maxValue'', ''minValue'', ''maxLength''}" for f
    using that equalFold_exclusive [OF assms, of f]
    by (auto simp: lower_def byte_def simp del: equalFold.simps)
  then show ?thesis
    using assms by (simp add: staging_field_def del: equalFold.simps)
qed

lemma staging_field_defaultValue:
  assumes "equalFold ''defaultValue'' k"
  shows "staging_field env k v t =
     (case json_interface env v of (bad, x) \<Rightarrow> (bad, t\<lparr>t_Default := x\<rparr>))"
proof -
  have "\<not> equalFold f k"
    if "f \<in> {''label'', ''code'', ''type'', ''noLabel'', ''required'', ''unique'',
              ''maxValue'', ''minValue'', ''maxLength'', ''minLength''}" for f
    using that equalFold_exclusive [OF assms, of f]
    by (auto simp: lower_def byte_def simp del: equalFold.simps)
  then show ?thesis
    using assms by (simp add: staging_field_def del: equalFold.simps)
qed

lemma staging_field_defaultExpression:
  assumes "equalFold ''defaultExpression'' k"
  shows "staging_field env k v t =
     (case json_interface env v of (bad, x) \<Rightarrow> (bad, t\<lparr>t_DefaultTime := x\<rparr>))"
proof -
  have "\<not> equalFold f k"
    if "f \<in> {''label'', ''code'', ''type'', ''noLabel'', ''required'', ''unique'',
              ''maxValue'', ''minValue'', ''maxLength'', ''minLength'', ''defaultValue''}" for
              f
    using that equalFold_exclusive [OF assms, of f]
    by (auto simp: lower_def byte_def simp del: equalFold.simps)
  then show ?thesis
    using assms by (simp add: staging_field_def del: equalFold.simps)
qed

lemma staging_field_options:
  assumes "equalFold ''options'' k"
  shows "staging_field env k v t =
     (case json_strings env v (t_Options t) of (bad, x) \<Rightarrow> (bad, t\<lparr>t_Options := x\<rparr>))"
proof -
  have "\<not> equalFold f k"
    if "f \<in> {''label'', ''code'', ''type'', ''noLabel'', ''required'', ''unique'',
              ''maxValue'', ''minValue'', ''maxLength'', ''minLength'', ''defaultValue'',
              ''defaultExpression''}" for f
    using that equalFold_exclusive [OF assms, of f]
    by (auto simp: lower_def byte_def simp del: equalFold.simps)
  then show ?thesis
    using assms by (simp add: staging_field_def del: equalFold.simps)
qed

lemma staging_field_expression:
  assumes "equalFold ''expression'' k"
  shows "staging_field env k v t =
     (case store_string v (t_Expression t) of (bad, x) \<Rightarrow> (bad, t\<lparr>t_Expression := x\<rparr>))"
proof -
  have "\<not> equalFold f k"
    if "f \<in> {''label'', ''code'', ''type'', ''noLabel'', ''required'', ''unique'',
              ''maxValue'', ''minValue'', ''maxLength'', ''minLength'', ''defaultValue'',
              ''defaultExpression'', ''options''}" for f
    using that equalFold_exclusive [OF assms, of f]
    by (auto simp: lower_def byte_def simp del: equalFold.simps)
  then show ?thesis
    using assms by (simp add: staging_field_def del: equalFold.simps)
qed

lemma staging_field_digit:
  assumes "equalFold ''digit'' k"
  shows "staging_field env k v t =
     (case store_string v (t_Separator t) of (bad, x) \<Rightarrow> (bad, t\<lparr>t_Separator := x\<rparr>))"
proof -
  have "\<not> equalFold f k"
    if "f \<in> {''label'', ''code'', ''type'', ''noLabel'', ''required'', ''unique'',
              ''maxValue'', ''minValue'', ''maxLength'', ''minLength'', ''defaultValue'',
              ''defaultExpression'', ''options'', ''expression''}" for f
    using that equalFold_exclusive [OF assms, of f]
    by (auto simp: lower_def byte_def simp del: equalFold.simps)
  then show ?thesis
    using assms by (simp add: staging_field_def del: equalFold.simps)
qed

lemma staging_field_protocol:
  assumes "equalFold ''protocol'' k"
  shows "staging_field env k v t =
     (case store_string v (t_Medium t) of (bad, x) \<Rightarrow> (bad, t\<lparr>t_Medium := x\<rparr>))"
proof -
  have "\<not> equalFold f k"
    if "f \<in> {''label'', ''code'', ''type'', ''noLabel'', ''required'', ''unique'',
              ''maxValue'', ''minValue'', ''maxLength'', ''minLength'', ''defaultValue'',
              ''defaultExpression'', ''options'', ''expression'', ''digit''}" for f
    using that equalFold_exclusive [OF assms, of f]
    by (auto simp: lower_def byte_def simp del: equalFold.simps)
  then show ?thesis
    using assms by (simp add: staging_field_def del: equalFold.simps)
qed

lemma staging_field_format:
  assumes "equalFold ''format'' k"
  shows "staging_field env k v t =
     (case store_string v (t_Format t) of (bad, x) \<Rightarrow> (bad, t\<lparr>t_Format := x\<rparr>))"
proof -
  have "\<not> equalFold f k"
    if "f \<in> {''label'', ''code'', ''type'', ''noLabel'', ''required'', ''unique'',
              ''maxValue'', ''minValue'', ''maxLength'', ''minLength'', ''defaultValue'',
              ''defaultExpression'', ''options'', ''expression'', ''digit'', ''protocol''}"
              for f
    using that equalFold_exclusive [OF assms, of f]
    by (auto simp: lower_def byte_def simp del: equalFold.simps)
  then show ?thesis
    using assms by (simp add: staging_field_def del: equalFold.simps)
qed

lemma staging_field_others:
  "\<not> equalFold ''label'' k \<Longrightarrow> t_Label (snd (staging_field env k v t)) = t_Label t"
  "\<not> equalFold ''code'' k \<Longrightarrow> t_Code (snd (staging_field env k v t)) = t_Code t"
  "\<not> equalFold ''type'' k \<Longrightarrow> t_Type (snd (staging_field env k v t)) = t_Type t"
  "\<not> equalFold ''noLabel'' k \<Longrightarrow> t_NoLabel (snd (staging_field env k v t)) = t_NoLabel t"
  "\<not> equalFold ''required'' k \<Longrightarrow> t_Required (snd (staging_field env k v t)) = t_Required t"
  "\<not> equalFold ''unique'' k \<Longrightarrow> t_Unique (snd (staging_field env k v t)) = t_Unique t"
  "\<not> equalFold ''maxValue'' k \<Longrightarrow> t_MaxValue (snd (staging_field env k v t)) = t_MaxValue t"
  "\<not> equalFold ''minValue'' k \<Longrightarrow> t_MinValue (snd (staging_field env k v t)) = t_MinValue t"
  "\<not> equalFold ''maxLength'' k \<Longrightarrow> t_MaxLength (snd (staging_field env k v t)) = t_MaxLength t"
  "\<not> equalFold ''minLength'' k \<Longrightarrow> t_MinLength (snd (staging_field env k v t)) = t_MinLength t"
  "\<not> equalFold ''defaultValue'' k \<Longrightarrow> t_Default (snd (staging_field env k v t)) = t_Default t"
  "\<not> equalFold ''defaultExpression'' k \<Longrightarrow> t_DefaultTime (snd (staging_field env k v t)) = t_DefaultTime t"
  "\<not> equalFold ''options'' k \<Longrightarrow> t_Options (snd (staging_field env k v t)) = t_Options t"
  "\<not> equalFold ''expression'' k \<Longrightarrow> t_Expression (snd (staging_field env k v t)) = t_Expression t"
  "\<not> equalFold ''digit'' k \<Longrightarrow> t_Separator (snd (staging_field env k v t)) = t_Separator t"
  "\<not> equalFold ''protocol'' k \<Longrightarrow> t_Medium (snd (staging_field env k v t)) = t_Medium t"
  "\<not> equalFold ''format'' k \<Longrightarrow> t_Format (snd (staging_field env k v t)) = t_Format t"
  by (simp_all add: staging_field_def case_prod_unfold del: equalFold.simps)

lemma store_string_fst: "fst (store_string v old) \<longleftrightarrow> v \<noteq> JNull \<and> (\<forall>x. v \<noteq> JString x)"
  by (cases v) simp_all

lemma foldl_store_string:
  "foldl (\<lambda>a v. snd (store_string v a)) d vs =
     (let xs = [x. JString x \<leftarrow> vs] in if xs = [] then d else last xs)"
proof (induction vs rule: rev_induct)
  case Nil
  then show ?case by simp
next
  case (snoc v vs)
  then show ?case by (cases v) (simp_all add: Let_def)
qed

lemma foldl_json_interface:
  "foldl (\<lambda>a v. snd (json_interface env v)) d vs =
     (if vs = [] then d else snd (json_interface env (last vs)))"
  by (induction vs rule: rev_induct) simp_all

lemma decode_object_field:
  assumes "\<And>k v t. P k \<Longrightarrow> g (snd (f k v t)) = h v (g t)"
    and "\<And>k v t. \<not> P k \<Longrightarrow> g (snd (f k v t)) = g t"
  shows "g (snd (decode_object f kvs t))
     = foldl (\<lambda>a v. h v a) (g t) (map snd (filter (\<lambda>(k, v). P k) kvs))"
proof (induction kvs arbitrary: t)
  case Nil
  then show ?case by simp
next
  case (Cons kv kvs)
  obtain k v where kv: "kv = (k, v)" by (cases kv)
  show ?case
    using Cons [of "snd (f k v t)"] assms [of k v t] kv
    by (cases "P k") (simp_all add: case_prod_unfold)
qed

lemma decode_object_bad:
  assumes "(k, v) \<in> set kvs" and "\<And>t. fst (f k v t)"
  shows "fst (decode_object f kvs t)"
  using assms(1)
proof (induction kvs arbitrary: t)
  case Nil
  then show ?case by simp
next
  case (Cons kv kvs)
  obtain k' v' where kv: "kv = (k', v')" by (cases kv)
  show ?case
  proof (cases "(k, v) = kv")
    case True
    then show ?thesis
      using assms(2) [of t] kv by (simp add: case_prod_unfold)
  next
    case False
    then have "(k, v) \<in> set kvs"
      using Cons.prems by simp
    then show ?thesis
      using Cons.IH kv by (simp add: case_prod_unfold)
  qed
qed

lemma decode_object_good:
  assumes "\<And>k v t. (k, v) \<in> set kvs \<Longrightarrow> \<not> fst (f k v t)"
  shows "\<not> fst (decode_object f kvs t)"
  using assms
proof (induction kvs arbitrary: t)
  case Nil
  then show ?case by simp
next
  case (Cons kv kvs)
  obtain k v where kv: "kv = (k, v)" by (cases kv)
  have "\<not> fst (f k v t)"
    using Cons.prems [of k v t] kv by simp
  moreover have "\<not> fst (decode_object f kvs (snd (f k v t)))"
    using Cons.IH Cons.prems by simp
  ultimately show ?case
    using kv by (simp add: case_prod_unfold)
qed

lemma staging_field_string_error:
  assumes "nm \<in> set string_attributes" and "equalFold nm k"
  shows "fst (staging_field env k v t) \<longleftrightarrow> v \<noteq> JNull \<and> (\<forall>x. v \<noteq> JString x)"
proof -
  have "fst (staging_field env k v t) = fst (store_string v [])"
    using assms
    by (auto simp: string_attributes_def staging_field_label staging_field_code
          staging_field_type staging_field_noLabel staging_field_required staging_field_unique
          staging_field_expression staging_field_digit staging_field_protocol
          staging_field_format case_prod_unfold store_string_fst
        simp del: equalFold.simps)
  then show ?thesis
    by (simp add: store_string_fst)
qed

lemma staging_field_interface_error:
  assumes "nm \<in> set interface_attributes" and "equalFold nm k"
  shows "fst (staging_field env k v t) = fst (json_interface env v)"
  using assms
  by (auto simp: interface_attributes_def staging_field_maxValue staging_field_minValue
        staging_field_maxLength staging_field_minLength staging_field_defaultValue
        staging_field_defaultExpression case_prod_unfold
      simp del: equalFold.simps)

lemma staging_field_options_error:
  assumes "equalFold ''options'' k"
  shows "fst (staging_field env k v t) = fst (json_strings env v (t_Options t))"
  using assms by (simp add: staging_field_options case_prod_unfold del: equalFold.simps)

lemma staging_field_unnamed:
  assumes "\<forall>nm\<in>set string_attributes. \<not> equalFold nm k"
    and "\<forall>nm\<in>set interface_attributes. \<not> equalFold nm k"
    and "\<not> equalFold ''options'' k"
  shows "staging_field env k v t = (False, t)"
  using assms
  by (simp add: staging_field_def string_attributes_def interface_attributes_def
        del: equalFold.simps)

lemma staging_field_accepts:
  assumes "\<forall>nm\<in>set string_attributes. equalFold nm k \<longrightarrow> v = JNull \<or> (\<exists>x. v = JString x)"
    and "\<forall>nm\<in>set interface_attributes. equalFold nm k \<longrightarrow> \<not> fst (json_interface env v)"
    and "equalFold ''options'' k \<longrightarrow> (\<forall>old. \<not> fst (json_strings env v old))"
  shows "\<not> fst (staging_field env k v t)"
proof -
  consider (s) nm where "nm \<in> set string_attributes" "equalFold nm k"
    | (i) nm where "nm \<in> set interface_attributes" "equalFold nm k"
    | (opts) "equalFold ''options'' k"
    | (none) "\<forall>nm\<in>set string_attributes. \<not> equalFold nm k"
        "\<forall>nm\<in>set interface_attributes. \<not> equalFold nm k" "\<not> equalFold ''options'' k"
    by blast
  then show ?thesis
  proof cases
    case s
    then show ?thesis
      using assms(1) staging_field_string_error [OF s, of env v t] by blast
  next
    case i
    then show ?thesis
      using assms(2) staging_field_interface_error [OF i, of env v t] by blast
  next
    case opts
    then show ?thesis
      using assms(3) staging_field_options_error [OF opts, of env v t] by blast
  next
    case none
    then show ?thesis
      by (simp add: staging_field_unnamed del: equalFold.simps)
  qed
qed

lemma staging_string_attribute:
  assumes hit: "\<And>k v t. equalFold nm k \<Longrightarrow> g (snd (staging_field env k v t)) = snd (store_string v (g t))"
    and miss: "\<And>k v t. \<not> equalFold nm k \<Longrightarrow> g (snd (staging_field env k v t)) = g t"
    and zero: "g staging_zero = []"
  shows "g (snd (decode_object (staging_field env) kvs staging_zero)) = string_attribute nm kvs"
  using decode_object_field [of "equalFold nm" g "staging_field env" "\<lambda>v a. snd (store_string v a)"
      kvs staging_zero, OF hit miss] zero
  by (simp add: foldl_store_string string_attribute_def values_named_def del: equalFold.simps)

lemma staging_interface_attribute:
  assumes hit: "\<And>k v t. equalFold nm k \<Longrightarrow> g (snd (staging_field env k v t)) = snd (json_interface env v)"
    and miss: "\<And>k v t. \<not> equalFold nm k \<Longrightarrow> g (snd (staging_field env k v t)) = g t"
    and zero: "g staging_zero = None"
  shows "g (snd (decode_object (staging_field env) kvs staging_zero))
           = interface_attribute env nm kvs"
  using decode_object_field [of "equalFold nm" g "staging_field env"
      "\<lambda>v a. snd (json_interface env v)" kvs staging_zero, OF hit miss] zero
  by (simp add: foldl_json_interface interface_attribute_def values_named_def Let_def
        del: equalFold.simps)

lemma staging_options_attribute:
  "t_Options (snd (decode_object (staging_field env) kvs staging_zero)) = options_attribute env kvs"
proof -
  have hit: "\<And>k v t. equalFold ''options'' k
      \<Longrightarrow> t_Options (snd (staging_field env k v t)) = snd (json_strings env v (t_Options t))"
    by (simp add: staging_field_options case_prod_unfold del: equalFold.simps)
  have miss: "\<And>k v t. \<not> equalFold ''options'' k
      \<Longrightarrow> t_Options (snd (staging_field env k v t)) = t_Options t"
    by (simp add: staging_field_others del: equalFold.simps)
  show ?thesis
    using decode_object_field [of "equalFold ''options''" t_Options "staging_field env"
        "\<lambda>v a. snd (json_strings env v a)" kvs staging_zero, OF hit miss]
    by (simp add: options_attribute_def values_named_def staging_zero_def del: equalFold.simps)
qed

lemma staging_attributes:
  "t_Label (snd (decode_object (staging_field env) kvs staging_zero))
     = string_attribute ''label'' kvs"
  "t_Code (snd (decode_object (staging_field env) kvs staging_zero))
     = string_attribute ''code'' kvs"
  "t_Type (snd (decode_object (staging_field env) kvs staging_zero))
     = string_attribute ''type'' kvs"
  "t_NoLabel (snd (decode_object (staging_field env) kvs staging_zero))
     = string_attribute ''noLabel'' kvs"
  "t_Required (snd (decode_object (staging_field env) kvs staging_zero))
     = string_attribute ''required'' kvs"
  "t_Unique (snd (decode_object (staging_field env) kvs staging_zero))
     = string_attribute ''unique'' kvs"
  "t_MaxValue (snd (decode_object (staging_field env) kvs staging_zero))
     = interface_attribute env ''maxValue'' kvs"
  "t_MinValue (snd (decode_object (staging_field env) kvs staging_zero))
     = interface_attribute env ''minValue'' kvs"
  "t_MaxLength (snd (decode_object (staging_field env) kvs staging_zero))
     = interface_attribute env ''maxLength'' kvs"
  "t_MinLength (snd (decode_object (staging_field env) kvs staging_zero))
     = interface_attribute env ''minLength'' kvs"
  "t_Default (snd (decode_object (staging_field env) kvs staging_zero))
     = interface_attribute env ''defaultValue'' kvs"
  "t_DefaultTime (snd (decode_object (staging_field env) kvs staging_zero))
     = interface_attribute env ''defaultExpression'' kvs"
  "t_Options (snd (decode_object (staging_field env) kvs staging_zero))
     = options_attribute env kvs"
  "t_Expression (snd (decode_object (staging_field env) kvs staging_zero))
     = string_attribute ''expression'' kvs"
  "t_Separator (snd (decode_object (staging_field env) kvs staging_zero))
     = string_attribute ''digit'' kvs"
  "t_Medium (snd (decode_object (staging_field env) kvs staging_zero))
     = string_attribute ''protocol'' kvs"
  "t_Format (snd (decode_object (staging_field env) kvs staging_zero))
     = string_attribute ''format'' kvs"
  by (rule staging_string_attribute staging_interface_attribute staging_options_attribute;
      simp add: staging_field_label staging_field_code staging_field_type staging_field_noLabel
        staging_field_required staging_field_unique staging_field_maxValue
        staging_field_minValue staging_field_maxLength staging_field_minLength
        staging_field_defaultValue staging_field_defaultExpression staging_field_expression
        staging_field_digit staging_field_protocol staging_field_format staging_field_others
        case_prod_unfold staging_zero_def
      del: equalFold.simps)+

lemma string_attribute_absent:
  "\<forall>(k, v)\<in>set kvs. \<not> equalFold nm k \<Longrightarrow> string_attribute nm kvs = []"
proof -
  assume "\<forall>(k, v)\<in>set kvs. \<not> equalFold nm k"
  then have "filter (\<lambda>(k, v). equalFold nm k) kvs = []"
    by (auto simp: filter_empty_conv simp del: equalFold.simps)
  then show ?thesis
    by (simp add: string_attribute_def values_named_def del: equalFold.simps)
qed

lemma string_attribute_last:
  assumes "equalFold nm k" and "\<forall>(k', v)\<in>set post. \<not> equalFold nm k'"
  shows "string_attribute nm (pre @ (k, JString x) # post) = x"
proof -
  have "filter (\<lambda>(k, v). equalFold nm k) post = []"
    using assms(2) by (auto simp: filter_empty_conv simp del: equalFold.simps)
  then show ?thesis
    using assms(1) by (simp add: string_attribute_def values_named_def Let_def del: equalFold.simps)
qed

lemma FieldInfo_UnmarshalJSON_error:
  "FieldInfo_UnmarshalJSON env data fi = (Some err, fi') \<Longrightarrow> fi' = fi"
  by (auto simp: FieldInfo_UnmarshalJSON_def split: prod.splits option.splits)

lemma FieldInfo_UnmarshalJSON_fst:
  "fst (FieldInfo_UnmarshalJSON env data fi)
     = fst (json_Unmarshal (staging_field env) data staging_zero)"
  by (auto simp: FieldInfo_UnmarshalJSON_def split: prod.splits option.splits)

lemma Unmarshal_object_error:
  assumes "json_parse data = Some (JObject kvs)"
  shows "fst (json_Unmarshal f data st) = None \<longleftrightarrow> \<not> fst (decode_object f kvs st)"
  using assms by (simp add: json_Unmarshal_def split: prod.splits)

lemma FieldInfo_UnmarshalJSON_null:
  assumes "json_parse data = Some JNull"
  shows "FieldInfo_UnmarshalJSON env data fi = (None, FieldInfo_zero)"
  using assms
  by (simp add: FieldInfo_UnmarshalJSON_def json_Unmarshal_def staging_zero_def FieldInfo_zero_def)

lemma FieldInfo_UnmarshalJSON_object:
  assumes "json_parse data = Some (JObject kvs)"
    and "FieldInfo_UnmarshalJSON env data fi = (None, fi')"
  shows "fi' =
     \<lparr>Label = string_attribute ''label'' kvs, Code = string_attribute ''code'' kvs,
      Type = string_attribute ''type'' kvs,
      NoLabel = (string_attribute ''noLabel'' kvs = ''true''),
      Required = (string_attribute ''required'' kvs = ''true''),
      Unique = (string_attribute ''unique'' kvs = ''true''),
      MaxValue = interface_attribute env ''maxValue'' kvs,
      MinValue = interface_attribute env ''minValue'' kvs,
      MaxLength = interface_attribute env ''maxLength'' kvs,
      MinLength = interface_attribute env ''minLength'' kvs,
      Default = interface_attribute env ''defaultValue'' kvs,
      DefaultTime = interface_attribute env ''defaultExpression'' kvs,
      Options = options_attribute env kvs,
      Expression = string_attribute ''expression'' kvs,
      Separator = (string_attribute ''digit'' kvs = ''true''),
      Medium = string_attribute ''protocol'' kvs, Format = string_attribute ''format'' kvs\<rparr>"
proof -
  have t: "snd (json_Unmarshal (staging_field env) data staging_zero)
      = snd (decode_object (staging_field env) kvs staging_zero)"
    using assms(1) by (rule Unmarshal_object)
  obtain e t' where u: "json_Unmarshal (staging_field env) data staging_zero = (e, t')"
    by (cases "json_Unmarshal (staging_field env) data staging_zero")
  then have t': "t' = snd (decode_object (staging_field env) kvs staging_zero)"
    using t by simp
  have "e = None"
    using assms(2) u by (auto simp: FieldInfo_UnmarshalJSON_def split: option.splits)
  then show ?thesis
    using assms(2) u
    by (simp add: FieldInfo_UnmarshalJSON_def t' staging_attributes del: equalFold.simps)
qed

text \<open>
  C8, as stated, fails for the payload \<^verbatim>\<open>{"required":"true","label":5}\<close>: the number is no
  value for the string field \<^verbatim>\<open>Label\<close> of the staging struct, \<^verbatim>\<open>json.Unmarshal\<close> returns an
  error, and \<open>UnmarshalJSON\<close> returns it before it assigns anything, so that \<^verbatim>\<open>Required\<close> is
  not true although \<^verbatim>\<open>required\<close> is the string \<^verbatim>\<open>true\<close>. In the same way, for
  \<^verbatim>\<open>{"required":true}\<close> the flag \<^verbatim>\<open>Required\<close> of a \<^verbatim>\<open>FieldInfo\<close> that was true stays true.
\<close>

theorem FieldInfo_UnmarshalJSON_rejects:
  "json_parse mistyped_field_payload
     = Some (JObject [(''required'', JString ''true''), (''label'', JNumber ''5'')])
   \<and> FieldInfo_UnmarshalJSON (example_env []) mistyped_field_payload FieldInfo_zero
       = (Some ''json: cannot unmarshal value into field'', FieldInfo_zero)
   \<and> \<not> Required (snd (FieldInfo_UnmarshalJSON (example_env []) mistyped_field_payload
                          FieldInfo_zero))
   \<and> json_parse boolean_field_payload = Some (JObject [(''required'', JBool True)])
   \<and> FieldInfo_UnmarshalJSON (example_env []) boolean_field_payload
         (FieldInfo_zero\<lparr>Required := True\<rparr>)
       = (Some ''json: cannot unmarshal value into field'', FieldInfo_zero\<lparr>Required := True\<rparr>)
   \<and> Required (snd (FieldInfo_UnmarshalJSON (example_env []) boolean_field_payload
                        (FieldInfo_zero\<lparr>Required := True\<rparr>)))"
  by code_simp

text \<open>
  C8, amended. \<open>UnmarshalJSON\<close> assigns nothing when it returns an error. It returns an
  error for a payload that is not a JSON text and for a JSON value that is neither an
  object nor \<^verbatim>\<open>null\<close>; for \<^verbatim>\<open>null\<close> it assigns the zero \<^verbatim>\<open>FieldInfo\<close>. For an object:
  \<^item> it returns an error if a member named by a string-typed attribute (\<^verbatim>\<open>noLabel\<close>,
    \<^verbatim>\<open>required\<close>, \<^verbatim>\<open>unique\<close> and \<^verbatim>\<open>digit\<close> among them) has a value that is neither a string nor
    \<^verbatim>\<open>null\<close>, or if the library rejects the value of a member named by another attribute;
  \<^item> it returns no error if every member named by a string-typed attribute has a string
    or \<^verbatim>\<open>null\<close> as its value, and the library accepts the values of the members named by
    the other attributes;
  \<^item> when it returns no error, the \<^verbatim>\<open>FieldInfo\<close> that it assigns is given by the payload:
    each of \<^verbatim>\<open>NoLabel\<close>, \<^verbatim>\<open>Required\<close>, \<^verbatim>\<open>Unique\<close> and \<^verbatim>\<open>Separator\<close> is true exactly when its
    attribute is the string \<^verbatim>\<open>true\<close> (so it is false for the string \<^verbatim>\<open>false\<close>, for every
    other string, for \<^verbatim>\<open>null\<close> and for an attribute that the payload does not have), and
    each of the thirteen other fields is its attribute of the payload.
\<close>

theorem FieldInfo_UnmarshalJSON_flags:
  "(\<forall>err fi'. FieldInfo_UnmarshalJSON env data fi = (Some err, fi') \<longrightarrow> fi' = fi)
   \<and> (json_parse data = None \<longrightarrow> fst (FieldInfo_UnmarshalJSON env data fi) \<noteq> None)
   \<and> (\<forall>v. json_parse data = Some v \<and> v \<noteq> JNull \<and> (\<forall>kvs. v \<noteq> JObject kvs)
          \<longrightarrow> fst (FieldInfo_UnmarshalJSON env data fi) \<noteq> None)
   \<and> (json_parse data = Some JNull
          \<longrightarrow> FieldInfo_UnmarshalJSON env data fi = (None, FieldInfo_zero))
   \<and> (\<forall>kvs. json_parse data = Some (JObject kvs) \<longrightarrow>
         (\<forall>k v. (k, v) \<in> set kvs
              \<and> ((\<exists>nm\<in>set string_attributes. equalFold nm k)
                     \<and> v \<noteq> JNull \<and> (\<forall>x. v \<noteq> JString x)
                   \<or> (\<exists>nm\<in>set interface_attributes. equalFold nm k)
                     \<and> fst (json_interface env v)
                   \<or> equalFold ''options'' k \<and> (\<forall>old. fst (json_strings env v old)))
              \<longrightarrow> fst (FieldInfo_UnmarshalJSON env data fi) \<noteq> None)
         \<and> ((\<forall>(k, v)\<in>set kvs.
               (\<forall>nm\<in>set string_attributes.
                   equalFold nm k \<longrightarrow> v = JNull \<or> (\<exists>x. v = JString x))
               \<and> (\<forall>nm\<in>set interface_attributes.
                      equalFold nm k \<longrightarrow> \<not> fst (json_interface env v))
               \<and> (equalFold ''options'' k \<longrightarrow> (\<forall>old. \<not> fst (json_strings env v old))))
              \<longrightarrow> fst (FieldInfo_UnmarshalJSON env data fi) = None)
         \<and> (\<forall>fi'. FieldInfo_UnmarshalJSON env data fi = (None, fi') \<longrightarrow>
               fi' =
                 \<lparr>Label = string_attribute ''label'' kvs, Code = string_attribute ''code'' kvs,
                  Type = string_attribute ''type'' kvs,
                  NoLabel = (string_attribute ''noLabel'' kvs = ''true''),
                  Required = (string_attribute ''required'' kvs = ''true''),
                  Unique = (string_attribute ''unique'' kvs = ''true''),
                  MaxValue = interface_attribute env ''maxValue'' kvs,
                  MinValue = interface_attribute env ''minValue'' kvs,
                  MaxLength = interface_attribute env ''maxLength'' kvs,
                  MinLength = interface_attribute env ''minLength'' kvs,
                  Default = interface_attribute env ''defaultValue'' kvs,
                  DefaultTime = interface_attribute env ''defaultExpression'' kvs,
                  Options = options_attribute env kvs,
                  Expression = string_attribute ''expression'' kvs,
                  Separator = (string_attribute ''digit'' kvs = ''true''),
                  Medium = string_attribute ''protocol'' kvs,
                  Format = string_attribute ''format'' kvs\<rparr>
               \<and> (\<forall>(nm, flag, g)\<in>set flag_fields.
                     ((\<forall>(k, v)\<in>set kvs. \<not> equalFold nm k) \<longrightarrow> \<not> flag fi')
                     \<and> (\<forall>pre k x post.
                           kvs = pre @ (k, JString x) # post \<and> equalFold nm k
                           \<and> (\<forall>(k', v)\<in>set post. \<not> equalFold nm k')
                           \<longrightarrow> flag fi' = (x = ''true'')))))"
proof -
  have err: "(\<forall>err fi'. FieldInfo_UnmarshalJSON env data fi = (Some err, fi') \<longrightarrow> fi' = fi)"
    using FieldInfo_UnmarshalJSON_error by blast
  have nojson: "(json_parse data = None \<longrightarrow> fst (FieldInfo_UnmarshalJSON env data fi) \<noteq> None)"
    by (simp add: FieldInfo_UnmarshalJSON_fst json_Unmarshal_def)
  have noobj: "(\<forall>v. json_parse data = Some v \<and> v \<noteq> JNull \<and> (\<forall>kvs. v \<noteq> JObject kvs)
          \<longrightarrow> fst (FieldInfo_UnmarshalJSON env data fi) \<noteq> None)"
    using Unmarshal_no_object_error [of data "staging_field env" staging_zero]
    by (auto simp: FieldInfo_UnmarshalJSON_fst)
  have null: "(json_parse data = Some JNull
          \<longrightarrow> FieldInfo_UnmarshalJSON env data fi = (None, FieldInfo_zero))"
    using FieldInfo_UnmarshalJSON_null by blast
  have obj: "(\<forall>k v. (k, v) \<in> set kvs
              \<and> ((\<exists>nm\<in>set string_attributes. equalFold nm k)
                     \<and> v \<noteq> JNull \<and> (\<forall>x. v \<noteq> JString x)
                   \<or> (\<exists>nm\<in>set interface_attributes. equalFold nm k)
                     \<and> fst (json_interface env v)
                   \<or> equalFold ''options'' k \<and> (\<forall>old. fst (json_strings env v old)))
              \<longrightarrow> fst (FieldInfo_UnmarshalJSON env data fi) \<noteq> None)
         \<and> ((\<forall>(k, v)\<in>set kvs.
               (\<forall>nm\<in>set string_attributes.
                   equalFold nm k \<longrightarrow> v = JNull \<or> (\<exists>x. v = JString x))
               \<and> (\<forall>nm\<in>set interface_attributes.
                      equalFold nm k \<longrightarrow> \<not> fst (json_interface env v))
               \<and> (equalFold ''options'' k \<longrightarrow> (\<forall>old. \<not> fst (json_strings env v old))))
              \<longrightarrow> fst (FieldInfo_UnmarshalJSON env data fi) = None)
         \<and> (\<forall>fi'. FieldInfo_UnmarshalJSON env data fi = (None, fi') \<longrightarrow>
               fi' =
                 \<lparr>Label = string_attribute ''label'' kvs, Code = string_attribute ''code'' kvs,
                  Type = string_attribute ''type'' kvs,
                  NoLabel = (string_attribute ''noLabel'' kvs = ''true''),
                  Required = (string_attribute ''required'' kvs = ''true''),
                  Unique = (string_attribute ''unique'' kvs = ''true''),
                  MaxValue = interface_attribute env ''maxValue'' kvs,
                  MinValue = interface_attribute env ''minValue'' kvs,
                  MaxLength = interface_attribute env ''maxLength'' kvs,
                  MinLength = interface_attribute env ''minLength'' kvs,
                  Default = interface_attribute env ''defaultValue'' kvs,
                  DefaultTime = interface_attribute env ''defaultExpression'' kvs,
                  Options = options_attribute env kvs,
                  Expression = string_attribute ''expression'' kvs,
                  Separator = (string_attribute ''digit'' kvs = ''true''),
                  Medium = string_attribute ''protocol'' kvs,
                  Format = string_attribute ''format'' kvs\<rparr>
               \<and> (\<forall>(nm, flag, g)\<in>set flag_fields.
                     ((\<forall>(k, v)\<in>set kvs. \<not> equalFold nm k) \<longrightarrow> \<not> flag fi')
                     \<and> (\<forall>pre k x post.
                           kvs = pre @ (k, JString x) # post \<and> equalFold nm k
                           \<and> (\<forall>(k', v)\<in>set post. \<not> equalFold nm k')
                           \<longrightarrow> flag fi' = (x = ''true''))))"
    if p: "json_parse data = Some (JObject kvs)" for kvs
  proof -
    have e: "fst (FieldInfo_UnmarshalJSON env data fi) = None
        \<longleftrightarrow> \<not> fst (decode_object (staging_field env) kvs staging_zero)"
      using Unmarshal_object_error [OF p] by (simp add: FieldInfo_UnmarshalJSON_fst)
    have bad: "(\<forall>k v. (k, v) \<in> set kvs
              \<and> ((\<exists>nm\<in>set string_attributes. equalFold nm k)
                     \<and> v \<noteq> JNull \<and> (\<forall>x. v \<noteq> JString x)
                   \<or> (\<exists>nm\<in>set interface_attributes. equalFold nm k)
                     \<and> fst (json_interface env v)
                   \<or> equalFold ''options'' k \<and> (\<forall>old. fst (json_strings env v old)))
              \<longrightarrow> fst (FieldInfo_UnmarshalJSON env data fi) \<noteq> None)"
    proof (intro allI impI)
      fix k v
      assume a: "(k, v) \<in> set kvs
              \<and> ((\<exists>nm\<in>set string_attributes. equalFold nm k)
                     \<and> v \<noteq> JNull \<and> (\<forall>x. v \<noteq> JString x)
                   \<or> (\<exists>nm\<in>set interface_attributes. equalFold nm k)
                     \<and> fst (json_interface env v)
                   \<or> equalFold ''options'' k \<and> (\<forall>old. fst (json_strings env v old)))"
      then have "fst (staging_field env k v t)" for t
        using staging_field_string_error [of _ k env v t]
          staging_field_interface_error [of _ k env v t]
          staging_field_options_error [of k env v t]
        by blast
      then have "fst (decode_object (staging_field env) kvs staging_zero)"
        using a decode_object_bad [of k v kvs "staging_field env" staging_zero] by blast
      then show "fst (FieldInfo_UnmarshalJSON env data fi) \<noteq> None"
        using e by simp
    qed
    have good: "((\<forall>(k, v)\<in>set kvs.
               (\<forall>nm\<in>set string_attributes.
                   equalFold nm k \<longrightarrow> v = JNull \<or> (\<exists>x. v = JString x))
               \<and> (\<forall>nm\<in>set interface_attributes.
                      equalFold nm k \<longrightarrow> \<not> fst (json_interface env v))
               \<and> (equalFold ''options'' k \<longrightarrow> (\<forall>old. \<not> fst (json_strings env v old))))
              \<longrightarrow> fst (FieldInfo_UnmarshalJSON env data fi) = None)"
    proof
      assume a: "\<forall>(k, v)\<in>set kvs.
               (\<forall>nm\<in>set string_attributes.
                   equalFold nm k \<longrightarrow> v = JNull \<or> (\<exists>x. v = JString x))
               \<and> (\<forall>nm\<in>set interface_attributes.
                      equalFold nm k \<longrightarrow> \<not> fst (json_interface env v))
               \<and> (equalFold ''options'' k \<longrightarrow> (\<forall>old. \<not> fst (json_strings env v old)))"
      have "\<not> fst (staging_field env k v t)" if "(k, v) \<in> set kvs" for k v t
        using a that by (intro staging_field_accepts) blast+
      then have "\<not> fst (decode_object (staging_field env) kvs staging_zero)"
        by (rule decode_object_good)
      then show "fst (FieldInfo_UnmarshalJSON env data fi) = None"
        using e by simp
    qed
    have fields: "(\<forall>fi'. FieldInfo_UnmarshalJSON env data fi = (None, fi') \<longrightarrow>
               fi' =
                 \<lparr>Label = string_attribute ''label'' kvs, Code = string_attribute ''code'' kvs,
                  Type = string_attribute ''type'' kvs,
                  NoLabel = (string_attribute ''noLabel'' kvs = ''true''),
                  Required = (string_attribute ''required'' kvs = ''true''),
                  Unique = (string_attribute ''unique'' kvs = ''true''),
                  MaxValue = interface_attribute env ''maxValue'' kvs,
                  MinValue = interface_attribute env ''minValue'' kvs,
                  MaxLength = interface_attribute env ''maxLength'' kvs,
                  MinLength = interface_attribute env ''minLength'' kvs,
                  Default = interface_attribute env ''defaultValue'' kvs,
                  DefaultTime = interface_attribute env ''defaultExpression'' kvs,
                  Options = options_attribute env kvs,
                  Expression = string_attribute ''expression'' kvs,
                  Separator = (string_attribute ''digit'' kvs = ''true''),
                  Medium = string_attribute ''protocol'' kvs,
                  Format = string_attribute ''format'' kvs\<rparr>
               \<and> (\<forall>(nm, flag, g)\<in>set flag_fields.
                     ((\<forall>(k, v)\<in>set kvs. \<not> equalFold nm k) \<longrightarrow> \<not> flag fi')
                     \<and> (\<forall>pre k x post.
                           kvs = pre @ (k, JString x) # post \<and> equalFold nm k
                           \<and> (\<forall>(k', v)\<in>set post. \<not> equalFold nm k')
                           \<longrightarrow> flag fi' = (x = ''true''))))"
    proof (intro allI impI)
      fix fi'
      assume r: "FieldInfo_UnmarshalJSON env data fi = (None, fi')"
      have rec: "fi' =
                 \<lparr>Label = string_attribute ''label'' kvs, Code = string_attribute ''code'' kvs,
                  Type = string_attribute ''type'' kvs,
                  NoLabel = (string_attribute ''noLabel'' kvs = ''true''),
                  Required = (string_attribute ''required'' kvs = ''true''),
                  Unique = (string_attribute ''unique'' kvs = ''true''),
                  MaxValue = interface_attribute env ''maxValue'' kvs,
                  MinValue = interface_attribute env ''minValue'' kvs,
                  MaxLength = interface_attribute env ''maxLength'' kvs,
                  MinLength = interface_attribute env ''minLength'' kvs,
                  Default = interface_attribute env ''defaultValue'' kvs,
                  DefaultTime = interface_attribute env ''defaultExpression'' kvs,
                  Options = options_attribute env kvs,
                  Expression = string_attribute ''expression'' kvs,
                  Separator = (string_attribute ''digit'' kvs = ''true''),
                  Medium = string_attribute ''protocol'' kvs,
                  Format = string_attribute ''format'' kvs\<rparr>"
        using p r by (rule FieldInfo_UnmarshalJSON_object)
      have flag: "flag fi' = (string_attribute nm kvs = ''true'')"
        if "(nm, flag, g) \<in> set flag_fields" for nm flag g
        using that by (subst rec) (auto simp: flag_fields_def simp del: equalFold.simps)
      have flags: "((\<forall>(k, v)\<in>set kvs. \<not> equalFold nm k) \<longrightarrow> \<not> flag fi')
                     \<and> (\<forall>pre k x post.
                           kvs = pre @ (k, JString x) # post \<and> equalFold nm k
                           \<and> (\<forall>(k', v)\<in>set post. \<not> equalFold nm k')
                           \<longrightarrow> flag fi' = (x = ''true''))"
        if m: "(nm, flag, g) \<in> set flag_fields" for nm flag g
        using flag [OF m] string_attribute_absent [of kvs nm] string_attribute_last [of nm]
        by auto
      show "fi' =
                 \<lparr>Label = string_attribute ''label'' kvs, Code = string_attribute ''code'' kvs,
                  Type = string_attribute ''type'' kvs,
                  NoLabel = (string_attribute ''noLabel'' kvs = ''true''),
                  Required = (string_attribute ''required'' kvs = ''true''),
                  Unique = (string_attribute ''unique'' kvs = ''true''),
                  MaxValue = interface_attribute env ''maxValue'' kvs,
                  MinValue = interface_attribute env ''minValue'' kvs,
                  MaxLength = interface_attribute env ''maxLength'' kvs,
                  MinLength = interface_attribute env ''minLength'' kvs,
                  Default = interface_attribute env ''defaultValue'' kvs,
                  DefaultTime = interface_attribute env ''defaultExpression'' kvs,
                  Options = options_attribute env kvs,
                  Expression = string_attribute ''expression'' kvs,
                  Separator = (string_attribute ''digit'' kvs = ''true''),
                  Medium = string_attribute ''protocol'' kvs,
                  Format = string_attribute ''format'' kvs\<rparr>
               \<and> (\<forall>(nm, flag, g)\<in>set flag_fields.
                     ((\<forall>(k, v)\<in>set kvs. \<not> equalFold nm k) \<longrightarrow> \<not> flag fi')
                     \<and> (\<forall>pre k x post.
                           kvs = pre @ (k, JString x) # post \<and> equalFold nm k
                           \<and> (\<forall>(k', v)\<in>set post. \<not> equalFold nm k')
                           \<longrightarrow> flag fi' = (x = ''true'')))"
        using rec flags by blast
    qed
    show ?thesis
      by (intro conjI) (rule bad good fields)+
  qed
  show ?thesis
    by (intro conjI) (rule err nojson noobj null | (intro allI impI, rule obj, assumption))+
qed

lemma example_field_parsed:
  "json_parse example_field_payload = Some (JObject example_field_members)"
  by code_simp

lemma example_field_accepted:
  "list_all (\<lambda>(k, v).
        (list_ex (\<lambda>nm. equalFold nm k) string_attributes \<longrightarrow> \<not> fst (store_string v []))
        \<and> (list_ex (\<lambda>nm. equalFold nm k) interface_attributes
              \<longrightarrow> \<not> fst (json_interface (example_env []) v))
        \<and> (equalFold ''options'' k \<longrightarrow> \<not> fst (json_strings (example_env []) v None)))
     example_field_members"
  by code_simp

lemma accepted_members:
  assumes "list_all (\<lambda>(k, v).
        (list_ex (\<lambda>nm. equalFold nm k) string_attributes \<longrightarrow> \<not> fst (store_string v []))
        \<and> (list_ex (\<lambda>nm. equalFold nm k) interface_attributes
              \<longrightarrow> \<not> fst (json_interface env v))
        \<and> (equalFold ''options'' k \<longrightarrow> \<not> fst (json_strings env v None))) kvs"
    and "\<And>v old. fst (json_strings env v old) = fst (json_strings env v None)"
  shows "\<forall>(k, v)\<in>set kvs.
     (\<forall>nm\<in>set string_attributes. equalFold nm k \<longrightarrow> v = JNull \<or> (\<exists>x. v = JString x))
     \<and> (\<forall>nm\<in>set interface_attributes. equalFold nm k \<longrightarrow> \<not> fst (json_interface env v))
     \<and> (equalFold ''options'' k \<longrightarrow> (\<forall>old. \<not> fst (json_strings env v old)))"
proof -
  have "(\<forall>nm\<in>set string_attributes. equalFold nm k \<longrightarrow> v = JNull \<or> (\<exists>x. v = JString x))
     \<and> (\<forall>nm\<in>set interface_attributes. equalFold nm k \<longrightarrow> \<not> fst (json_interface env v))
     \<and> (equalFold ''options'' k \<longrightarrow> (\<forall>old. \<not> fst (json_strings env v old)))"
    if m: "(k, v) \<in> set kvs" for k v
  proof -
    have a: "(list_ex (\<lambda>nm. equalFold nm k) string_attributes \<longrightarrow> \<not> fst (store_string v []))
        \<and> (list_ex (\<lambda>nm. equalFold nm k) interface_attributes
              \<longrightarrow> \<not> fst (json_interface env v))
        \<and> (equalFold ''options'' k \<longrightarrow> \<not> fst (json_strings env v None))"
      using assms(1) m unfolding list_all_iff by blast
    have s: "v = JNull \<or> (\<exists>x. v = JString x)" if "nm \<in> set string_attributes" "equalFold nm k" for nm
      using a that store_string_fst [of v "[]"] unfolding list_ex_iff by blast
    have i: "\<not> fst (json_interface env v)" if "nm \<in> set interface_attributes" "equalFold nm k" for nm
      using a that unfolding list_ex_iff by blast
    have opts: "\<not> fst (json_strings env v old)" if "equalFold ''options'' k" for old
      using a that assms(2) [of v old] by blast
    show ?thesis
      using s i opts by blast
  qed
  then show ?thesis
    by blast
qed

lemma example_json_strings:
  "fst (json_strings (example_env script) v old) = fst (json_strings (example_env script) v None)"
  by (cases v) (simp_all add: example_env_def)

lemma example_field_attributes:
  "\<lparr>Label = string_attribute ''label'' example_field_members, Code = string_attribute ''code'' example_field_members,
      Type = string_attribute ''type'' example_field_members,
      NoLabel = (string_attribute ''noLabel'' example_field_members = ''true''),
      Required = (string_attribute ''required'' example_field_members = ''true''),
      Unique = (string_attribute ''unique'' example_field_members = ''true''),
      MaxValue = interface_attribute (example_env []) ''maxValue'' example_field_members,
      MinValue = interface_attribute (example_env []) ''minValue'' example_field_members,
      MaxLength = interface_attribute (example_env []) ''maxLength'' example_field_members,
      MinLength = interface_attribute (example_env []) ''minLength'' example_field_members,
      Default = interface_attribute (example_env []) ''defaultValue'' example_field_members,
      DefaultTime = interface_attribute (example_env []) ''defaultExpression'' example_field_members,
      Options = options_attribute (example_env []) example_field_members,
      Expression = string_attribute ''expression'' example_field_members,
      Separator = (string_attribute ''digit'' example_field_members = ''true''),
      Medium = string_attribute ''protocol'' example_field_members, Format = string_attribute ''format'' example_field_members\<rparr>
   = \<lparr>Label = ''Name'', Code = ''c1'', Type = ''NUMBER'', NoLabel = False, Required = True,
         Unique = False, MaxValue = Some 2, MinValue = Some 1, MaxLength = Some 3,
         MinLength = Some 4, Default = Some 5, DefaultTime = Some 6,
         Options = Some [''a'', ''b''], Expression = ''x+1'', Separator = True,
         Medium = ''WEB'', Format = ''NUMBER_DIGIT''\<rparr>"
  by code_simp

theorem FieldInfo_UnmarshalJSON_flags_witness:
  "FieldInfo_UnmarshalJSON (example_env []) example_field_payload FieldInfo_zero
     = (None,
        \<lparr>Label = ''Name'', Code = ''c1'', Type = ''NUMBER'', NoLabel = False, Required = True,
         Unique = False, MaxValue = Some 2, MinValue = Some 1, MaxLength = Some 3,
         MinLength = Some 4, Default = Some 5, DefaultTime = Some 6,
         Options = Some [''a'', ''b''], Expression = ''x+1'', Separator = True,
         Medium = ''WEB'', Format = ''NUMBER_DIGIT''\<rparr>)
   \<and> fst (FieldInfo_UnmarshalJSON (example_env []) mistyped_field_payload FieldInfo_zero) \<noteq> None
   \<and> snd (FieldInfo_UnmarshalJSON (example_env []) mistyped_field_payload FieldInfo_zero)
       = FieldInfo_zero"
proof -
  let ?env = "example_env [] :: (nat, nat) env"
  let ?fi = "FieldInfo_zero :: nat FieldInfo"
  note p = example_field_parsed
  have a: "\<forall>(k, v)\<in>set example_field_members.
     (\<forall>nm\<in>set string_attributes. equalFold nm k \<longrightarrow> v = JNull \<or> (\<exists>x. v = JString x))
     \<and> (\<forall>nm\<in>set interface_attributes. equalFold nm k \<longrightarrow> \<not> fst (json_interface ?env v))
     \<and> (equalFold ''options'' k \<longrightarrow> (\<forall>old. \<not> fst (json_strings ?env v old)))"
    by (rule accepted_members [OF example_field_accepted example_json_strings])
  note t = FieldInfo_UnmarshalJSON_flags [of ?env example_field_payload ?fi]
  have ok: "fst (FieldInfo_UnmarshalJSON ?env example_field_payload ?fi) = None"
    using t p a by blast
  obtain fi' where r: "FieldInfo_UnmarshalJSON ?env example_field_payload ?fi = (None, fi')"
    using ok by (cases "FieldInfo_UnmarshalJSON ?env example_field_payload ?fi") simp
  have "fi' =
     \<lparr>Label = string_attribute ''label'' example_field_members, Code = string_attribute ''code'' example_field_members,
      Type = string_attribute ''type'' example_field_members,
      NoLabel = (string_attribute ''noLabel'' example_field_members = ''true''),
      Required = (string_attribute ''required'' example_field_members = ''true''),
      Unique = (string_attribute ''unique'' example_field_members = ''true''),
      MaxValue = interface_attribute ?env ''maxValue'' example_field_members,
      MinValue = interface_attribute ?env ''minValue'' example_field_members,
      MaxLength = interface_attribute ?env ''maxLength'' example_field_members,
      MinLength = interface_attribute ?env ''minLength'' example_field_members,
      Default = interface_attribute ?env ''defaultValue'' example_field_members,
      DefaultTime = interface_attribute ?env ''defaultExpression'' example_field_members,
      Options = options_attribute ?env example_field_members,
      Expression = string_attribute ''expression'' example_field_members,
      Separator = (string_attribute ''digit'' example_field_members = ''true''),
      Medium = string_attribute ''protocol'' example_field_members, Format = string_attribute ''format'' example_field_members\<rparr>"
    using t p r by blast
  then have one: "FieldInfo_UnmarshalJSON ?env example_field_payload ?fi
     = (None,
        \<lparr>Label = ''Name'', Code = ''c1'', Type = ''NUMBER'', NoLabel = False, Required = True,
         Unique = False, MaxValue = Some 2, MinValue = Some 1, MaxLength = Some 3,
         MinLength = Some 4, Default = Some 5, DefaultTime = Some 6,
         Options = Some [''a'', ''b''], Expression = ''x+1'', Separator = True,
         Medium = ''WEB'', Format = ''NUMBER_DIGIT''\<rparr>)"
    using r by (simp only: example_field_attributes)
  have q: "json_parse mistyped_field_payload
     = Some (JObject [(''required'', JString ''true''), (''label'', JNumber ''5'')])"
    by code_simp
  note u = FieldInfo_UnmarshalJSON_flags [of ?env mistyped_field_payload ?fi]
  have m: "(''label'', JNumber ''5'')
             \<in> set [(''required'', JString ''true''), (''label'', JNumber ''5'')]
      \<and> ((\<exists>nm\<in>set string_attributes. equalFold nm ''label'')
             \<and> JNumber ''5'' \<noteq> JNull \<and> (\<forall>x. JNumber ''5'' \<noteq> JString x)
          \<or> (\<exists>nm\<in>set interface_attributes. equalFold nm ''label'')
             \<and> fst (json_interface ?env (JNumber ''5''))
          \<or> equalFold ''options'' ''label''
             \<and> (\<forall>old. fst (json_strings ?env (JNumber ''5'') old)))"
    by (simp add: string_attributes_def)
  have two: "fst (FieldInfo_UnmarshalJSON ?env mistyped_field_payload ?fi) \<noteq> None"
    using u q m by blast
  then obtain err fi'' where
      e: "FieldInfo_UnmarshalJSON ?env mistyped_field_payload ?fi = (Some err, fi'')"
    by (cases "FieldInfo_UnmarshalJSON ?env mistyped_field_payload ?fi") auto
  then have "fi'' = ?fi"
    using u by blast
  then have three: "snd (FieldInfo_UnmarshalJSON ?env mistyped_field_payload ?fi) = ?fi"
    using e by simp
  show ?thesis
    by (intro conjI) (rule one two three)+
qed

end
